(* ===== verification/Bpsgi_Prelude.thy ===== *)
theory Bpsgi_Prelude
  imports Main "HOL-Library.Word"
begin

text \<open>
  The vocabulary every component theory shares:
  \<^item> the outcome of a piece of C++ code (a value, a thrown exception, the end of
    the process, or waiting for the operating system) and the sequencing of code that works
    on an explicit state;
  \<^item> machine integers and byte-addressed memory with little-endian 64-bit cells;
  \<^item> decimal printing of integers, as the stream operator and the printf family print them;
  \<^item> C buffers: what \<^verbatim>\<open>vsnprintf\<close> keeps of a text, reading up to the
    terminating NUL.
\<close>

named_theorems prog_simps \<open>unfolding of sequencing and exception handling\<close>
named_theorems mem_simps \<open>reading memory after writing it\<close>

section \<open>Outcomes and sequencing\<close>

text \<open>
  \<^verbatim>\<open>SyscallException\<close> carries either an errno or a formatted text
  (exceptions.cpp); the other exceptions carry their text. \<open>StringExn\<close> is a thrown
  \<^verbatim>\<open>std::string\<close>, \<open>LogicError\<close> a \<^verbatim>\<open>std::logic_error\<close>.
\<close>

record SyscallException =
  syscall_name :: string
  s_errno :: int
  strerror_text :: "string option"

datatype exn =
    SyscallExn SyscallException
  | RuntimeExn string
  | PerlInterpreterExn string
  | LogicError string
  | StringExn string

text \<open>How a process ends: \<^verbatim>\<open>exit\<close> or \<^verbatim>\<open>_exit\<close> with a
  code, \<^verbatim>\<open>abort\<close> (a failed assertion included), an access outside of the mapped
  memory, the default action of a signal.\<close>

datatype halt = Exited int | Aborted | Segfault | KilledBy int

datatype 'a outcome = Ret 'a | Throw exn | Halt halt | Pending

type_synonym ('s, 'a) prog = "'s \<Rightarrow> 'a outcome \<times> 's"

definition ret :: "'a \<Rightarrow> ('s, 'a) prog" where
  "ret a s = (Ret a, s)"

definition throw :: "exn \<Rightarrow> ('s, 'a) prog" where
  "throw e s = (Throw e, s)"

definition halt :: "halt \<Rightarrow> ('s, 'a) prog" where
  "halt h s = (Halt h, s)"

definition bind :: "('s, 'a) prog \<Rightarrow> ('a \<Rightarrow> ('s, 'b) prog) \<Rightarrow> ('s, 'b) prog" where
  "bind m f s = (case m s of
      (Ret a, s') \<Rightarrow> f a s'
    | (Throw e, s') \<Rightarrow> (Throw e, s')
    | (Halt h, s') \<Rightarrow> (Halt h, s')
    | (Pending, s') \<Rightarrow> (Pending, s'))"

definition andThen :: "('s, unit) prog \<Rightarrow> ('s, 'b) prog \<Rightarrow> ('s, 'b) prog" where
  "andThen m n = bind m (\<lambda>_. n)"

text \<open>\<open>catch m h\<close> runs the handler on a thrown exception; the handler rethrows
  what it does not take.\<close>

definition catch :: "('s, 'a) prog \<Rightarrow> (exn \<Rightarrow> ('s, 'a) prog) \<Rightarrow> ('s, 'a) prog" where
  "catch m h s = (case m s of
      (Ret a, s') \<Rightarrow> (Ret a, s')
    | (Throw e, s') \<Rightarrow> h e s'
    | (Halt x, s') \<Rightarrow> (Halt x, s')
    | (Pending, s') \<Rightarrow> (Pending, s'))"

definition gets :: "('s \<Rightarrow> 'a) \<Rightarrow> ('s, 'a) prog" where
  "gets f s = (Ret (f s), s)"

definition modify :: "('s \<Rightarrow> 's) \<Rightarrow> ('s, unit) prog" where
  "modify f s = (Ret (), f s)"

text \<open>\<^verbatim>\<open>Assert\<close> is \<^verbatim>\<open>assert\<close>: a false condition aborts.\<close>

definition Assert :: "bool \<Rightarrow> ('s, unit) prog" where
  "Assert b = (if b then ret () else halt Aborted)"

lemmas prog_defs = ret_def throw_def halt_def bind_def andThen_def catch_def gets_def
  modify_def Assert_def

lemma bind_Ret [prog_simps]: "m s = (Ret a, s') \<Longrightarrow> bind m f s = f a s'"
  by (simp add: bind_def)

lemma bind_Throw [prog_simps]: "m s = (Throw e, s') \<Longrightarrow> bind m f s = (Throw e, s')"
  by (simp add: bind_def)

lemma bind_Halt [prog_simps]: "m s = (Halt h, s') \<Longrightarrow> bind m f s = (Halt h, s')"
  by (simp add: bind_def)

lemma bind_Pending [prog_simps]: "m s = (Pending, s') \<Longrightarrow> bind m f s = (Pending, s')"
  by (simp add: bind_def)

lemma bind_eq_RetE:
  assumes "bind m f s = (Ret b, t)"
  obtains a s' where "m s = (Ret a, s')" "f a s' = (Ret b, t)"
  using assms by (auto simp: bind_def split: prod.splits outcome.splits)

lemma bind_cong [fundef_cong]:
  assumes "m s = m' s'" and "\<And>a t. m' s' = (Ret a, t) \<Longrightarrow> f a t = f' a t"
  shows "bind m f s = bind m' f' s'"
  using assms by (auto simp: bind_def split: prod.splits outcome.splits)

lemma bind_ret [simp]: "bind (ret a) f = f a"
  by (rule ext) (simp add: bind_def ret_def)

lemma bind_throw [simp]: "bind (throw e) f = throw e"
  by (rule ext) (simp add: bind_def throw_def)

lemma bind_halt [simp]: "bind (halt h) f = halt h"
  by (rule ext) (simp add: bind_def halt_def)

lemma bind_assoc: "bind (bind m f) g = bind m (\<lambda>a. bind (f a) g)"
  by (rule ext) (simp add: bind_def split: prod.split outcome.split)

text \<open>A predicate on states that a program keeps, whatever its outcome.\<close>

definition keeps :: "('s \<Rightarrow> bool) \<Rightarrow> ('s, 'a) prog \<Rightarrow> bool" where
  "keeps P m \<longleftrightarrow> (\<forall>s. P s \<longrightarrow> P (snd (m s)))"

lemma keepsI: "(\<And>s. P s \<Longrightarrow> P (snd (m s))) \<Longrightarrow> keeps P m"
  by (simp add: keeps_def)

lemma keepsD: "keeps P m \<Longrightarrow> P s \<Longrightarrow> m s = (r, t) \<Longrightarrow> P t"
  unfolding keeps_def by (metis snd_conv)

lemma keeps_bind:
  assumes "keeps P m" and "\<And>a. keeps P (f a)"
  shows "keeps P (bind m f)"
  using assms unfolding keeps_def bind_def
  by (auto split: prod.splits outcome.splits)

lemma keeps_andThen: "keeps P m \<Longrightarrow> keeps P n \<Longrightarrow> keeps P (andThen m n)"
  unfolding andThen_def by (rule keeps_bind)

lemma keeps_catch:
  assumes "keeps P m" and "\<And>e. keeps P (h e)"
  shows "keeps P (catch m h)"
  using assms unfolding keeps_def catch_def
  by (auto split: prod.splits outcome.splits)

lemma keeps_pure [simp]:
  "keeps P (ret a)" "keeps P (throw e)" "keeps P (halt h)" "keeps P (gets g)"
  "keeps P (Assert b)"
  by (simp_all add: keeps_def ret_def throw_def halt_def gets_def Assert_def)

lemmas keeps_intros = keeps_bind keeps_andThen keeps_catch

text \<open>An endless loop whose body makes progress on some measure whenever it returns.\<close>

lemma keeps_loop:
  fixes \<mu> :: "'s \<Rightarrow> nat"
  assumes loop: "\<And>s. loop s = bind body (\<lambda>_ t. loop t) s"
    and body: "keeps P body"
    and progress: "\<And>s a t. body s = (Ret a, t) \<Longrightarrow> \<mu> t < \<mu> s"
  shows "keeps P loop"
proof (rule keepsI)
  fix s assume "P s"
  then show "P (snd (loop s))"
  proof (induction s rule: measure_induct_rule [of \<mu>])
    case (less s)
    obtain q t where b: "body s = (q, t)" by fastforce
    then have "P t" using keepsD [OF body less.prems] by blast
    with less.IH progress b show ?case
      by (subst loop) (auto simp: bind_def split: outcome.split)
  qed
qed

lemma never_returning_loop:
  fixes \<mu> :: "'s \<Rightarrow> nat"
  assumes loop: "\<And>s. loop s = bind body (\<lambda>_ t. loop t) s"
    and progress: "\<And>s a t. body s = (Ret a, t) \<Longrightarrow> \<mu> t < \<mu> s"
  shows "loop s \<noteq> (Ret x, u)"
proof (induction s rule: measure_induct_rule [of \<mu>])
  case (less s)
  then show ?case
    using progress by (subst loop) (auto elim!: bind_eq_RetE)
qed

text \<open>A predicate that a program keeps when it returns, and programs that never return
  a value to their caller.\<close>

definition keeps_ret :: "('s \<Rightarrow> bool) \<Rightarrow> ('s, 'a) prog \<Rightarrow> bool" where
  "keeps_ret P m \<longleftrightarrow> (\<forall>s a t. P s \<longrightarrow> m s = (Ret a, t) \<longrightarrow> P t)"

definition never_returns :: "('s, 'a) prog \<Rightarrow> bool" where
  "never_returns m \<longleftrightarrow> (\<forall>s a t. m s \<noteq> (Ret a, t))"

lemma keeps_retD: "keeps_ret P m \<Longrightarrow> P s \<Longrightarrow> m s = (Ret a, t) \<Longrightarrow> P t"
  by (simp add: keeps_ret_def)

lemma keeps_ret_bind:
  assumes "keeps_ret P m" and "\<And>a. keeps_ret P (f a)"
  shows "keeps_ret P (bind m f)"
  using assms unfolding keeps_ret_def by (blast elim: bind_eq_RetE)

lemma keeps_ret_andThen: "keeps_ret P m \<Longrightarrow> keeps_ret P n \<Longrightarrow> keeps_ret P (andThen m n)"
  unfolding andThen_def by (rule keeps_ret_bind)

lemma keeps_ret_never: "never_returns m \<Longrightarrow> keeps_ret P m"
  by (simp add: never_returns_def keeps_ret_def)

lemma keeps_ret_catch:
  assumes "keeps_ret P m" and "\<And>e. never_returns (h e)"
  shows "keeps_ret P (catch m h)"
  using assms unfolding keeps_ret_def never_returns_def catch_def
  by (auto split: prod.splits outcome.splits)

lemma keeps_ret_pure [simp]:
  "keeps_ret P (ret a)" "keeps_ret P (throw e)" "keeps_ret P (halt h)" "keeps_ret P (gets g)"
  "keeps_ret P (Assert b)"
  by (simp_all add: keeps_ret_def ret_def throw_def halt_def gets_def Assert_def)

lemmas keeps_ret_intros = keeps_ret_bind keeps_ret_andThen keeps_ret_catch

text \<open>Programs that throw no other exceptions than those of a kind.\<close>

definition throws_only :: "(exn \<Rightarrow> bool) \<Rightarrow> ('s, 'a) prog \<Rightarrow> bool" where
  "throws_only E m \<longleftrightarrow> (\<forall>s e t. m s = (Throw e, t) \<longrightarrow> E e)"

lemma throws_onlyD: "throws_only E m \<Longrightarrow> m s = (Throw e, t) \<Longrightarrow> E e"
  unfolding throws_only_def by blast

lemma throws_only_pure [simp]:
  "throws_only E (ret a)" "throws_only E (halt h)" "throws_only E (gets g)" "throws_only E (modify f)"
  "throws_only E (Assert b)" "throws_only E (throw e) = E e"
  by (simp_all add: throws_only_def ret_def throw_def halt_def gets_def modify_def Assert_def)

lemma throws_only_bind:
  assumes "throws_only E m" and "\<And>a. throws_only E (f a)"
  shows "throws_only E (bind m f)"
  using assms unfolding throws_only_def bind_def by (auto split: prod.splits outcome.splits)

lemma throws_only_andThen: "throws_only E m \<Longrightarrow> throws_only E n \<Longrightarrow> throws_only E (andThen m n)"
  unfolding andThen_def by (rule throws_only_bind)

lemma throws_only_catch:
  assumes "throws_only F m" and "\<And>e. F e \<Longrightarrow> throws_only E (h e)"
  shows "throws_only E (catch m h)"
  unfolding throws_only_def
proof (intro allI impI)
  fix s e t assume run: "catch m h s = (Throw e, t)"
  then obtain e' s' where "m s = (Throw e', s')" "h e' s' = (Throw e, t)"
    by (auto simp: catch_def split: prod.splits outcome.splits)
  then show "E e" using assms by (blast dest: throws_onlyD)
qed

lemmas throws_only_intros = throws_only_bind throws_only_andThen

lemma throws_only_loop:
  fixes \<mu> :: "'s \<Rightarrow> nat"
  assumes loop: "\<And>s. loop s = bind body (\<lambda>_ t. loop t) s"
    and body: "throws_only E body"
    and progress: "\<And>s a t. body s = (Ret a, t) \<Longrightarrow> \<mu> t < \<mu> s"
  shows "throws_only E loop"
proof -
  have "loop s = (Throw e, t) \<Longrightarrow> E e" for s e t
  proof (induction s rule: measure_induct_rule [of \<mu>])
    case (less s)
    from less.prems show ?case
      using less.IH progress throws_onlyD [OF body]
      by (subst (asm) loop) (auto simp: bind_def split: prod.splits outcome.splits)
  qed
  then show ?thesis by (auto simp: throws_only_def)
qed

lemma never_returns_pure [simp]: "never_returns (throw e)" "never_returns (halt h)"
  by (simp_all add: never_returns_def throw_def halt_def)

lemma never_returns_bind1: "never_returns m \<Longrightarrow> never_returns (bind m f)"
  unfolding never_returns_def by (blast elim: bind_eq_RetE)

lemma never_returns_bind: "(\<And>a. never_returns (f a)) \<Longrightarrow> never_returns (bind m f)"
  unfolding never_returns_def by (blast elim: bind_eq_RetE)

lemma never_returns_andThen: "never_returns n \<Longrightarrow> never_returns (andThen m n)"
  unfolding andThen_def by (rule never_returns_bind)

lemma never_returns_catch:
  "never_returns m \<Longrightarrow> (\<And>e. never_returns (h e)) \<Longrightarrow> never_returns (catch m h)"
  unfolding never_returns_def catch_def by (auto split: prod.splits outcome.splits)

lemmas never_returns_intros = never_returns_bind never_returns_andThen never_returns_catch

section \<open>Error numbers and signals\<close>

text \<open>The Linux values of the constants the sources compare with.\<close>

definition EINTR :: int where "EINTR = 4"

definition ECHILD :: int where "ECHILD = 10"

definition EAGAIN :: int where "EAGAIN = 11"

definition EINVAL :: int where "EINVAL = 22"

definition EOVERFLOW :: int where "EOVERFLOW = 75"

definition ECONNABORTED :: int where "ECONNABORTED = 103"

definition SIGINT :: int where "SIGINT = 2"

definition SIGQUIT :: int where "SIGQUIT = 3"

definition SIGKILL :: int where "SIGKILL = 9"

definition SIGTERM :: int where "SIGTERM = 15"

definition SIGCHLD :: int where "SIGCHLD = 17"

definition SIGSTOP :: int where "SIGSTOP = 19"

lemmas errno_defs = EINTR_def ECHILD_def EAGAIN_def EINVAL_def EOVERFLOW_def ECONNABORTED_def
lemmas signal_defs = SIGINT_def SIGQUIT_def SIGKILL_def SIGTERM_def SIGCHLD_def SIGSTOP_def

section \<open>Runs and simulation\<close>

text \<open>A sequence of operations: each one's result, until one does not return.\<close>

fun run_prog :: "('op \<Rightarrow> ('s, 'r) prog) \<Rightarrow> 'op list \<Rightarrow> ('s, 'r list) prog" where
  "run_prog step [] = ret []"
| "run_prog step (x # xs) = bind (step x) (\<lambda>r. bind (run_prog step xs) (\<lambda>rs. ret (r # rs)))"

fun run_spec :: "('op \<Rightarrow> 'a \<Rightarrow> 'r \<times> 'a) \<Rightarrow> 'op list \<Rightarrow> 'a \<Rightarrow> 'r list \<times> 'a" where
  "run_spec step [] a = ([], a)"
| "run_spec step (x # xs) a =
     (let (r, a1) = step x a; (rs, a2) = run_spec step xs a1 in (r # rs, a2))"

lemma run_spec_ConsE:
  assumes "run_spec step (x # xs) a = (rs, a')"
  obtains r a1 rs1 where "step x a = (r, a1)" "run_spec step xs a1 = (rs1, a')" "rs = r # rs1"
  using assms by (auto simp: Let_def split: prod.splits)

text \<open>A functional simulation: in every state that satisfies the invariant, an
  operation whose precondition holds returns what the specification says, and leads to a
  state with the specified abstraction. Whole runs then agree.\<close>

locale simulation =
  fixes inv :: "'s \<Rightarrow> bool"
    and abs :: "'s \<Rightarrow> 'a"
    and cstep :: "'op \<Rightarrow> ('s, 'r) prog"
    and astep :: "'op \<Rightarrow> 'a \<Rightarrow> 'r \<times> 'a"
    and ok :: "'op \<Rightarrow> 's \<Rightarrow> bool"
  assumes simulates: "inv s \<Longrightarrow> ok x s \<Longrightarrow>
      \<exists>r s'. cstep x s = (Ret r, s') \<and> inv s' \<and> astep x (abs s) = (r, abs s')
        \<and> (\<forall>y. ok y s \<longrightarrow> ok y s')"
begin

lemma simulates_run:
  assumes "inv s" and "\<forall>x \<in> set xs. ok x s"
  shows "\<exists>rs s'. run_prog cstep xs s = (Ret rs, s') \<and> inv s'
           \<and> run_spec astep xs (abs s) = (rs, abs s')"
  using assms
proof (induction xs arbitrary: s)
  case Nil
  then show ?case by (simp add: ret_def)
next
  case (Cons x xs)
  then obtain r s1 where 1: "cstep x s = (Ret r, s1)" "inv s1"
      "astep x (abs s) = (r, abs s1)" "\<forall>y. ok y s \<longrightarrow> ok y s1"
    using simulates [of s x] by auto
  with Cons obtain rs s2 where "run_prog cstep xs s1 = (Ret rs, s2)" "inv s2"
      "run_spec astep xs (abs s1) = (rs, abs s2)"
    by (meson list.set_intros(2))
  with 1 show ?case by (simp add: bind_def ret_def)
qed

end

section \<open>Bytes and byte-addressed memory\<close>

type_synonym byte = "8 word"
type_synonym int64 = "64 word"
type_synonym size_t = "64 word"

text \<open>A memory maps an offset to a byte. A 64-bit cell is eight bytes, least
  significant first.\<close>

type_synonym memory = "nat \<Rightarrow> byte"

fun le_bytes :: "nat \<Rightarrow> nat \<Rightarrow> byte list" where
  "le_bytes 0 n = []"
| "le_bytes (Suc k) n = of_nat (n mod 256) # le_bytes k (n div 256)"

fun le_value :: "byte list \<Rightarrow> nat" where
  "le_value [] = 0"
| "le_value (b # bs) = unat b + 256 * le_value bs"

definition load64 :: "memory \<Rightarrow> nat \<Rightarrow> int64" where
  "load64 m a = of_nat (le_value (map m [a..<a + 8]))"

definition store64 :: "memory \<Rightarrow> nat \<Rightarrow> int64 \<Rightarrow> memory" where
  "store64 m a v = (\<lambda>x. if a \<le> x \<and> x < a + 8 then le_bytes 8 (unat v) ! (x - a) else m x)"

lemma length_le_bytes [simp]: "length (le_bytes k n) = k"
  by (induction k n rule: le_bytes.induct) auto

lemma le_value_le_bytes: "n < 256 ^ k \<Longrightarrow> le_value (le_bytes k n) = n"
proof (induction k n rule: le_bytes.induct)
  case (1 n)
  then show ?case by simp
next
  case (2 k n)
  then have "n div 256 < 256 ^ k" by (simp add: less_mult_imp_div_less)
  moreover have "unat (of_nat (n mod 256) :: byte) = n mod 256"
    by (simp add: unat_of_nat)
  ultimately show ?case using "2.IH" by simp
qed

lemma load64_store64_same [simp, mem_simps]: "load64 (store64 m a v) a = v"
proof -
  have "map (store64 m a v) [a..<a + 8] = le_bytes 8 (unat v)"
    by (rule nth_equalityI) (simp_all add: store64_def)
  moreover have "unat v < 256 ^ 8"
    using unsigned_less [of v] by simp
  ultimately show ?thesis
    by (simp add: load64_def le_value_le_bytes)
qed

lemma load64_cong: "(\<And>x. a \<le> x \<Longrightarrow> x < a + 8 \<Longrightarrow> m x = m' x) \<Longrightarrow> load64 m a = load64 m' a"
  unfolding load64_def by (rule arg_cong [where f = of_nat], rule arg_cong [where f = le_value]) auto

lemma store64_outside [mem_simps]: "x < a \<or> a + 8 \<le> x \<Longrightarrow> store64 m a v x = m x"
  by (auto simp: store64_def)

lemma load64_store64_disjoint [mem_simps]:
  "a + 8 \<le> b \<or> b + 8 \<le> a \<Longrightarrow> load64 (store64 m a v) b = load64 m b"
  by (rule load64_cong) (auto simp: store64_def)

lemma load64_upd_outside [mem_simps]:
  "x < a \<or> a + 8 \<le> x \<Longrightarrow> load64 (m(x := v)) a = load64 m a"
  by (rule load64_cong) auto

lemma load64_zero [simp]: "load64 (\<lambda>_. 0) a = 0"
  by (simp add: load64_def upt_rec)

section \<open>Memory cells as an interface\<close>

text \<open>
  What the users of shared memory rely on: a cell returns what was last stored in it, and a
  store leaves every separate cell alone. The locale is interpreted below for the two widths
  the program uses, single bytes and 64-bit integers.
\<close>

locale memory_cells =
  fixes rd :: "'m \<Rightarrow> 'a \<Rightarrow> 'v"
    and wr :: "'m \<Rightarrow> 'a \<Rightarrow> 'v \<Rightarrow> 'm"
    and sep :: "'a \<Rightarrow> 'a \<Rightarrow> bool"
  assumes rd_wr_same: "rd (wr m a v) a = v"
    and rd_wr_sep: "sep a b \<Longrightarrow> rd (wr m a v) b = rd m b"
begin

definition wr_all :: "('a \<times> 'v) list \<Rightarrow> 'm \<Rightarrow> 'm" where
  "wr_all ws m = fold (\<lambda>(a, v) m. wr m a v) ws m"

lemma wr_all_sep: "\<forall>(a, v) \<in> set ws. sep a b \<Longrightarrow> rd (wr_all ws m) b = rd m b"
  by (induction ws arbitrary: m) (auto simp: wr_all_def rd_wr_sep)

definition rmw :: "('v \<Rightarrow> 'v) \<Rightarrow> 'a \<Rightarrow> 'm \<Rightarrow> 'm" where
  "rmw f a m = wr m a (f (rd m a))"

lemma rmw_same [simp]: "rd (rmw f a m) a = f (rd m a)"
  by (simp add: rmw_def rd_wr_same)

lemma rmw_sep: "sep a b \<Longrightarrow> rd (rmw f a m) b = rd m b"
  by (simp add: rmw_def rd_wr_sep)

text \<open>An interleaving of read-modify-write steps on pairwise separate cells: each cell
  ends with its own updates applied in order.\<close>

definition rmw_all :: "('a \<times> ('v \<Rightarrow> 'v)) list \<Rightarrow> 'm \<Rightarrow> 'm" where
  "rmw_all us m = fold (\<lambda>(a, f) m. rmw f a m) us m"

lemma rmw_all_own:
  assumes "\<forall>(a, f) \<in> set us. a = b \<or> sep a b"
  shows "rd (rmw_all us m) b = fold (\<lambda>(a, f) v. if a = b then f v else v) us (rd m b)"
  using assms
proof (induction us arbitrary: m)
  case Nil
  then show ?case by (simp add: rmw_all_def)
next
  case (Cons u us)
  obtain a f where u: "u = (a, f)" by (cases u)
  have "rd (rmw f a m) b = (if a = b then f (rd m b) else rd m b)"
    using Cons.prems u rmw_sep by auto
  with Cons u show ?case by (simp add: rmw_all_def)
qed

end

definition sep64 :: "nat \<Rightarrow> nat \<Rightarrow> bool" where
  "sep64 a b \<longleftrightarrow> a + 8 \<le> b \<or> b + 8 \<le> a"

interpretation cells64: memory_cells load64 store64 sep64
  by unfold_locales (auto simp: sep64_def mem_simps)

interpretation cells8: memory_cells "\<lambda>m a. m a" "\<lambda>m a v. (m :: memory)(a := v)" "(\<noteq>)"
  by unfold_locales auto

section \<open>Decimal text\<close>

text \<open>\<open>string_of_nat\<close> and \<open>string_of_int\<close> print as \<^verbatim>\<open>%d\<close>,
  \<^verbatim>\<open>%ld\<close> and \<^verbatim>\<open>oss << value\<close> do.\<close>

definition digit_char :: "nat \<Rightarrow> char" where
  "digit_char d = char_of (48 + d)"

definition is_digit :: "char \<Rightarrow> bool" where
  "is_digit c \<longleftrightarrow> 48 \<le> (of_char c :: nat) \<and> (of_char c :: nat) \<le> 57"

definition digit_val :: "char \<Rightarrow> nat" where
  "digit_val c = of_char c - 48"

fun string_of_nat :: "nat \<Rightarrow> string" where
  "string_of_nat n =
     (if n < 10 then [digit_char n] else string_of_nat (n div 10) @ [digit_char (n mod 10)])"

declare string_of_nat.simps [simp del]

definition string_of_int :: "int \<Rightarrow> string" where
  "string_of_int i = (if i < 0 then CHR ''-'' # string_of_nat (nat (- i)) else string_of_nat (nat i))"

definition nat_of_digits :: "string \<Rightarrow> nat" where
  "nat_of_digits s = foldl (\<lambda>n c. 10 * n + digit_val c) 0 s"

lemma digit_char_props:
  assumes "d < 10"
  shows "is_digit (digit_char d)" "digit_val (digit_char d) = d"
proof -
  have "(of_char (char_of (48 + d) :: char) :: nat) = 48 + d"
    using assms by simp
  then show "is_digit (digit_char d)" "digit_val (digit_char d) = d"
    using assms by (simp_all add: is_digit_def digit_char_def digit_val_def)
qed

lemma nat_of_digits_snoc [simp]: "nat_of_digits (s @ [c]) = 10 * nat_of_digits s + digit_val c"
  by (simp add: nat_of_digits_def)

lemma string_of_nat_digits: "list_all is_digit (string_of_nat n)"
proof (induction n rule: string_of_nat.induct)
  case (1 n)
  show ?case
  proof (cases "n < 10")
    case True
    then show ?thesis by (subst string_of_nat.simps) (simp add: digit_char_props)
  next
    case False
    with 1 show ?thesis by (subst string_of_nat.simps) (simp add: digit_char_props)
  qed
qed

lemma string_of_nat_nonempty [simp]: "string_of_nat n \<noteq> []"
  by (subst string_of_nat.simps) simp

lemma nat_of_digits_string_of_nat [simp]: "nat_of_digits (string_of_nat n) = n"
proof (induction n rule: string_of_nat.induct)
  case (1 n)
  show ?case
  proof (cases "n < 10")
    case True
    then show ?thesis
      by (subst string_of_nat.simps) (simp add: digit_char_props nat_of_digits_def)
  next
    case False
    with 1 show ?thesis by (subst string_of_nat.simps) (simp add: digit_char_props)
  qed
qed

lemma string_of_nat_inj: "string_of_nat m = string_of_nat n \<Longrightarrow> m = n"
  by (metis nat_of_digits_string_of_nat)

section \<open>Lists and maps\<close>

lemma sorted_wrt_members:
  "sorted_wrt P xs \<Longrightarrow> x \<in> set xs \<Longrightarrow> y \<in> set xs \<Longrightarrow> x \<noteq> y \<Longrightarrow> P x y \<or> P y x"
  by (induction xs) auto

lemma map_of_map_upd:
  assumes "distinct (map f xs)" and "a \<in> set xs" and "g' a = v"
    and "\<forall>x \<in> set xs. x \<noteq> a \<longrightarrow> g' x = g x"
  shows "map_of (map (\<lambda>x. (f x, g' x)) xs) = (map_of (map (\<lambda>x. (f x, g x)) xs))(f a \<mapsto> v)"
proof (rule ext)
  fix k
  have keys: "map_of (map (\<lambda>x. (f x, h x)) xs) k =
      (if \<exists>x \<in> set xs. f x = k then Some (h (SOME x. x \<in> set xs \<and> f x = k)) else None)" for h
  proof (cases "\<exists>x \<in> set xs. f x = k")
    case True
    then obtain x where x: "x \<in> set xs" "f x = k" by blast
    have "(SOME x. x \<in> set xs \<and> f x = k) = x"
      using assms(1) x by (intro some_equality) (auto simp: distinct_map inj_on_def)
    moreover have "map_of (map (\<lambda>x. (f x, h x)) xs) k = Some (h x)"
      using assms(1) x by (intro map_of_is_SomeI) (auto simp: comp_def)
    ultimately show ?thesis using True by simp
  next
    case False
    then show ?thesis by (auto simp: map_of_eq_None_iff)
  qed
  show "map_of (map (\<lambda>x. (f x, g' x)) xs) k =
      ((map_of (map (\<lambda>x. (f x, g x)) xs))(f a \<mapsto> v)) k"
  proof (cases "k = f a")
    case True
    then have "map_of (map (\<lambda>x. (f x, g' x)) xs) k = Some (g' a)"
      using assms(1,2) by (intro map_of_is_SomeI) (auto simp: comp_def)
    with True assms(3) show ?thesis by simp
  next
    case False
    then have "\<forall>x \<in> set xs. f x = k \<longrightarrow> g' x = g x" using assms(4) by auto
    then have "\<exists>x \<in> set xs. f x = k \<Longrightarrow>
        g' (SOME x. x \<in> set xs \<and> f x = k) = g (SOME x. x \<in> set xs \<and> f x = k)"
      by (metis (mono_tags, lifting) someI_ex)
    with False keys [of g] keys [of g'] show ?thesis by auto
  qed
qed

section \<open>C buffers\<close>

text \<open>\<open>vsnprintf_buf n s\<close> is the C string that \<^verbatim>\<open>snprintf\<close> or
  \<^verbatim>\<open>vsnprintf\<close> leaves in a buffer of \<open>n\<close> bytes when the formatted text
  is \<open>s\<close>: at most \<open>n - 1\<close> characters and a NUL.\<close>

definition vsnprintf_buf :: "nat \<Rightarrow> string \<Rightarrow> string" where
  "vsnprintf_buf n s = take (n - 1) s"

text \<open>A C string ends before the first NUL.\<close>

definition c_str :: "string \<Rightarrow> string" where
  "c_str s = takeWhile (\<lambda>c. c \<noteq> CHR 0x00) s"

lemma c_str_no_nul: "CHR 0x00 \<notin> set s \<Longrightarrow> c_str (s @ CHR 0x00 # t) = s"
  by (induction s) (auto simp: c_str_def)

lemma length_vsnprintf_buf: "0 < n \<Longrightarrow> length (vsnprintf_buf n s) < n"
  by (simp add: vsnprintf_buf_def)

end
