(* ===== verification/Bpsgi_Exceptions.thy ===== *)
theory Bpsgi_Exceptions
  imports Bpsgi_Prelude
begin

text \<open>
  The exception classes: \<^verbatim>\<open>src/exceptions.cpp\<close> and the class
  \<^verbatim>\<open>PerlInterpreterException\<close> of \<^verbatim>\<open>src/perl_interpreter.cpp\<close>.
  A formatted message is given as the text the format and its arguments stand for; the
  constructors cut it to their 4096-byte buffers. The theorems say which texts a handler gets
  to see: a syscall exception always has exactly one of errno and text, and a Perl exception
  never ends in a newline.
\<close>

definition exception_bufsize :: nat where
  "exception_bufsize = 4096"

definition SyscallException_errno :: "string \<Rightarrow> int \<Rightarrow> SyscallException" where
  "SyscallException_errno syscall e =
     \<lparr>syscall_name = syscall, s_errno = e, strerror_text = None\<rparr>"

definition SyscallException_fmt :: "string \<Rightarrow> string \<Rightarrow> SyscallException" where
  "SyscallException_fmt syscall text =
     \<lparr>syscall_name = syscall, s_errno = -1,
      strerror_text = Some (vsnprintf_buf exception_bufsize text)\<rparr>"

text \<open>\<^verbatim>\<open>::strerror\<close> is the C library's table, the argument
  \<open>libc_strerror\<close>.\<close>

definition SyscallException_strerror ::
  "(int \<Rightarrow> string) \<Rightarrow> SyscallException \<Rightarrow> ('s, string) prog" where
  "SyscallException_strerror libc_strerror ex =
     andThen (Assert ((strerror_text ex \<noteq> None) \<noteq> (s_errno ex \<noteq> -1)))
       (case strerror_text ex of
          Some t \<Rightarrow> ret t
        | None \<Rightarrow> ret (libc_strerror (s_errno ex)))"

definition RuntimeException_fmt :: "string \<Rightarrow> exn" where
  "RuntimeException_fmt text = RuntimeExn (vsnprintf_buf exception_bufsize text)"

abbreviation throw_errno :: "string \<Rightarrow> int \<Rightarrow> ('s, 'a) prog" where
  "throw_errno syscall e \<equiv> throw (SyscallExn (SyscallException_errno syscall e))"

abbreviation throw_fmt :: "string \<Rightarrow> string \<Rightarrow> ('s, 'a) prog" where
  "throw_fmt syscall text \<equiv> throw (SyscallExn (SyscallException_fmt syscall text))"

section \<open>Trailing newlines of Perl errors\<close>

text \<open>
  The loop of the constructor walks back from the last character and overwrites carriage
  returns and newlines with NUL. \<open>p\<close> is the index of the source's pointer relative to
  the buffer, \<open>-1\<close> when it has moved below it.
\<close>

function trim_loop :: "string \<Rightarrow> int \<Rightarrow> string" where
  "trim_loop buf p =
     (if 0 \<le> p \<and> (buf ! nat p = CHR 0x0D \<or> buf ! nat p = CHR 0x0A)
      then trim_loop (buf[nat p := CHR 0x00]) (p - 1)
      else buf)"
  by pat_completeness auto
termination
  by (relation "measure (\<lambda>(buf, p). nat (p + 1))") auto

declare trim_loop.simps [simp del]

definition PerlInterpreterException_text :: "string \<Rightarrow> string" where
  "PerlInterpreterException_text text =
     (let buf = vsnprintf_buf exception_bufsize text
      in c_str (trim_loop (buf @ [CHR 0x00]) (int (length buf) - 1)))"

definition PerlInterpreterException_fmt :: "string \<Rightarrow> exn" where
  "PerlInterpreterException_fmt text = PerlInterpreterExn (PerlInterpreterException_text text)"

text \<open>The reference definition: everything up to the last character that is neither a
  carriage return nor a newline.\<close>

definition is_eol :: "char \<Rightarrow> bool" where
  "is_eol c \<longleftrightarrow> c = CHR 0x0D \<or> c = CHR 0x0A"

definition chomp :: "string \<Rightarrow> string" where
  "chomp s = rev (dropWhile is_eol (rev s))"

lemma trim_loop_chomp:
  assumes "CHR 0x00 \<notin> set s"
  shows "c_str (trim_loop (s @ CHR 0x00 # t) (int (length s) - 1)) = chomp s"
  using assms
proof (induction s arbitrary: t rule: rev_induct)
  case Nil
  then show ?case by (simp add: trim_loop.simps [of _ "-1"] c_str_def chomp_def)
next
  case (snoc c s)
  have nth: "((s @ [c]) @ CHR 0x00 # t) ! nat (int (length (s @ [c])) - 1) = c"
    by (simp add: nth_append)
  show ?case
  proof (cases "is_eol c")
    case True
    have "trim_loop ((s @ [c]) @ CHR 0x00 # t) (int (length (s @ [c])) - 1)
        = trim_loop (s @ CHR 0x00 # CHR 0x00 # t) (int (length s) - 1)"
      using True nth by (subst trim_loop.simps) (simp add: is_eol_def list_update_append)
    with snoc True show ?thesis by (simp add: chomp_def)
  next
    case False
    have "trim_loop ((s @ [c]) @ CHR 0x00 # t) (int (length (s @ [c])) - 1)
        = (s @ [c]) @ CHR 0x00 # t"
      using False nth by (subst trim_loop.simps) (simp add: is_eol_def)
    with snoc.prems False c_str_no_nul [of "s @ [c]" t] show ?thesis by (simp add: chomp_def)
  qed
qed

lemma chomp_ends: "chomp s = [] \<or> \<not> is_eol (last (chomp s))"
proof (cases "dropWhile is_eol (rev s)")
  case (Cons a l)
  then have "\<not> is_eol a" by (auto simp: dropWhile_eq_Cons_conv)
  with Cons show ?thesis by (simp add: chomp_def)
qed (simp add: chomp_def)

lemma chomp_prefix: "\<exists>eols. s = chomp s @ eols \<and> list_all is_eol eols"
proof -
  have "s = rev (dropWhile is_eol (rev s)) @ rev (takeWhile is_eol (rev s))"
    by (metis rev_append rev_rev_ident takeWhile_dropWhile_id)
  moreover have "list_all is_eol (rev (takeWhile is_eol (rev s)))"
    by (auto simp: list_all_iff dest: set_takeWhileD)
  ultimately show ?thesis unfolding chomp_def by blast
qed

lemma take_no_nul: "CHR 0x00 \<notin> set s \<Longrightarrow> CHR 0x00 \<notin> set (vsnprintf_buf n s)"
  by (auto simp: vsnprintf_buf_def dest: in_set_takeD)

text \<open>C40. For every Perl error text (a C string) the backward, in-place loop of the
  constructor of PerlInterpreterException computes the text, cut to 4095 characters, without
  its trailing carriage returns and newlines, and the result does not end in one.\<close>

theorem PerlInterpreterException_text_chomp:
  assumes "CHR 0x00 \<notin> set text"
  shows "PerlInterpreterException_text text = chomp (take 4095 text) \<and>
    (PerlInterpreterException_text text = []
      \<or> \<not> is_eol (last (PerlInterpreterException_text text)))"
proof -
  have "CHR 0x00 \<notin> set (vsnprintf_buf exception_bufsize text)"
    using assms by (rule take_no_nul)
  from trim_loop_chomp [OF this, of "[]"]
  have "PerlInterpreterException_text text = chomp (take 4095 text)"
    by (simp add: PerlInterpreterException_text_def Let_def vsnprintf_buf_def exception_bufsize_def)
  with chomp_ends [of "take 4095 text"] show ?thesis by simp
qed

theorem PerlInterpreterException_text_chomp_witness:
  "PerlInterpreterException_text [CHR ''x'', CHR 0x0D, CHR 0x0A, CHR 0x0A] = ''x''"
proof -
  have "CHR 0x00 \<notin> set [CHR ''x'', CHR 0x0D, CHR 0x0A, CHR 0x0A]" by simp
  from PerlInterpreterException_text_chomp [OF this] show ?thesis
    by (simp add: chomp_def is_eol_def)
qed

end
