(* ===== verification/Bpsgi_Shmem.thy ===== *)
theory Bpsgi_Shmem
  imports Bpsgi_Exceptions
begin

text \<open>
  The shared memory segment: \<^verbatim>\<open>src/shmem.cpp\<close> and the classes
  \<^verbatim>\<open>BPSGISemaphore\<close>, \<^verbatim>\<open>BPSGIAtomicInt64\<close> and
  \<^verbatim>\<open>BPSGISharedMemory\<close> of \<^verbatim>\<open>src/bladepsgi.hpp\<close>.

  A pointer into the segment is its offset. The segment's bytes are a function of the
  offset, and an access at or past \<open>shmem_size\<close> ends the process. The contents of a
  \<^verbatim>\<open>sem_t\<close> belong to the C library: the segment reserves
  \<open>sizeof_sem_t\<close> bytes for one, an argument of the allocating operation, and
  \<open>sem_vals\<close> holds the count the library keeps there.
\<close>

section \<open>Layout\<close>

definition SHMEM_ALIGNOF :: size_t where
  "SHMEM_ALIGNOF = 16"

definition SHMEMALIGN :: "size_t \<Rightarrow> size_t" where
  "SHMEMALIGN off =
     (if off mod SHMEM_ALIGNOF = 0 then off
      else off + (SHMEM_ALIGNOF - off mod SHMEM_ALIGNOF))"

definition sizeof_int64 :: nat where
  "sizeof_int64 = 8"

definition SHMEM_SHOULD_EXIT_IMMEDIATELY_OFF :: nat where
  "SHMEM_SHOULD_EXIT_IMMEDIATELY_OFF = 0"

definition SHMEM_REQUEST_COUNTER_OFF :: nat where
  "SHMEM_REQUEST_COUNTER_OFF = SHMEM_SHOULD_EXIT_IMMEDIATELY_OFF + sizeof_int64"

definition SHMEM_FIRST_USER_AVAILABLE_OFFSET :: size_t where
  "SHMEM_FIRST_USER_AVAILABLE_OFFSET =
     SHMEMALIGN (of_nat (SHMEM_REQUEST_COUNTER_OFF + sizeof_int64))"

definition SHMEM_WORKER_STATUS_ARRAY_OFF :: nat where
  "SHMEM_WORKER_STATUS_ARRAY_OFF = 2048"

lemmas layout_defs = SHMEM_ALIGNOF_def sizeof_int64_def SHMEM_SHOULD_EXIT_IMMEDIATELY_OFF_def
  SHMEM_REQUEST_COUNTER_OFF_def SHMEM_WORKER_STATUS_ARRAY_OFF_def

section \<open>State\<close>

record BPSGISemaphore =
  sem_ptr :: nat
  sem_name :: string

record BPSGIAtomicInt64 =
  atm_ptr :: nat
  atm_name :: string

record shm =
  segment :: memory
  sem_vals :: "nat \<Rightarrow> nat option"
  shmem_size :: nat
  locked :: bool
  next_user_available_offset :: size_t
  semaphores :: "BPSGISemaphore list"
  atomics :: "BPSGIAtomicInt64 list"

text \<open>The constructor clears the segment.\<close>

definition BPSGISharedMemory_new :: "nat \<Rightarrow> shm" where
  "BPSGISharedMemory_new sz =
     \<lparr>segment = (\<lambda>_. 0), sem_vals = (\<lambda>_. None), shmem_size = sz, locked = False,
      next_user_available_offset = SHMEM_FIRST_USER_AVAILABLE_OFFSET,
      semaphores = [], atomics = []\<rparr>"

section \<open>Atomic accesses\<close>

definition load_int8 :: "nat \<Rightarrow> (shm, byte) prog" where
  "load_int8 a s =
     (if a < shmem_size s then (Ret (segment s a), s) else (Halt Segfault, s))"

definition exchange_int8 :: "nat \<Rightarrow> byte \<Rightarrow> (shm, byte) prog" where
  "exchange_int8 a v s =
     (if a < shmem_size s
      then (Ret (segment s a), s\<lparr>segment := (segment s)(a := v)\<rparr>)
      else (Halt Segfault, s))"

definition store_int8 :: "nat \<Rightarrow> byte \<Rightarrow> (shm, unit) prog" where
  "store_int8 a v s =
     (if a < shmem_size s
      then (Ret (), s\<lparr>segment := (segment s)(a := v)\<rparr>)
      else (Halt Segfault, s))"

definition load_int64 :: "nat \<Rightarrow> (shm, int64) prog" where
  "load_int64 a s =
     (if a + 8 \<le> shmem_size s then (Ret (load64 (segment s) a), s) else (Halt Segfault, s))"

definition store_int64 :: "nat \<Rightarrow> int64 \<Rightarrow> (shm, unit) prog" where
  "store_int64 a v s =
     (if a + 8 \<le> shmem_size s
      then (Ret (), s\<lparr>segment := store64 (segment s) a v\<rparr>)
      else (Halt Segfault, s))"

definition fetch_add_int64 :: "nat \<Rightarrow> int64 \<Rightarrow> (shm, int64) prog" where
  "fetch_add_int64 a v s =
     (if a + 8 \<le> shmem_size s
      then (Ret (load64 (segment s) a),
            s\<lparr>segment := store64 (segment s) a (load64 (segment s) a + v)\<rparr>)
      else (Halt Segfault, s))"

definition memset_zero :: "nat \<Rightarrow> nat \<Rightarrow> (shm, unit) prog" where
  "memset_zero a n s =
     (if a + n \<le> shmem_size s
      then (Ret (), s\<lparr>segment := (\<lambda>x. if a \<le> x \<and> x < a + n then 0 else segment s x)\<rparr>)
      else (Halt Segfault, s))"

lemmas access_defs = memset_zero_def load_int8_def exchange_int8_def store_int8_def load_int64_def
  store_int64_def fetch_add_int64_def

section \<open>BPSGISemaphore\<close>

text \<open>
  The C library's calls on the semaphore at \<open>ptr\<close>: a return value and an errno.
  A call that a signal handler interrupts (\<open>intr\<close>) fails with
  \<^verbatim>\<open>EINTR\<close> and changes nothing; \<^verbatim>\<open>sem_wait\<close> on a zero
  count does not return.
\<close>

definition libc_sem_getvalue :: "nat \<Rightarrow> (shm, int \<times> int \<times> nat) prog" where
  "libc_sem_getvalue ptr s = (case sem_vals s ptr of
      None \<Rightarrow> (Ret (-1, EINVAL, 0), s)
    | Some n \<Rightarrow> (Ret (0, 0, n), s))"

definition libc_sem_wait :: "bool \<Rightarrow> nat \<Rightarrow> (shm, int \<times> int) prog" where
  "libc_sem_wait intr ptr s =
     (if intr then (Ret (-1, EINTR), s)
      else case sem_vals s ptr of
        None \<Rightarrow> (Ret (-1, EINVAL), s)
      | Some n \<Rightarrow> (if n = 0 then (Pending, s)
          else (Ret (0, 0), s\<lparr>sem_vals := (sem_vals s)(ptr := Some (n - 1))\<rparr>)))"

definition libc_sem_trywait :: "bool \<Rightarrow> nat \<Rightarrow> (shm, int \<times> int) prog" where
  "libc_sem_trywait intr ptr s =
     (if intr then (Ret (-1, EINTR), s)
      else case sem_vals s ptr of
        None \<Rightarrow> (Ret (-1, EINVAL), s)
      | Some n \<Rightarrow> (if n = 0 then (Ret (-1, EAGAIN), s)
          else (Ret (0, 0), s\<lparr>sem_vals := (sem_vals s)(ptr := Some (n - 1))\<rparr>)))"

definition SEM_VALUE_MAX :: nat where
  "SEM_VALUE_MAX = 2147483647"

definition libc_sem_post :: "nat \<Rightarrow> (shm, int \<times> int) prog" where
  "libc_sem_post ptr s = (case sem_vals s ptr of
      None \<Rightarrow> (Ret (-1, EINVAL), s)
    | Some n \<Rightarrow> (if n = SEM_VALUE_MAX then (Ret (-1, EOVERFLOW), s)
        else (Ret (0, 0), s\<lparr>sem_vals := (sem_vals s)(ptr := Some (n + 1))\<rparr>)))"

lemmas libc_sem_defs = libc_sem_getvalue_def libc_sem_wait_def libc_sem_trywait_def
  libc_sem_post_def

definition BPSGISemaphore_Read :: "BPSGISemaphore \<Rightarrow> (shm, int64) prog" where
  "BPSGISemaphore_Read sem =
     bind (libc_sem_getvalue (sem_ptr sem)) (\<lambda>(r, e, sval).
     if r \<noteq> 0 then throw_errno ''sem_getvalue'' e else ret (of_nat sval))"

text \<open>The \<^verbatim>\<open>goto again\<close> loops. The list says, call by call, whether a
  signal handler interrupts the call; past its end no call is interrupted.\<close>

fun Acquire :: "bool list \<Rightarrow> BPSGISemaphore \<Rightarrow> (shm, unit) prog" where
  "Acquire (i # is) sem =
     bind (libc_sem_wait i (sem_ptr sem)) (\<lambda>(r, e).
     if r \<noteq> 0 then (if e = EINTR then Acquire is sem else throw_errno ''sem_wait'' e)
     else ret ())"
| "Acquire [] sem =
     bind (libc_sem_wait False (sem_ptr sem)) (\<lambda>(r, e).
     if r \<noteq> 0 then throw_errno ''sem_wait'' e else ret ())"

fun TryAcquire :: "bool list \<Rightarrow> BPSGISemaphore \<Rightarrow> (shm, bool) prog" where
  "TryAcquire (i # is) sem =
     bind (libc_sem_trywait i (sem_ptr sem)) (\<lambda>(r, e).
     if r \<noteq> 0 then
       (if e = EINTR then TryAcquire is sem
        else if e = EAGAIN then ret False
        else throw_errno ''sem_trywait'' e)
     else ret True)"
| "TryAcquire [] sem =
     bind (libc_sem_trywait False (sem_ptr sem)) (\<lambda>(r, e).
     if r \<noteq> 0 then
       (if e = EAGAIN then ret False else throw_errno ''sem_trywait'' e)
     else ret True)"

definition Release :: "BPSGISemaphore \<Rightarrow> (shm, unit) prog" where
  "Release sem =
     bind (libc_sem_post (sem_ptr sem)) (\<lambda>(r, e).
     if r \<noteq> 0 then throw_errno ''sem_post'' e else ret ())"

section \<open>BPSGIAtomicInt64\<close>

definition BPSGIAtomicInt64_new ::
  "nat \<Rightarrow> string \<Rightarrow> int64 \<Rightarrow> (shm, BPSGIAtomicInt64) prog" where
  "BPSGIAtomicInt64_new ptr name value =
     andThen (store_int64 ptr value) (ret \<lparr>atm_ptr = ptr, atm_name = name\<rparr>)"

definition BPSGIAtomicInt64_Read :: "BPSGIAtomicInt64 \<Rightarrow> (shm, int64) prog" where
  "BPSGIAtomicInt64_Read atm = load_int64 (atm_ptr atm)"

section \<open>BPSGISharedMemory\<close>

definition LockAllocations :: "(shm, unit) prog" where
  "LockAllocations s =
     (if locked s
      then (Throw (LogicError ''tried to lock a previously locked shared memory segment''), s)
      else (Ret (), s\<lparr>locked := True\<rparr>))"

definition AllocateUserShmem :: "size_t \<Rightarrow> (shm, nat) prog" where
  "AllocateUserShmem sz s =
     (if locked s
      then (Throw (StringExn
              ''could not allocate shared memory: shared memory has been locked''), s)
      else
        let mem = unat (next_user_available_offset s);
            next' = SHMEMALIGN (next_user_available_offset s + sz);
            s' = s\<lparr>next_user_available_offset := next'\<rparr>
        in if SHMEM_WORKER_STATUS_ARRAY_OFF \<le> unat next'
           then (Throw (StringExn
                   ''could not allocate shared memory: out of shared memory''), s')
           else (Ret mem, s'))"

text \<open>\<^verbatim>\<open>sem_init\<close>'s return value and errno are the argument
  \<open>sem_init_ret\<close>; on success the semaphore's count is the value given.\<close>

definition NewSemaphore ::
  "size_t \<Rightarrow> int \<times> int \<Rightarrow> string \<Rightarrow> int64 \<Rightarrow> (shm, BPSGISemaphore) prog" where
  "NewSemaphore sizeof_sem_t sem_init_ret name value =
     bind (gets semaphores) (\<lambda>sems.
     if name \<in> set (map sem_name sems)
     then throw (StringExn (''semaphore with name '' @ name @ '' already exists''))
     else if sint value \<le> 0 \<or> 2147483647 < sint value
     then throw (StringExn ''semaphore init value is outside of allowed range'')
     else
       bind (AllocateUserShmem sizeof_sem_t) (\<lambda>ptr.
       andThen (memset_zero ptr (unat sizeof_sem_t))
       (if fst sem_init_ret \<noteq> 0
        then throw_errno ''sem_init'' (snd sem_init_ret)
        else
          let sem = \<lparr>sem_ptr = ptr, sem_name = name\<rparr> in
          andThen (modify (\<lambda>s. s\<lparr>sem_vals := (sem_vals s)
                (ptr := Some (unat (ucast value :: 32 word))),
              semaphores := semaphores s @ [sem]\<rparr>))
            (ret sem))))"

definition NewAtomicInt64 :: "string \<Rightarrow> int64 \<Rightarrow> (shm, nat) prog" where
  "NewAtomicInt64 name value =
     bind (gets atomics) (\<lambda>atms.
     if name \<in> set (map atm_name atms)
     then throw (StringExn (''atomic integer with name '' @ name @ '' already exists''))
     else
       bind (AllocateUserShmem (of_nat sizeof_int64)) (\<lambda>ptr.
       bind (BPSGIAtomicInt64_new ptr name value) (\<lambda>atm.
       andThen (modify (\<lambda>s. s\<lparr>atomics := atomics s @ [atm]\<rparr>))
         (ret ptr))))"

definition WorkerArraySegment :: nat where
  "WorkerArraySegment = SHMEM_WORKER_STATUS_ARRAY_OFF"

definition GetWorkerStatus :: "nat \<Rightarrow> (shm, byte) prog" where
  "GetWorkerStatus workerno = load_int8 (WorkerArraySegment + workerno)"

text \<open>The loop of \<^verbatim>\<open>GetAllWorkerStatuses\<close>, with the moving pointer
  \<open>mem\<close> and \<open>n\<close> iterations left; the result is what it writes to
  \<^verbatim>\<open>out\<close>.\<close>

fun GetAllWorkerStatuses_loop :: "nat \<Rightarrow> nat \<Rightarrow> (shm, byte list) prog" where
  "GetAllWorkerStatuses_loop mem 0 = ret []"
| "GetAllWorkerStatuses_loop mem (Suc n) =
     bind (load_int8 mem) (\<lambda>c.
     bind (GetAllWorkerStatuses_loop (mem + 1) n) (\<lambda>cs. ret (c # cs)))"

definition GetAllWorkerStatuses :: "int \<Rightarrow> (shm, byte list) prog" where
  "GetAllWorkerStatuses nworkers = GetAllWorkerStatuses_loop WorkerArraySegment (nat nworkers)"

definition IncreaseRequestCounter :: "(shm, int64) prog" where
  "IncreaseRequestCounter = fetch_add_int64 SHMEM_REQUEST_COUNTER_OFF 1"

definition ReadRequestCounter :: "(shm, int64) prog" where
  "ReadRequestCounter = load_int64 SHMEM_REQUEST_COUNTER_OFF"

definition SetShouldExitImmediately :: "(shm, bool) prog" where
  "SetShouldExitImmediately =
     bind (exchange_int8 SHMEM_SHOULD_EXIT_IMMEDIATELY_OFF 1) (\<lambda>old. ret (old = 0))"

definition ShouldExitImmediately :: "(shm, bool) prog" where
  "ShouldExitImmediately =
     bind (load_int8 SHMEM_SHOULD_EXIT_IMMEDIATELY_OFF) (\<lambda>v. ret (v = 1))"

text \<open>\<^verbatim>\<open>BPSGIMainApplication::SetWorkerStatus\<close> (bladepsgi.cpp) stores
  into the worker's slot of the array.\<close>

definition SetWorkerStatus :: "nat \<Rightarrow> byte \<Rightarrow> (shm, unit) prog" where
  "SetWorkerStatus workerno status = store_int8 (WorkerArraySegment + workerno) status"

section \<open>Allocation\<close>

lemma SHMEM_FIRST_USER_AVAILABLE_OFFSET_eq [simp]: "SHMEM_FIRST_USER_AVAILABLE_OFFSET = 16"
  by (simp add: SHMEM_FIRST_USER_AVAILABLE_OFFSET_def SHMEMALIGN_def layout_defs)

text \<open>The alignment macro rounds up to a multiple of 16, unless it wraps around.\<close>

lemma round_up_aligned: "(n::nat) mod 16 = 0 \<Longrightarrow> (n + 15) div 16 * 16 = n"
  by (auto simp: mod_eq_0_iff_dvd elim!: dvdE)

lemma round_up_unaligned: "(n::nat) mod 16 \<noteq> 0 \<Longrightarrow> n + (16 - n mod 16) = (n + 15) div 16 * 16"
proof -
  assume nz: "n mod 16 \<noteq> 0"
  define q r where "q = n div 16" and "r = n mod 16"
  then have n: "n = 16 * q + r" and r: "0 < r" "r < 16" using nz by simp_all
  then have "(n + 15) div 16 = q + 1" by linarith
  moreover have "n mod 16 = r" by (simp add: r_def)
  ultimately show ?thesis using n r by simp
qed

lemma unat_SHMEMALIGN:
  assumes "unat off + 15 < 2 ^ 64"
  shows "unat (SHMEMALIGN off) = (unat off + 15) div 16 * 16"
proof -
  have m: "unat (off mod 16) = unat off mod 16"
    by (simp add: unat_mod)
  have r: "unat (16 - off mod 16) = 16 - unat off mod 16"
    using m by (subst unat_sub) (simp_all add: word_le_nat_alt)
  have align: "SHMEMALIGN off = (if off mod 16 = 0 then off else off + (16 - off mod 16))"
    by (simp only: SHMEMALIGN_def SHMEM_ALIGNOF_def)
  show ?thesis
  proof (cases "off mod 16 = 0")
    case True
    with m have "unat off mod 16 = 0" by simp
    from round_up_aligned [OF this] True align show ?thesis by (simp only: simp_thms if_True)
  next
    case False
    with m have nz: "unat off mod 16 \<noteq> 0" by (metis unat_eq_zero)
    with assms have lt: "unat off + (16 - unat off mod 16) < 2 ^ 64" by linarith
    have "unat (off + (16 - off mod 16)) = unat off + (16 - unat off mod 16)"
      using r lt by (simp add: unat_word_ariths)
    with round_up_unaligned [OF nz] False align show ?thesis by (simp only: simp_thms if_False)
  qed
qed

abbreviation nxt :: "shm \<Rightarrow> nat" where
  "nxt s \<equiv> unat (next_user_available_offset s)"

definition no_wrap :: "size_t \<Rightarrow> shm \<Rightarrow> bool" where
  "no_wrap sz s \<longleftrightarrow> nxt s + unat sz + 15 < 2 ^ 64"

definition round16 :: "nat \<Rightarrow> nat" where
  "round16 n = (n + 15) div 16 * 16"

lemma round16_props: "n \<le> round16 n" "round16 n < n + 16" "16 dvd round16 n"
  by (simp_all add: round16_def)

lemma nxt_alloc:
  assumes "no_wrap sz s"
  shows "unat (SHMEMALIGN (next_user_available_offset s + sz)) = round16 (nxt s + unat sz)"
proof -
  have "unat (next_user_available_offset s + sz) = nxt s + unat sz"
    using assms by (simp add: no_wrap_def unat_word_ariths)
  with assms unat_SHMEMALIGN [of "next_user_available_offset s + sz"] show ?thesis
    by (simp add: no_wrap_def round16_def)
qed

text \<open>All four things an allocation can do.\<close>

lemma AllocateUserShmem_cases:
  assumes "no_wrap sz s"
  shows "AllocateUserShmem sz s =
    (if locked s
     then (Throw (StringExn ''could not allocate shared memory: shared memory has been locked''), s)
     else let s' = s\<lparr>next_user_available_offset :=
                       SHMEMALIGN (next_user_available_offset s + sz)\<rparr>
          in if 2048 \<le> round16 (nxt s + unat sz)
             then (Throw (StringExn ''could not allocate shared memory: out of shared memory''), s')
             else (Ret (nxt s), s'))"
  using nxt_alloc [OF assms]
  by (simp add: AllocateUserShmem_def Let_def SHMEM_WORKER_STATUS_ARRAY_OFF_def)

section \<open>The invariant\<close>

definition disjoint_regions :: "nat \<times> nat \<Rightarrow> nat \<times> nat \<Rightarrow> bool" where
  "disjoint_regions r q \<longleftrightarrow> fst r + snd r \<le> fst q \<or> fst q + snd q \<le> fst r"

text \<open>The regions the program's objects occupy in the user part of the segment.\<close>

definition regions :: "nat \<Rightarrow> shm \<Rightarrow> (nat \<times> nat) list" where
  "regions ssz s = map (\<lambda>x. (sem_ptr x, ssz)) (semaphores s)
                 @ map (\<lambda>x. (atm_ptr x, sizeof_int64)) (atomics s)"

definition region_ok :: "nat \<Rightarrow> nat \<times> nat \<Rightarrow> bool" where
  "region_ok lim r \<longleftrightarrow>
     16 dvd fst r \<and> 16 \<le> fst r \<and> fst r + snd r \<le> lim \<and> fst r + snd r < 2048"

definition shm_wf :: "nat \<Rightarrow> shm \<Rightarrow> bool" where
  "shm_wf ssz s \<longleftrightarrow>
     shmem_size s = 4096
   \<and> 16 dvd nxt s \<and> 16 \<le> nxt s
   \<and> list_all (region_ok (nxt s)) (regions ssz s)
   \<and> sorted_wrt disjoint_regions (regions ssz s)
   \<and> distinct (map sem_name (semaphores s))
   \<and> distinct (map atm_name (atomics s))
   \<and> list_all (\<lambda>x. sem_vals s (sem_ptr x) \<noteq> None) (semaphores s)"

lemma shm_wf_new: "shm_wf ssz (BPSGISharedMemory_new 4096)"
  by (simp add: shm_wf_def BPSGISharedMemory_new_def regions_def)

lemma region_ok_mono: "region_ok l r \<Longrightarrow> l \<le> l' \<Longrightarrow> region_ok l' r"
  by (auto simp: region_ok_def)

lemma regions_upd [simp]:
  "regions ssz (s\<lparr>next_user_available_offset := n\<rparr>) = regions ssz s"
  "regions ssz (s\<lparr>segment := m\<rparr>) = regions ssz s"
  "regions ssz (s\<lparr>locked := b\<rparr>) = regions ssz s"
  "regions ssz (s\<lparr>sem_vals := v\<rparr>) = regions ssz s"
  by (simp_all add: regions_def)

lemma shm_wf_segment [simp]: "shm_wf ssz (s\<lparr>segment := m\<rparr>) = shm_wf ssz s"
  by (simp add: shm_wf_def)

lemma shm_wf_next:
  assumes "shm_wf ssz s" and "nxt s \<le> unat n" and "16 dvd unat n"
  shows "shm_wf ssz (s\<lparr>next_user_available_offset := n\<rparr>)"
  using assms by (auto simp: shm_wf_def list_all_iff intro: region_ok_mono)

lemma shm_wf_alloc:
  assumes "shm_wf ssz s" and "no_wrap sz s"
  shows "shm_wf ssz (snd (AllocateUserShmem sz s))"
  using assms shm_wf_next [OF assms(1)] round16_props [of "nxt s + unat sz"]
    nxt_alloc [OF assms(2)]
  by (auto simp: AllocateUserShmem_cases Let_def)

text \<open>A new object placed at the old end of the allocated part.\<close>

lemma new_region_disjoint:
  assumes "list_all (region_ok (nxt s)) rs"
  shows "sorted_wrt disjoint_regions (rs @ [(nxt s, n)])
     \<longleftrightarrow> sorted_wrt disjoint_regions rs"
  using assms by (auto simp: sorted_wrt_append list_all_iff region_ok_def disjoint_regions_def)

lemma disjoint_regions_sym: "disjoint_regions r q \<Longrightarrow> disjoint_regions q r"
  by (auto simp: disjoint_regions_def)

lemma sorted_wrt_insert_mid:
  assumes "sorted_wrt disjoint_regions (xs @ ys)" and "\<forall>r \<in> set (xs @ ys). disjoint_regions r q"
  shows "sorted_wrt disjoint_regions (xs @ q # ys)"
  using assms by (auto simp: sorted_wrt_append intro: disjoint_regions_sym)

text \<open>What the creating operations do, on every branch.\<close>

lemma NewAtomicInt64_cases:
  assumes wf: "shm_wf ssz s" and nw: "no_wrap 8 s"
  shows "NewAtomicInt64 name value s =
    (if name \<in> set (map atm_name (atomics s))
     then (Throw (StringExn (''atomic integer with name '' @ name @ '' already exists'')), s)
     else case AllocateUserShmem 8 s of
       (Ret ptr, s') \<Rightarrow>
          (Ret ptr, s'\<lparr>segment := store64 (segment s) ptr value,
                       atomics := atomics s @ [\<lparr>atm_ptr = ptr, atm_name = name\<rparr>]\<rparr>)
     | (Throw e, s') \<Rightarrow> (Throw e, s')
     | (Halt h, s') \<Rightarrow> (Halt h, s')
     | (Pending, s') \<Rightarrow> (Pending, s'))"
proof -
  have "shmem_size s = 4096" using wf by (simp add: shm_wf_def)
  moreover have "round16 (nxt s + 8) < 2048 \<Longrightarrow> nxt s + 8 \<le> 4096"
    using round16_props(1) [of "nxt s + 8"] by linarith
  ultimately show ?thesis
    using nw
    by (auto simp: NewAtomicInt64_def prog_defs BPSGIAtomicInt64_new_def store_int64_def
        AllocateUserShmem_cases [OF nw] sizeof_int64_def Let_def)
qed

lemma NewSemaphore_cases:
  assumes wf: "shm_wf ssz s" and nw: "no_wrap sz s"
  shows "NewSemaphore sz r name value s =
    (if name \<in> set (map sem_name (semaphores s))
     then (Throw (StringExn (''semaphore with name '' @ name @ '' already exists'')), s)
     else if sint value \<le> 0 \<or> 2147483647 < sint value
     then (Throw (StringExn ''semaphore init value is outside of allowed range''), s)
     else case AllocateUserShmem sz s of
       (Ret ptr, s') \<Rightarrow>
         (let s1 = s'\<lparr>segment := (\<lambda>x. if ptr \<le> x \<and> x < ptr + unat sz then 0 else segment s x)\<rparr>
          in if fst r \<noteq> 0
             then (Throw (SyscallExn (SyscallException_errno ''sem_init'' (snd r))), s1)
             else (Ret \<lparr>sem_ptr = ptr, sem_name = name\<rparr>,
                   s1\<lparr>sem_vals := (sem_vals s)(ptr := Some (unat (ucast value :: 32 word))),
                      semaphores := semaphores s @ [\<lparr>sem_ptr = ptr, sem_name = name\<rparr>]\<rparr>))
     | (Throw e, s') \<Rightarrow> (Throw e, s')
     | (Halt h, s') \<Rightarrow> (Halt h, s')
     | (Pending, s') \<Rightarrow> (Pending, s'))"
proof -
  have "shmem_size s = 4096" using wf by (simp add: shm_wf_def)
  moreover have "round16 (nxt s + unat sz) < 2048 \<Longrightarrow> nxt s + unat sz \<le> 4096"
    using round16_props(1) [of "nxt s + unat sz"] by linarith
  ultimately show ?thesis
    by (auto simp: NewSemaphore_def prog_defs memset_zero_def
        AllocateUserShmem_cases [OF nw] Let_def cong: if_cong)
qed

lemma shm_wf_add_atomic:
  assumes wf: "shm_wf ssz s" and fresh: "name \<notin> set (map atm_name (atomics s))"
    and n: "nxt s + 8 \<le> unat n" "16 dvd unat n" "unat n < 2048"
  shows "shm_wf ssz (s\<lparr>next_user_available_offset := n, segment := m,
                       atomics := atomics s @ [\<lparr>atm_ptr = nxt s, atm_name = name\<rparr>]\<rparr>)"
proof -
  have reg: "regions ssz (s\<lparr>next_user_available_offset := n, segment := m,
      atomics := atomics s @ [\<lparr>atm_ptr = nxt s, atm_name = name\<rparr>]\<rparr>)
    = regions ssz s @ [(nxt s, 8)]"
    by (simp add: regions_def sizeof_int64_def)
  have old: "list_all (region_ok (nxt s)) (regions ssz s)"
    using wf by (simp add: shm_wf_def)
  then have "list_all (region_ok (unat n)) (regions ssz s)"
    using n by (auto simp: list_all_iff intro: region_ok_mono)
  moreover have "region_ok (unat n) (nxt s, 8)"
    using wf n by (simp add: region_ok_def shm_wf_def)
  ultimately show ?thesis
    using wf fresh n new_region_disjoint [OF old, of 8]
    unfolding shm_wf_def reg by simp
qed

lemma shm_wf_add_semaphore:
  assumes wf: "shm_wf ssz s" and fresh: "name \<notin> set (map sem_name (semaphores s))"
    and n: "nxt s + ssz \<le> unat n" "16 dvd unat n" "unat n < 2048"
  shows "shm_wf ssz (s\<lparr>next_user_available_offset := n, segment := m,
                       sem_vals := (sem_vals s)(nxt s := Some v),
                       semaphores := semaphores s @ [\<lparr>sem_ptr = nxt s, sem_name = name\<rparr>]\<rparr>)"
    (is "shm_wf ssz ?t")
proof -
  let ?xs = "map (\<lambda>x. (sem_ptr x, ssz)) (semaphores s)"
  let ?ys = "map (\<lambda>x. (atm_ptr x, sizeof_int64)) (atomics s)"
  have reg: "regions ssz ?t = ?xs @ (nxt s, ssz) # ?ys" and old_reg: "regions ssz s = ?xs @ ?ys"
    by (simp_all add: regions_def)
  have old: "list_all (region_ok (nxt s)) (?xs @ ?ys)"
    using wf unfolding shm_wf_def old_reg by blast
  then have "list_all (region_ok (unat n)) (?xs @ ?ys)"
    unfolding list_all_iff using n by (meson le_add1 le_trans region_ok_mono)
  moreover have "region_ok (unat n) (nxt s, ssz)"
    using wf n by (simp add: region_ok_def shm_wf_def)
  ultimately have "list_all (region_ok (unat n)) (regions ssz ?t)"
    unfolding reg by simp
  moreover have "sorted_wrt disjoint_regions (regions ssz ?t)"
    unfolding reg
  proof (rule sorted_wrt_insert_mid)
    show "sorted_wrt disjoint_regions (?xs @ ?ys)"
      using wf unfolding shm_wf_def old_reg by blast
    show "\<forall>r \<in> set (?xs @ ?ys). disjoint_regions r (nxt s, ssz)"
      using old by (auto simp: list_all_iff region_ok_def disjoint_regions_def)
  qed
  ultimately show ?thesis
    using wf fresh n by (auto simp: shm_wf_def list_all_iff)
qed

lemma shm_wf_NewAtomicInt64:
  assumes wf: "shm_wf ssz s" and nw: "no_wrap 8 s"
  shows "shm_wf ssz (snd (NewAtomicInt64 name value s))"
proof -
  have n: "unat (SHMEMALIGN (next_user_available_offset s + 8)) = round16 (nxt s + 8)"
    using nxt_alloc [OF nw] by simp
  note r = round16_props [of "nxt s + 8"]
  have "shm_wf ssz (s\<lparr>next_user_available_offset := SHMEMALIGN (next_user_available_offset s + 8)\<rparr>)"
    using wf n r by (intro shm_wf_next) auto
  then show ?thesis
    using wf n r shm_wf_add_atomic [OF wf, of name "SHMEMALIGN (next_user_available_offset s + 8)"]
    by (auto simp: NewAtomicInt64_cases [OF wf nw] AllocateUserShmem_cases [OF nw] Let_def)
qed

lemma shm_wf_NewSemaphore:
  assumes wf: "shm_wf (unat sz) s" and nw: "no_wrap sz s"
  shows "shm_wf (unat sz) (snd (NewSemaphore sz r name value s))"
proof -
  have n: "unat (SHMEMALIGN (next_user_available_offset s + sz)) = round16 (nxt s + unat sz)"
    using nxt_alloc [OF nw] by simp
  note r = round16_props [of "nxt s + unat sz"]
  have "shm_wf (unat sz) (s\<lparr>next_user_available_offset := SHMEMALIGN (next_user_available_offset s + sz)\<rparr>)"
    using wf n r by (intro shm_wf_next) auto
  then show ?thesis
    using wf n r shm_wf_add_semaphore [OF wf, of name "SHMEMALIGN (next_user_available_offset s + sz)"]
    by (auto simp: NewSemaphore_cases [OF wf nw] AllocateUserShmem_cases [OF nw] Let_def)
qed

section \<open>The loader's requests\<close>

text \<open>The requests that create objects, in the order the loader makes them. An
  exception of one request goes back to the loader as an error and the next request finds the
  state the failed one left.\<close>

datatype shm_request = ReqSemaphore "int \<times> int" string int64 | ReqAtomic string int64

fun do_request :: "size_t \<Rightarrow> shm_request \<Rightarrow> shm \<Rightarrow> shm" where
  "do_request sz (ReqSemaphore r name value) s = snd (NewSemaphore sz r name value s)"
| "do_request sz (ReqAtomic name value) s = snd (NewAtomicInt64 name value s)"

definition do_requests :: "size_t \<Rightarrow> shm_request list \<Rightarrow> shm \<Rightarrow> shm" where
  "do_requests sz reqs s = fold (do_request sz) reqs s"

definition roomy :: "nat \<Rightarrow> nat \<Rightarrow> shm \<Rightarrow> bool" where
  "roomy sz k s \<longleftrightarrow> nxt s + (k + 1) * (sz + 24) \<le> 2 ^ 64"

lemma roomy_no_wrap: "roomy (unat sz) k s \<Longrightarrow> no_wrap sz s \<and> no_wrap 8 s"
proof -
  assume "roomy (unat sz) k s"
  moreover have "unat sz + 24 \<le> (k + 1) * (unat sz + 24)" by simp
  ultimately have "nxt s + (unat sz + 24) \<le> 2 ^ 64" unfolding roomy_def by linarith
  then show ?thesis by (simp add: no_wrap_def)
qed

lemma nxt_do_request:
  assumes wf: "shm_wf (unat sz) s" and nw: "no_wrap sz s" "no_wrap 8 s"
  shows "nxt (do_request sz q s) \<le> nxt s + unat sz + 24"
proof -
  have "nxt (snd (AllocateUserShmem sz s)) \<le> nxt s + unat sz + 24"
    using round16_props(2) [of "nxt s + unat sz"] nxt_alloc [OF nw(1)]
    by (auto simp: AllocateUserShmem_cases [OF nw(1)] Let_def)
  moreover have "nxt (snd (AllocateUserShmem 8 s)) \<le> nxt s + unat sz + 24"
    using round16_props(2) [of "nxt s + 8"] nxt_alloc [OF nw(2)]
    by (auto simp: AllocateUserShmem_cases [OF nw(2)] Let_def)
  ultimately show ?thesis
    by (cases q) (auto simp: NewSemaphore_cases [OF wf nw(1)] NewAtomicInt64_cases [OF wf nw(2)]
        Let_def split: prod.splits outcome.splits)
qed

lemma roomy_do_request:
  assumes wf: "shm_wf (unat sz) s" and r: "roomy (unat sz) (Suc k) s"
  shows "shm_wf (unat sz) (do_request sz q s) \<and> roomy (unat sz) k (do_request sz q s)"
proof -
  from roomy_no_wrap [OF r] have nw: "no_wrap sz s" "no_wrap 8 s" by auto
  have "shm_wf (unat sz) (do_request sz q s)"
    using wf nw by (cases q) (auto simp: shm_wf_NewSemaphore shm_wf_NewAtomicInt64)
  moreover have "roomy (unat sz) k (do_request sz q s)"
    using nxt_do_request [OF wf nw, of q] r by (simp add: roomy_def)
  ultimately show ?thesis by blast
qed

lemma shm_wf_do_requests:
  assumes "shm_wf (unat sz) s" and "roomy (unat sz) (length reqs) s"
  shows "shm_wf (unat sz) (do_requests sz reqs s)"
  using assms
proof (induction reqs arbitrary: s)
  case Nil
  then show ?case by (simp add: do_requests_def)
next
  case (Cons q reqs)
  then have "shm_wf (unat sz) (do_request sz q s)" "roomy (unat sz) (length reqs) (do_request sz q s)"
    using roomy_do_request by auto
  from Cons.IH [OF this] show ?case by (simp add: do_requests_def)
qed

lemma roomy_new:
  assumes "unat sz \<le> 4096" and "n \<le> 2 ^ 32"
  shows "roomy (unat sz) n (BPSGISharedMemory_new 4096)"
proof -
  have "(n + 1) * (unat sz + 24) \<le> (2 ^ 32 + 1) * (4096 + 24)"
    using assms by (intro mult_le_mono) auto
  then show ?thesis by (simp add: roomy_def BPSGISharedMemory_new_def)
qed

text \<open>C16. Whatever semaphores and atomic integers a loader asks for, in whatever order,
  with name clashes, rejected values, failing sem_init calls and out-of-memory errors in
  between (up to 2^32 requests, for a sem_t of at most 4096 bytes), the objects handed out
  occupy pairwise disjoint, 16-byte aligned regions that lie between the two header cells and
  the worker status array, and names are unique per kind.\<close>

theorem do_requests_regions_disjoint:
  assumes "unat sz \<le> 4096" and "length reqs \<le> 2 ^ 32"
    and "s = do_requests sz reqs (BPSGISharedMemory_new 4096)"
  shows "sorted_wrt disjoint_regions (regions (unat sz) s)
    \<and> (\<forall>(p, n) \<in> set (regions (unat sz) s).
         16 dvd p \<and> SHMEM_REQUEST_COUNTER_OFF + 8 \<le> p \<and> p + n < SHMEM_WORKER_STATUS_ARRAY_OFF)
    \<and> distinct (map sem_name (semaphores s)) \<and> distinct (map atm_name (atomics s))"
proof -
  have "shm_wf (unat sz) s"
    unfolding assms(3) using shm_wf_new roomy_new [OF assms(1,2)] by (rule shm_wf_do_requests)
  then show ?thesis
    by (auto simp: shm_wf_def list_all_iff region_ok_def layout_defs)
qed

theorem do_requests_regions_disjoint_witness:
  "regions 32 (do_requests 32 [ReqAtomic ''hits'' 7, ReqSemaphore (0, 0) ''db'' 3,
      ReqAtomic ''hits'' 1, ReqSemaphore (0, 0) ''none'' 0] (BPSGISharedMemory_new 4096))
     = [(32, 32), (16, 8)]
   \<and> distinct (map atm_name (atomics (do_requests 32 [ReqAtomic ''hits'' 7,
      ReqSemaphore (0, 0) ''db'' 3, ReqAtomic ''hits'' 1, ReqSemaphore (0, 0) ''none'' 0]
      (BPSGISharedMemory_new 4096))))"
proof -
  let ?reqs = "[ReqAtomic ''hits'' 7, ReqSemaphore (0, 0) ''db'' 3, ReqAtomic ''hits'' 1,
      ReqSemaphore (0, 0) ''none'' 0]"
  have "regions 32 (do_requests 32 ?reqs (BPSGISharedMemory_new 4096)) = [(32, 32), (16, 8)]"
    by (simp add: do_requests_def NewAtomicInt64_def NewSemaphore_def prog_defs
        AllocateUserShmem_def BPSGIAtomicInt64_new_def store_int64_def memset_zero_def
        BPSGISharedMemory_new_def SHMEMALIGN_def layout_defs regions_def Let_def)
  then show ?thesis
    using do_requests_regions_disjoint [of 32 ?reqs, OF _ _ refl] by simp
qed

end
