(* ===== verification/Bpsgi_Shmem_Spec.thy ===== *)
theory Bpsgi_Shmem_Spec
  imports Bpsgi_Shmem
begin

text \<open>
  What the shared segment promises its users, and that the byte-level code keeps the
  promise. The specification knows no addresses: an exit flag, a request counter, a status
  per worker, a 64-bit value per atomic integer and a count per semaphore. The concrete
  operations are those of \<open>Bpsgi_Shmem\<close>, on bytes; the locale \<open>simulation\<close>
  is interpreted on them, so every interleaving of operations of any number of processes (the
  operations are atomic) behaves as the specification says.
\<close>

record ashm =
  a_exit :: bool
  a_requests :: int64
  a_status :: "nat \<Rightarrow> byte"
  a_atomics :: "string \<Rightarrow> int64 option"
  a_sems :: "string \<Rightarrow> nat option"

datatype shm_op =
    OpSetExit
  | OpShouldExit
  | OpIncrRequests
  | OpSetStatus nat byte
  | OpAtomicLoad BPSGIAtomicInt64
  | OpAtomicStore BPSGIAtomicInt64 int64
  | OpAtomicAdd BPSGIAtomicInt64 int64

datatype shm_res = ResUnit | ResBool bool | ResInt int64

text \<open>The concrete operations, with their results tagged.\<close>

definition tag :: "('a \<Rightarrow> shm_res) \<Rightarrow> (shm, 'a) prog \<Rightarrow> (shm, shm_res) prog" where
  "tag f m = bind m (\<lambda>a. ret (f a))"

fun do_op :: "shm_op \<Rightarrow> (shm, shm_res) prog" where
  "do_op OpSetExit = tag ResBool SetShouldExitImmediately"
| "do_op OpShouldExit = tag ResBool ShouldExitImmediately"
| "do_op OpIncrRequests = tag ResInt IncreaseRequestCounter"
| "do_op (OpSetStatus w c) = tag (\<lambda>_. ResUnit) (SetWorkerStatus w c)"
| "do_op (OpAtomicLoad a) = tag ResInt (BPSGIAtomicInt64_Read a)"
| "do_op (OpAtomicStore a v) = tag (\<lambda>_. ResUnit) (store_int64 (atm_ptr a) v)"
| "do_op (OpAtomicAdd a v) = tag ResInt (fetch_add_int64 (atm_ptr a) v)"

text \<open>The specification.\<close>

fun spec_op :: "shm_op \<Rightarrow> ashm \<Rightarrow> shm_res \<times> ashm" where
  "spec_op OpSetExit a = (ResBool (\<not> a_exit a), a\<lparr>a_exit := True\<rparr>)"
| "spec_op OpShouldExit a = (ResBool (a_exit a), a)"
| "spec_op OpIncrRequests a = (ResInt (a_requests a), a\<lparr>a_requests := a_requests a + 1\<rparr>)"
| "spec_op (OpSetStatus w c) a = (ResUnit, a\<lparr>a_status := (a_status a)(w := c)\<rparr>)"
| "spec_op (OpAtomicLoad x) a = (ResInt (the (a_atomics a (atm_name x))), a)"
| "spec_op (OpAtomicStore x v) a =
     (ResUnit, a\<lparr>a_atomics := (a_atomics a)(atm_name x := Some v)\<rparr>)"
| "spec_op (OpAtomicAdd x v) a =
     (ResInt (the (a_atomics a (atm_name x))),
      a\<lparr>a_atomics := (a_atomics a)(atm_name x := Some (the (a_atomics a (atm_name x)) + v))\<rparr>)"

definition abs_shm :: "shm \<Rightarrow> ashm" where
  "abs_shm s =
     \<lparr>a_exit = (segment s SHMEM_SHOULD_EXIT_IMMEDIATELY_OFF \<noteq> 0),
      a_requests = load64 (segment s) SHMEM_REQUEST_COUNTER_OFF,
      a_status = (\<lambda>w. if w < 2048 then segment s (WorkerArraySegment + w) else 0),
      a_atomics = map_of (map (\<lambda>x. (atm_name x, load64 (segment s) (atm_ptr x))) (atomics s)),
      a_sems = map_of (map (\<lambda>x. (sem_name x, the (sem_vals s (sem_ptr x)))) (semaphores s))\<rparr>"

section \<open>Refinement\<close>

fun op_ok :: "shm_op \<Rightarrow> shm \<Rightarrow> bool" where
  "op_ok (OpSetStatus w c) s \<longleftrightarrow> w < 2048"
| "op_ok (OpAtomicLoad x) s \<longleftrightarrow> x \<in> set (atomics s)"
| "op_ok (OpAtomicStore x v) s \<longleftrightarrow> x \<in> set (atomics s)"
| "op_ok (OpAtomicAdd x v) s \<longleftrightarrow> x \<in> set (atomics s)"
| "op_ok _ s \<longleftrightarrow> True"

definition shared_inv :: "nat \<Rightarrow> shm \<Rightarrow> bool" where
  "shared_inv ssz s \<longleftrightarrow> shm_wf ssz s \<and> segment s SHMEM_SHOULD_EXIT_IMMEDIATELY_OFF \<in> {0, 1}"

lemma op_ok_segment [simp]: "op_ok x (s\<lparr>segment := m\<rparr>) = op_ok x s"
  by (cases x) auto

lemma atomic_region:
  assumes "shm_wf ssz s" and "x \<in> set (atomics s)"
  shows "16 \<le> atm_ptr x" "atm_ptr x + 8 < 2048" "shmem_size s = 4096"
proof -
  have "(atm_ptr x, 8) \<in> set (regions ssz s)"
    using assms(2) by (auto simp: regions_def sizeof_int64_def)
  then have "region_ok (nxt s) (atm_ptr x, 8)"
    using assms(1) by (auto simp: shm_wf_def list_all_iff)
  then show "16 \<le> atm_ptr x" "atm_ptr x + 8 < 2048"
    by (auto simp: region_ok_def)
  show "shmem_size s = 4096" using assms(1) by (simp add: shm_wf_def)
qed

lemma atomics_sep:
  assumes "shm_wf ssz s" and "x \<in> set (atomics s)" and "y \<in> set (atomics s)" and "x \<noteq> y"
  shows "sep64 (atm_ptr x) (atm_ptr y)"
proof -
  have "sorted_wrt disjoint_regions (map (\<lambda>x. (atm_ptr x, sizeof_int64)) (atomics s))"
    using assms(1) by (simp add: shm_wf_def regions_def sorted_wrt_append)
  then have "sorted_wrt (\<lambda>x y. disjoint_regions (atm_ptr x, sizeof_int64) (atm_ptr y, sizeof_int64))
      (atomics s)"
    by (simp add: sorted_wrt_map)
  from sorted_wrt_members [OF this assms(2,3,4)] show ?thesis
    by (auto simp: disjoint_regions_def sep64_def sizeof_int64_def)
qed

lemmas abs_shm_simps = abs_shm_def layout_defs WorkerArraySegment_def

lemma abs_shm_sel [simp]:
  "a_exit (abs_shm s) \<longleftrightarrow> segment s 0 \<noteq> 0"
  "a_requests (abs_shm s) = load64 (segment s) 8"
  by (simp_all add: abs_shm_simps)

lemma abs_store_atomic:
  assumes wf: "shm_wf ssz s" and x: "x \<in> set (atomics s)"
  shows "abs_shm (s\<lparr>segment := store64 (segment s) (atm_ptr x) v\<rparr>)
       = (abs_shm s)\<lparr>a_atomics := (a_atomics (abs_shm s))(atm_name x := Some v)\<rparr>"
proof -
  note r = atomic_region [OF wf x]
  have "map_of (map (\<lambda>y. (atm_name y, load64 (store64 (segment s) (atm_ptr x) v) (atm_ptr y))) (atomics s))
      = (map_of (map (\<lambda>y. (atm_name y, load64 (segment s) (atm_ptr y))) (atomics s)))(atm_name x \<mapsto> v)"
  proof (rule map_of_map_upd)
    show "distinct (map atm_name (atomics s))" using wf by (simp add: shm_wf_def)
    show "\<forall>y \<in> set (atomics s). y \<noteq> x \<longrightarrow>
        load64 (store64 (segment s) (atm_ptr x) v) (atm_ptr y) = load64 (segment s) (atm_ptr y)"
      using atomics_sep [OF wf x] cells64.rd_wr_sep by metis
  qed (use x in simp_all)
  with r show ?thesis
    by (auto simp: abs_shm_simps mem_simps)
qed

lemma abs_store_status:
  assumes wf: "shm_wf ssz s" and w: "w < 2048"
  shows "abs_shm (s\<lparr>segment := (segment s)(2048 + w := c)\<rparr>)
       = (abs_shm s)\<lparr>a_status := (a_status (abs_shm s))(w := c)\<rparr>"
proof -
  have "map_of (map (\<lambda>x. (atm_name x, load64 ((segment s)(2048 + w := c)) (atm_ptr x))) (atomics s))
      = map_of (map (\<lambda>x. (atm_name x, load64 (segment s) (atm_ptr x))) (atomics s))"
    using atomic_region(2) [OF wf]
    by (intro arg_cong [where f = map_of]) (fastforce simp: load64_upd_outside)
  with w show ?thesis
    by (auto simp: abs_shm_simps mem_simps)
qed

lemma abs_store_exit:
  assumes wf: "shm_wf ssz s"
  shows "abs_shm (s\<lparr>segment := (segment s)(0 := 1)\<rparr>) = (abs_shm s)\<lparr>a_exit := True\<rparr>"
proof -
  have "map_of (map (\<lambda>x. (atm_name x, load64 ((segment s)(0 := 1)) (atm_ptr x))) (atomics s))
      = map_of (map (\<lambda>x. (atm_name x, load64 (segment s) (atm_ptr x))) (atomics s))"
    using atomic_region(1) [OF wf]
    by (intro arg_cong [where f = map_of]) (fastforce simp: load64_upd_outside)
  then show ?thesis by (auto simp: abs_shm_simps mem_simps)
qed

lemma abs_store_requests:
  assumes wf: "shm_wf ssz s"
  shows "abs_shm (s\<lparr>segment := store64 (segment s) 8 v\<rparr>) = (abs_shm s)\<lparr>a_requests := v\<rparr>"
proof -
  have "map_of (map (\<lambda>x. (atm_name x, load64 (store64 (segment s) 8 v) (atm_ptr x))) (atomics s))
      = map_of (map (\<lambda>x. (atm_name x, load64 (segment s) (atm_ptr x))) (atomics s))"
    using atomic_region(1) [OF wf]
    by (intro arg_cong [where f = map_of]) (fastforce simp: load64_store64_disjoint)
  then show ?thesis by (auto simp: abs_shm_simps mem_simps)
qed

lemma abs_lookup_atomic:
  assumes wf: "shm_wf ssz s" and x: "x \<in> set (atomics s)"
  shows "a_atomics (abs_shm s) (atm_name x) = Some (load64 (segment s) (atm_ptr x))"
  using assms unfolding abs_shm_def shm_wf_def
  by (auto intro!: map_of_is_SomeI simp: comp_def)

lemma shared_inv_segment:
  "shared_inv ssz s \<Longrightarrow> m 0 \<in> {0, 1} \<Longrightarrow> shared_inv ssz (s\<lparr>segment := m\<rparr>)"
  by (simp add: shared_inv_def layout_defs)

lemma store64_keeps_flag: "8 \<le> a \<Longrightarrow> store64 m a v 0 = m 0"
  by (simp add: store64_def)

text \<open>One operation at a time: the byte-level code returns what the specification says
  and moves the abstraction as it says.\<close>

lemma do_op_refines:
  assumes inv: "shared_inv ssz s" and ok: "op_ok x s"
  shows "\<exists>r s'. do_op x s = (Ret r, s') \<and> shared_inv ssz s'
     \<and> spec_op x (abs_shm s) = (r, abs_shm s') \<and> (\<forall>y. op_ok y s \<longrightarrow> op_ok y s')"
proof -
  from inv have wf: "shm_wf ssz s" and flag: "segment s 0 \<in> {0, 1}" and sz: "shmem_size s = 4096"
    by (auto simp: shared_inv_def shm_wf_def layout_defs)
  note defs = tag_def prog_defs access_defs sz layout_defs WorkerArraySegment_def
  show ?thesis
  proof (cases x)
    case OpSetExit
    with wf flag inv show ?thesis
      by (auto simp: SetShouldExitImmediately_def defs abs_store_exit intro!: shared_inv_segment)
  next
    case OpShouldExit
    with flag inv show ?thesis
      by (auto simp: ShouldExitImmediately_def defs)
  next
    case OpIncrRequests
    with wf flag inv show ?thesis
      by (auto simp: IncreaseRequestCounter_def defs abs_store_requests store64_keeps_flag
          intro!: shared_inv_segment)
  next
    case (OpSetStatus w c)
    with wf flag inv ok show ?thesis
      by (auto simp: SetWorkerStatus_def defs abs_store_status intro!: shared_inv_segment)
  next
    case (OpAtomicLoad a)
    with ok inv atomic_region [OF wf, of a] abs_lookup_atomic [OF wf, of a] show ?thesis
      by (auto simp: BPSGIAtomicInt64_Read_def defs)
  next
    case (OpAtomicStore a v)
    with ok inv flag atomic_region [OF wf, of a] abs_store_atomic [OF wf, of a v] show ?thesis
      by (auto simp: defs store64_keeps_flag intro!: shared_inv_segment)
  next
    case (OpAtomicAdd a v)
    with ok inv flag atomic_region [OF wf, of a] abs_lookup_atomic [OF wf, of a] show ?thesis
      by (auto simp: defs store64_keeps_flag abs_store_atomic [OF wf] intro!: shared_inv_segment)
  qed
qed

interpretation segment: simulation "shared_inv ssz" abs_shm do_op spec_op op_ok for ssz
  by unfold_locales (rule do_op_refines)

section \<open>Every interleaving of operations\<close>

lemma do_request_flag:
  assumes wf: "shm_wf (unat sz) s" and nw: "no_wrap sz s" "no_wrap 8 s"
  shows "segment (do_request sz q s) 0 = segment s 0
    \<and> load64 (segment (do_request sz q s)) 8 = load64 (segment s) 8"
proof -
  have "16 \<le> nxt s" using wf by (simp add: shm_wf_def)
  then have "load64 (\<lambda>x. if nxt s \<le> x \<and> x < nxt s + n then 0 else segment s x) 8
      = load64 (segment s) 8" for n
    by (intro load64_cong) auto
  with \<open>16 \<le> nxt s\<close> show ?thesis
    by (cases q) (auto simp: NewSemaphore_cases [OF wf nw(1)] NewAtomicInt64_cases [OF wf nw(2)]
        AllocateUserShmem_cases [OF nw(1)] AllocateUserShmem_cases [OF nw(2)] Let_def
        store64_keeps_flag mem_simps)
qed

lemma do_requests_header:
  assumes "shm_wf (unat sz) s" and "roomy (unat sz) (length reqs) s"
  shows "segment (do_requests sz reqs s) 0 = segment s 0
    \<and> load64 (segment (do_requests sz reqs s)) 8 = load64 (segment s) 8"
  using assms
proof (induction reqs arbitrary: s)
  case Nil
  then show ?case by (simp add: do_requests_def)
next
  case (Cons q reqs)
  then have r: "roomy (unat sz) (Suc (length reqs)) s" by simp
  then have "no_wrap sz s" "no_wrap 8 s" using roomy_no_wrap by blast+
  note 1 = do_request_flag [OF Cons.prems(1) this, of q]
  have "shm_wf (unat sz) (do_request sz q s)" "roomy (unat sz) (length reqs) (do_request sz q s)"
    using roomy_do_request [OF Cons.prems(1) r] by auto
  from Cons.IH [OF this] 1 show ?case by (simp add: do_requests_def)
qed

text \<open>The segment as the overseer sets it up and the loader's requests leave it.\<close>

definition loaded :: "size_t \<Rightarrow> shm_request list \<Rightarrow> shm \<Rightarrow> bool" where
  "loaded sz reqs s \<longleftrightarrow> unat sz \<le> 4096 \<and> length reqs \<le> 2 ^ 32
     \<and> s = do_requests sz reqs (BPSGISharedMemory_new 4096)"

lemma loaded_inv:
  assumes "loaded sz reqs s"
  shows "shared_inv (unat sz) s" "\<not> a_exit (abs_shm s)" "a_requests (abs_shm s) = 0"
proof -
  have wf: "shm_wf (unat sz) (BPSGISharedMemory_new 4096)" by (rule shm_wf_new)
  have r: "roomy (unat sz) (length reqs) (BPSGISharedMemory_new 4096)"
    using assms by (intro roomy_new) (auto simp: loaded_def)
  have "segment s 0 = 0 \<and> load64 (segment s) 8 = 0"
    using do_requests_header [OF wf r] assms by (simp add: loaded_def BPSGISharedMemory_new_def)
  with shm_wf_do_requests [OF wf r] assms
  show "shared_inv (unat sz) s" "\<not> a_exit (abs_shm s)" "a_requests (abs_shm s) = 0"
    by (auto simp: shared_inv_def loaded_def layout_defs)
qed

lemma loaded_run:
  assumes "loaded sz reqs s" and "\<forall>x \<in> set ops. op_ok x s"
  obtains rs s' where "run_prog do_op ops s = (Ret rs, s')" "shared_inv (unat sz) s'"
    "run_spec spec_op ops (abs_shm s) = (rs, abs_shm s')"
  using segment.simulates_run [OF loaded_inv(1) [OF assms(1)] assms(2)] by blast

text \<open>C9. Refinement of the shared segment: after any loader requests, every
  interleaving of exit-flag, counter, status and atomic-integer operations runs to its end on
  the byte-level code, and all results and the final contents are those of the specification,
  in which the cells are independent of one another.\<close>

theorem shared_segment_refines_spec:
  assumes "loaded sz reqs s" and "\<forall>x \<in> set ops. op_ok x s"
  shows "\<exists>rs s'. run_prog do_op ops s = (Ret rs, s')
           \<and> run_spec spec_op ops (abs_shm s) = (rs, abs_shm s')"
  using loaded_run [OF assms] by metis

lemma spec_exit_once:
  "run_spec spec_op ops a = (rs, a') \<Longrightarrow>
   (a_exit a' \<longleftrightarrow> a_exit a \<or> OpSetExit \<in> set ops)
   \<and> length (filter (\<lambda>(x, r). x = OpSetExit \<and> r = ResBool True) (zip ops rs))
     = (if \<not> a_exit a \<and> OpSetExit \<in> set ops then 1 else 0)"
proof (induction ops arbitrary: a rs)
  case (Cons x ops)
  from Cons.prems obtain r a1 rs1 where x: "spec_op x a = (r, a1)"
    and run: "run_spec spec_op ops a1 = (rs1, a')" and rs: "rs = r # rs1"
    by (rule run_spec_ConsE)
  have "a_exit a1 \<longleftrightarrow> a_exit a \<or> x = OpSetExit"
    and "x = OpSetExit \<Longrightarrow> r = ResBool (\<not> a_exit a)"
    using x by (cases x; auto)+
  with Cons.IH [OF run] rs show ?case by auto
qed simp

lemma spec_requests_count:
  "run_spec spec_op ops a = (rs, a') \<Longrightarrow>
   a_requests a' = a_requests a + of_nat (count_list ops OpIncrRequests)"
proof (induction ops arbitrary: a rs)
  case (Cons x ops)
  from Cons.prems obtain r a1 rs1 where x: "spec_op x a = (r, a1)"
    and run: "run_spec spec_op ops a1 = (rs1, a')" by (rule run_spec_ConsE)
  have "a_requests a1 = a_requests a + (if x = OpIncrRequests then 1 else 0)"
    using x by (cases x; auto)
  with Cons.IH [OF run] show ?case by auto
qed simp

text \<open>C10. In every interleaving, of all the calls of SetShouldExitImmediately exactly one
  returns true (the reason for an immediate exit is announced once, by whoever raises the flag
  first), and afterwards ShouldExitImmediately returns true.\<close>

theorem exit_announced_exactly_once:
  assumes "loaded sz reqs s" and "\<forall>x \<in> set ops. op_ok x s" and "OpSetExit \<in> set ops"
  shows "\<exists>rs s'. run_prog do_op ops s = (Ret rs, s')
     \<and> length (filter (\<lambda>(x, r). x = OpSetExit \<and> r = ResBool True) (zip ops rs)) = 1
     \<and> fst (ShouldExitImmediately s') = Ret True"
proof -
  obtain rs s' where run: "run_prog do_op ops s = (Ret rs, s')" and inv: "shared_inv (unat sz) s'"
    and sp: "run_spec spec_op ops (abs_shm s) = (rs, abs_shm s')"
    using loaded_run [OF assms(1,2)] .
  note once = spec_exit_once [OF sp]
  have "segment s' 0 = 1" "0 < shmem_size s'"
    using once assms(3) inv by (auto simp: shared_inv_def shm_wf_def layout_defs)
  then have "fst (ShouldExitImmediately s') = Ret True"
    by (simp add: ShouldExitImmediately_def prog_defs load_int8_def layout_defs)
  with run once loaded_inv(2) [OF assms(1)] assms(3) show ?thesis by auto
qed

text \<open>C32. In every interleaving, the request counter read afterwards is the number of
  calls of IncreaseRequestCounter, modulo 2^64.\<close>

theorem request_counter_counts:
  assumes "loaded sz reqs s" and "\<forall>x \<in> set ops. op_ok x s"
  shows "\<exists>rs s'. run_prog do_op ops s = (Ret rs, s')
     \<and> fst (ReadRequestCounter s') = Ret (of_nat (count_list ops OpIncrRequests))"
proof -
  obtain rs s' where run: "run_prog do_op ops s = (Ret rs, s')" and inv: "shared_inv (unat sz) s'"
    and sp: "run_spec spec_op ops (abs_shm s) = (rs, abs_shm s')"
    using loaded_run [OF assms] .
  have "shmem_size s' = 4096" using inv by (simp add: shared_inv_def shm_wf_def)
  then have "fst (ReadRequestCounter s') = Ret (a_requests (abs_shm s'))"
    by (simp add: ReadRequestCounter_def load_int64_def layout_defs)
  with run spec_requests_count [OF sp] loaded_inv(3) [OF assms(1)] show ?thesis by simp
qed

text \<open>The concrete run the witnesses use: one atomic integer, two workers that serve
  requests, and two processes that raise the exit flag.\<close>

definition demo_shm :: shm where
  "demo_shm = do_requests 32 [ReqAtomic ''hits'' 7] (BPSGISharedMemory_new 4096)"

definition demo_atomic :: BPSGIAtomicInt64 where
  "demo_atomic = \<lparr>atm_ptr = 16, atm_name = ''hits''\<rparr>"

definition demo_ops :: "shm_op list" where
  "demo_ops = [OpSetStatus 0 95, OpIncrRequests, OpAtomicAdd demo_atomic 5, OpSetExit,
     OpIncrRequests, OpSetExit, OpShouldExit]"

lemma demo_loaded: "loaded 32 [ReqAtomic ''hits'' 7] demo_shm"
  by (simp add: loaded_def demo_shm_def)

lemma demo_shm_atomics: "atomics demo_shm = [demo_atomic]"
  by (simp add: demo_shm_def demo_atomic_def do_requests_def NewAtomicInt64_def prog_defs
      AllocateUserShmem_def BPSGIAtomicInt64_new_def store_int64_def
      BPSGISharedMemory_new_def SHMEMALIGN_def layout_defs Let_def)

lemma demo_ops_ok: "\<forall>x \<in> set demo_ops. op_ok x demo_shm"
  by (simp add: demo_ops_def demo_shm_atomics)

theorem shared_segment_refines_spec_witness:
  "\<exists>rs s'. run_prog do_op demo_ops demo_shm = (Ret rs, s')
     \<and> run_spec spec_op demo_ops (abs_shm demo_shm) = (rs, abs_shm s')"
  using shared_segment_refines_spec [OF demo_loaded demo_ops_ok] .

theorem exit_announced_exactly_once_witness:
  "\<exists>rs s'. run_prog do_op demo_ops demo_shm = (Ret rs, s')
     \<and> length (filter (\<lambda>(x, r). x = OpSetExit \<and> r = ResBool True) (zip demo_ops rs)) = 1
     \<and> fst (ShouldExitImmediately s') = Ret True"
  using exit_announced_exactly_once [OF demo_loaded demo_ops_ok] by (simp add: demo_ops_def)

theorem request_counter_counts_witness:
  "\<exists>rs s'. run_prog do_op demo_ops demo_shm = (Ret rs, s')
     \<and> fst (ReadRequestCounter s') = Ret 2"
  using request_counter_counts [OF demo_loaded demo_ops_ok] by (simp add: demo_ops_def)

section \<open>Worker status array\<close>

lemma GetAllWorkerStatuses_loop_ok:
  "mem + n \<le> shmem_size s \<Longrightarrow>
   GetAllWorkerStatuses_loop mem n s = (Ret (map (segment s) [mem..<mem + n]), s)"
proof (induction n arbitrary: mem)
  case 0
  then show ?case by (simp add: ret_def)
next
  case (Suc n)
  then have "GetAllWorkerStatuses_loop (mem + 1) n s
      = (Ret (map (segment s) [mem + 1..<mem + 1 + n]), s)"
    by (intro Suc.IH) simp
  with Suc.prems show ?case
    by (simp add: bind_def ret_def load_int8_def upt_conv_Cons del: upt_Suc)
qed

lemma GetAllWorkerStatuses_loop_fault:
  "mem \<le> shmem_size s \<Longrightarrow> shmem_size s < mem + n \<Longrightarrow>
   GetAllWorkerStatuses_loop mem n s = (Halt Segfault, s)"
proof (induction n arbitrary: mem)
  case 0
  then show ?case by simp
next
  case (Suc n)
  then show ?case
    by (cases "mem < shmem_size s") (auto simp: bind_def ret_def load_int8_def)
qed

text \<open>C37. The status array holds 2048 workers, not the 65536 the command line admits:
  with at most 2048 workers the statuses read are those last set, in worker order; a worker
  number of 2048 or more stores outside of the mapped segment, and reading the statuses of
  more than 2048 workers reads outside of it.\<close>

theorem worker_status_array_bounds:
  assumes "shmem_size s = 4096"
  shows "(0 \<le> n \<and> n \<le> 2048 \<longrightarrow> GetAllWorkerStatuses n s
            = (Ret (map (\<lambda>w. segment s (2048 + w)) [0..<nat n]), s))
    \<and> (2048 < n \<longrightarrow> GetAllWorkerStatuses n s = (Halt Segfault, s))
    \<and> (w < 2048 \<longrightarrow> GetWorkerStatus w (snd (SetWorkerStatus w c s))
            = (Ret c, snd (SetWorkerStatus w c s)))
    \<and> (2048 \<le> w \<longrightarrow> SetWorkerStatus w c s = (Halt Segfault, s))"
proof -
  have shift: "map (segment s) [2048..<2048 + k] = map (\<lambda>w. segment s (2048 + w)) [0..<k]" for k
    by (rule nth_equalityI) simp_all
  have "0 \<le> n \<Longrightarrow> n \<le> 2048 \<Longrightarrow> GetAllWorkerStatuses n s
      = (Ret (map (\<lambda>w. segment s (2048 + w)) [0..<nat n]), s)"
    using GetAllWorkerStatuses_loop_ok [of 2048 "nat n" s] assms shift [of "nat n"]
    by (simp add: GetAllWorkerStatuses_def WorkerArraySegment_def layout_defs)
  moreover have "2048 < n \<Longrightarrow> GetAllWorkerStatuses n s = (Halt Segfault, s)"
    using GetAllWorkerStatuses_loop_fault [of 2048 s "nat n"] assms
    by (simp add: GetAllWorkerStatuses_def WorkerArraySegment_def layout_defs)
  ultimately show ?thesis
    using assms by (auto simp: SetWorkerStatus_def GetWorkerStatus_def access_defs
        WorkerArraySegment_def layout_defs)
qed

theorem worker_status_array_bounds_witness:
  "SetWorkerStatus 2048 95 (BPSGISharedMemory_new 4096)
     = (Halt Segfault, BPSGISharedMemory_new 4096)
   \<and> GetAllWorkerStatuses 2 (BPSGISharedMemory_new 4096) = (Ret [0, 0], BPSGISharedMemory_new 4096)"
proof -
  have sz: "shmem_size (BPSGISharedMemory_new 4096) = 4096"
    by (simp add: BPSGISharedMemory_new_def)
  show ?thesis
    using worker_status_array_bounds [OF sz, of 2 2048 95]
    by (simp add: BPSGISharedMemory_new_def upt_rec)
qed

section \<open>Capacity and locking\<close>

definition atomics_only :: "shm \<Rightarrow> bool" where
  "atomics_only s \<longleftrightarrow> nxt s = 16 + 16 * length (atomics s)
     \<or> (length (atomics s) = 126 \<and> 2048 \<le> nxt s)"

lemma round16_step: "round16 (16 + 16 * k + 8) = 16 + 16 * (k + 1)"
  by (simp add: round16_def)

lemma NewAtomicInt64_capacity_step:
  assumes wf: "shm_wf 0 s" and nw: "no_wrap 8 s" and inv: "atomics_only s"
    and unlocked: "\<not> locked s" and fresh: "name \<notin> set (map atm_name (atomics s))"
    and le: "length (atomics s) \<le> 126"
  shows "let s' = snd (NewAtomicInt64 name v s) in atomics_only s' \<and> \<not> locked s'
    \<and> map atm_name (atomics s') = map atm_name (atomics s)
        @ (if length (atomics s) < 126 then [name] else [])"
proof -
  have n: "unat (SHMEMALIGN (next_user_available_offset s + 8)) = round16 (nxt s + 8)"
    using nxt_alloc [OF nw] by simp
  note step = round16_step [of "length (atomics s)"]
  consider "nxt s = 16 + 16 * length (atomics s)" | "length (atomics s) = 126 \<and> 2048 \<le> nxt s"
    using inv by (auto simp: atomics_only_def)
  then show ?thesis
  proof cases
    case 1
    with step n unlocked fresh le show ?thesis
      by (auto simp: Let_def NewAtomicInt64_cases [OF wf nw] AllocateUserShmem_cases [OF nw]
          atomics_only_def)
  next
    case 2
    with n unlocked fresh round16_props(1) [of "nxt s + 8"] show ?thesis
      by (auto simp: Let_def NewAtomicInt64_cases [OF wf nw] AllocateUserShmem_cases [OF nw]
          atomics_only_def)
  qed
qed

lemma do_requests_atomics:
  assumes "shm_wf 0 s" and "roomy 0 (length names) s" and "atomics_only s" and "\<not> locked s"
    and "distinct names" and "set names \<inter> set (map atm_name (atomics s)) = {}"
    and "length (atomics s) \<le> 126"
  shows "map atm_name (atomics (do_requests 0 (map (\<lambda>n. ReqAtomic n v) names) s))
    = map atm_name (atomics s) @ take (126 - length (atomics s)) names"
  using assms
proof (induction names arbitrary: s)
  case Nil
  then show ?case by (simp add: do_requests_def)
next
  case (Cons n names)
  let ?s = "snd (NewAtomicInt64 n v s)"
  from Cons.prems(2) have r: "roomy (unat (0 :: size_t)) (Suc (length names)) s" by simp
  from roomy_no_wrap [OF r] have nw: "no_wrap 8 s" by simp
  have wfr: "shm_wf 0 ?s \<and> roomy 0 (length names) ?s"
    using roomy_do_request [OF _ r, of "ReqAtomic n v"] Cons.prems(1) by simp
  have step: "atomics_only ?s" "\<not> locked ?s" and names: "map atm_name (atomics ?s) =
      map atm_name (atomics s) @ (if length (atomics s) < 126 then [n] else [])"
    using NewAtomicInt64_capacity_step [OF Cons.prems(1) nw Cons.prems(3,4), of n v] Cons.prems(6,7)
    by (simp_all add: Let_def)
  have "length (map atm_name (atomics ?s)) = min 126 (length (atomics s) + 1)"
    unfolding names using Cons.prems(7) by auto
  then have len: "length (atomics ?s) = min 126 (length (atomics s) + 1)" by simp
  have "map atm_name (atomics (do_requests 0 (map (\<lambda>n. ReqAtomic n v) names) ?s))
      = map atm_name (atomics ?s) @ take (126 - length (atomics ?s)) names"
    using wfr step names len Cons.prems(5,6) by (intro Cons.IH) (auto split: if_splits)
  with names len Cons.prems(7) show ?case
    by (auto simp: do_requests_def take_Cons' split: if_splits)
qed

text \<open>C38. Capacity: of any sequence of requests for atomic integers with distinct names,
  the first 126 are granted and every later one is refused.\<close>

theorem atomic_integer_capacity:
  assumes "distinct names" and "length names \<le> 2 ^ 32"
  shows "map atm_name (atomics (do_requests 0 (map (\<lambda>n. ReqAtomic n v) names)
           (BPSGISharedMemory_new 4096))) = take 126 names"
proof -
  have "roomy 0 (length names) (BPSGISharedMemory_new 4096)"
    using roomy_new [of 0 "length names"] assms(2) by simp
  from do_requests_atomics [OF shm_wf_new this] assms(1) show ?thesis
    by (simp add: BPSGISharedMemory_new_def atomics_only_def)
qed

theorem atomic_integer_capacity_witness:
  "map atm_name (atomics (do_requests 0 (map (\<lambda>n. ReqAtomic n 0)
      (map (\<lambda>k. replicate k CHR ''a'') [0..<200])) (BPSGISharedMemory_new 4096)))
   = take 126 (map (\<lambda>k. replicate k CHR ''a'') [0..<200])"
proof (rule atomic_integer_capacity)
  show "distinct (map (\<lambda>k. replicate k CHR ''a'') [0..<200])"
    by (auto simp: distinct_map inj_on_def)
qed (simp del: upt_rec_numeral)

text \<open>C39. Once the allocations are locked, before the first fork, no request changes
  anything: a request for a new object throws and leaves the state as it is, and locking twice
  is a logic error.\<close>

theorem locked_segment_is_frozen:
  assumes "LockAllocations s = (Ret (), t)"
  shows "(\<exists>msg. NewAtomicInt64 name value t = (Throw (StringExn msg), t))
    \<and> (\<exists>msg. NewSemaphore sz r name value t = (Throw (StringExn msg), t))
    \<and> (\<exists>msg. LockAllocations t = (Throw (LogicError msg), t))"
proof -
  have "locked t" using assms by (auto simp: LockAllocations_def split: if_splits)
  then show ?thesis
    by (auto simp: NewAtomicInt64_def NewSemaphore_def LockAllocations_def prog_defs
        AllocateUserShmem_def)
qed

theorem locked_segment_is_frozen_witness:
  "\<exists>msg. NewAtomicInt64 ''late'' 0 (demo_shm\<lparr>locked := True\<rparr>)
     = (Throw (StringExn msg), demo_shm\<lparr>locked := True\<rparr>)"
proof -
  have "\<not> locked demo_shm"
    by (simp add: demo_shm_def do_requests_def NewAtomicInt64_def prog_defs
        AllocateUserShmem_def BPSGIAtomicInt64_new_def store_int64_def
        BPSGISharedMemory_new_def SHMEMALIGN_def layout_defs Let_def)
  then have "LockAllocations demo_shm = (Ret (), demo_shm\<lparr>locked := True\<rparr>)"
    by (simp add: LockAllocations_def)
  from locked_segment_is_frozen [OF this] show ?thesis by blast
qed

section \<open>Semaphores\<close>

text \<open>
  Processes that share a semaphore. The state is the segment and the list of processes that
  hold a permit, one entry per permit. A process acquires (waiting or trying), releases a
  permit it holds, or does anything else with the segment. An acquire that waits has no step
  while the count is zero.
\<close>

inductive sem_step :: "BPSGISemaphore \<Rightarrow> shm \<times> nat list \<Rightarrow> shm \<times> nat list \<Rightarrow> bool"
  for sem :: BPSGISemaphore where
  acquire: "Acquire is sem s = (Ret (), s') \<Longrightarrow> sem_step sem (s, hs) (s', p # hs)"
| tryacquire: "TryAcquire is sem s = (Ret True, s') \<Longrightarrow> sem_step sem (s, hs) (s', p # hs)"
| refused: "TryAcquire is sem s = (Ret False, s') \<Longrightarrow> sem_step sem (s, hs) (s', hs)"
| release: "p \<in> set hs \<Longrightarrow> Release sem s = (Ret (), s') \<Longrightarrow>
    sem_step sem (s, hs) (s', remove1 p hs)"
| other: "do_op x s = (Ret r, s') \<Longrightarrow> sem_step sem (s, hs) (s', hs)"

inductive sem_reach :: "BPSGISemaphore \<Rightarrow> shm \<Rightarrow> shm \<times> nat list \<Rightarrow> bool"
  for sem :: BPSGISemaphore and s0 :: shm where
  start: "sem_reach sem s0 (s0, [])"
| step: "sem_reach sem s0 a \<Longrightarrow> sem_step sem a b \<Longrightarrow> sem_reach sem s0 b"

lemma Acquire_value:
  assumes "sem_vals s (sem_ptr sem) = Some n"
  shows "Acquire is sem s = (if n = 0 then (Pending, s)
     else (Ret (), s\<lparr>sem_vals := (sem_vals s)(sem_ptr sem := Some (n - 1))\<rparr>))"
  using assms
  by (induction "is") (auto simp: prog_defs libc_sem_wait_def errno_defs)

lemma TryAcquire_value:
  assumes "sem_vals s (sem_ptr sem) = Some n"
  shows "TryAcquire is sem s = (if n = 0 then (Ret False, s)
     else (Ret True, s\<lparr>sem_vals := (sem_vals s)(sem_ptr sem := Some (n - 1))\<rparr>))"
  using assms
  by (induction "is") (auto simp: prog_defs libc_sem_trywait_def errno_defs)

lemma Release_value:
  assumes "sem_vals s (sem_ptr sem) = Some n" and "n < SEM_VALUE_MAX"
  shows "Release sem s = (Ret (), s\<lparr>sem_vals := (sem_vals s)(sem_ptr sem := Some (n + 1))\<rparr>)"
  using assms by (auto simp: Release_def prog_defs libc_sem_post_def)

lemma do_op_sem_vals: "sem_vals (snd (do_op x s)) = sem_vals s"
  by (cases x) (auto simp: tag_def prog_defs access_defs SetShouldExitImmediately_def
      ShouldExitImmediately_def IncreaseRequestCounter_def SetWorkerStatus_def
      BPSGIAtomicInt64_Read_def)

lemma sem_step_permits:
  assumes "sem_step sem a b" and "sem_vals (fst a) (sem_ptr sem) = Some n"
    and "n + length (snd a) = cap" and "cap \<le> SEM_VALUE_MAX"
  shows "\<exists>m. sem_vals (fst b) (sem_ptr sem) = Some m \<and> m + length (snd b) = cap"
  using assms
proof (cases rule: sem_step.cases)
  case (release p hs s s')
  then have "0 < length hs" by auto
  moreover from release assms(3) have "n + length hs = cap" by simp
  ultimately have "n < SEM_VALUE_MAX" using assms(4) by linarith
  with release assms(2) have n: "sem_vals s (sem_ptr sem) = Some n" "n < SEM_VALUE_MAX" by simp_all
  with release assms(3) Release_value [OF n] \<open>0 < length hs\<close> show ?thesis
    by (auto simp: length_remove1)
next
  case (other x s r s' hs)
  with assms do_op_sem_vals [of x s] show ?thesis by auto
qed (auto simp: Acquire_value TryAcquire_value split: if_splits)

lemma sem_reach_permits:
  assumes "sem_reach sem s0 a" and "sem_vals s0 (sem_ptr sem) = Some cap"
    and "cap \<le> SEM_VALUE_MAX"
  shows "\<exists>m. sem_vals (fst a) (sem_ptr sem) = Some m \<and> m + length (snd a) = cap"
  using assms
proof (induction rule: sem_reach.induct)
  case start
  then show ?case by simp
next
  case (step a b)
  then obtain m where "sem_vals (fst a) (sem_ptr sem) = Some m" "m + length (snd a) = cap"
    by auto
  with step sem_step_permits show ?case by blast
qed

text \<open>C15. Semaphores: however the processes' operations interleave, with whatever
  interruptions by signals, a semaphore created with a count of cap never has more than
  cap permits out; TryAcquire is refused exactly when all are out, and a process that holds
  a permit can release it without an error.\<close>

theorem semaphore_permits_bounded:
  assumes "sem_reach sem s0 (s, hs)" and "sem_vals s0 (sem_ptr sem) = Some cap"
    and "cap \<le> SEM_VALUE_MAX"
  shows "length hs \<le> cap
    \<and> fst (TryAcquire is sem s) = Ret (length hs < cap)
    \<and> (hs \<noteq> [] \<longrightarrow> fst (Release sem s) = Ret ())"
proof -
  obtain m where m: "sem_vals s (sem_ptr sem) = Some m" "m + length hs = cap"
    using sem_reach_permits [OF assms] by auto
  then have "hs \<noteq> [] \<Longrightarrow> m < SEM_VALUE_MAX"
    using assms(3) by (cases hs) auto
  with m show ?thesis
    by (auto simp: TryAcquire_value [OF m(1)] Release_value [OF m(1)])
qed

theorem semaphore_permits_bounded_witness:
  "\<exists>s. sem_reach \<lparr>sem_ptr = 16, sem_name = ''db''\<rparr>
        ((BPSGISharedMemory_new 4096)\<lparr>sem_vals := [16 \<mapsto> 1]\<rparr>) (s, [4])
     \<and> fst (TryAcquire [True] \<lparr>sem_ptr = 16, sem_name = ''db''\<rparr> s) = Ret False"
proof -
  let ?sem = "\<lparr>sem_ptr = 16, sem_name = ''db''\<rparr>"
  let ?init = "(BPSGISharedMemory_new 4096)\<lparr>sem_vals := [16 \<mapsto> 1]\<rparr>"
  let ?s = "?init\<lparr>sem_vals := [16 \<mapsto> 0]\<rparr>"
  have v: "sem_vals ?init (sem_ptr ?sem) = Some 1" by simp
  have "Acquire [True] ?sem ?init = (Ret (), ?s)"
    using Acquire_value [OF v, of "[True]"] by (simp del: Acquire.simps)
  then have r: "sem_reach ?sem ?init (?s, [4])"
    by (intro sem_reach.step [OF sem_reach.start] sem_step.acquire)
  have "1 \<le> SEM_VALUE_MAX" by (simp add: SEM_VALUE_MAX_def)
  from semaphore_permits_bounded [OF r v this, of "[True]"] r show ?thesis by auto
qed

end
