(* ===== verification/Bpsgi_Process.thy ===== *)
theory Bpsgi_Process
  imports Bpsgi_Shmem_Spec
begin

text \<open>
  The process: the fields of \<^verbatim>\<open>BPSGIMainApplication\<close>, the static variables of
  \<^verbatim>\<open>src/bladepsgi.cpp\<close> and \<^verbatim>\<open>src/worker.cpp\<close>, the signal state
  the kernel keeps for the process, and the boundary to everything outside of the program.

  The outside (the kernel, the C library where the program depends on its answer, the Perl
  interpreter, the other processes) is the \<open>script\<close>: the answers it will give, in order,
  with the signals that arrive and what other processes do to the shared segment in between. A
  call takes the next answer, after the handlers of the signals before it have run; with the
  script used up the process is \<open>Pending\<close>. Theorems quantify over all
  scripts. The \<open>trace\<close> lists the calls made so far, each answered fork followed by
  \<open>C_forked\<close> with the answer; calls whose result the program ignores are only recorded
  there.

  The theory also holds the signal handlers, since signals are delivered at the calls:
  \<^verbatim>\<open>KillProcessGroup\<close>, \<^verbatim>\<open>HandleParentSignal\<close> and the handlers of
  workers, the monitoring process and auxiliary processes; and the installation of handlers and
  the blocking of signals.
\<close>

section \<open>Types\<close>

text \<open>The calls Perl code makes on the objects BladePSGI gives it (XS.xs). A semaphore
  is created with the answer sem_init gives; waiting lists the interruptions.\<close>

datatype xs_op =
    XS_set_worker_status string
  | XS_fastcgi_listen_sockfd
  | XS_psgi_application_path
  | XS_psgi_application_loader
  | XS_is_worker
  | XS_request_auxiliary_process string nat
  | XS_new_semaphore string int "int \<times> int"
  | XS_new_atomic_int64 string int
  | XS_semaphore_acquire "bool list" BPSGISemaphore
  | XS_semaphore_tryacquire "bool list" BPSGISemaphore
  | XS_semaphore_release BPSGISemaphore
  | XS_atomic_int64_incr nat
  | XS_atomic_int64_fetch_add nat int
  | XS_atomic_int64_load nat
  | XS_atomic_int64_store nat int

text \<open>An answer: return value, errno, what the call writes through its pointer
  arguments (numbers, a text), and for a call into the Perl interpreter the calls the Perl code
  makes meanwhile.\<close>

record resp =
  r_ret :: int
  r_errno :: int
  r_outs :: "int list"
  r_text :: string
  r_xs :: "xs_op list"

text \<open>What another process does to the shared segment.\<close>

datatype peer_op = PeerOp shm_op | PeerAcquire BPSGISemaphore | PeerRelease BPSGISemaphore

text \<open>A signal comes with the answer the handler's write to the self-pipe will get.\<close>

datatype event = Resp resp | Sig int "int \<times> int" | Peer peer_op

datatype handler =
    SIG_DFL
  | SIG_IGN
  | Overseer_signal_handler
  | Worker_sigterm_handler
  | Worker_sigquit_handler
  | Monitoring_sigquit_handler
  | Auxiliary_sigquit_handler

datatype call =
    C_getpid
  | C_getppid
  | C_sigprocmask "int set"
  | C_sigaction int handler bool
  | C_prctl_pdeathsig int
  | C_prctl_name string
  | C_pipe
  | C_fcntl_getfl int
  | C_fcntl_setfl int int
  | C_read int nat
  | C_write int string
  | C_close int
  | C_mmap nat
  | C_socket
  | C_stat string
  | C_unlink string
  | C_bind int string
  | C_listen int int
  | C_accept int
  | C_shutdown int
  | C_select int int
  | C_fork
  | C_forked int
  | C_kill int int
  | C_waitpid
  | C_gettimeofday
  | C_time
  | C_perl_alloc
  | C_perl_parse
  | C_perl_run
  | C_perl_destroy
  | C_perl_eval string
  | C_perl_do string
  | C_perl_call nat

record BPSGI_Context =
  ctx_worker :: "nat option"

record BPSGIAuxiliaryProcess =
  aux_name :: string
  aux_callback :: nat
  aux_pid :: int

record mainapp =
  signal_mask_stack :: "int set list"
  argv :: "nat list"
  psgi_application_path :: string
  nworkers :: int
  application_loader :: "string option"
  fastcgi_socket_path :: string
  stats_socket_path :: string
  process_title_prefix :: string
  runner_pid :: int
  monitoring_process_pid :: int
  worker_pids :: "int list"
  auxiliary_pids :: "int list"
  auxiliary_processes :: "BPSGIAuxiliaryProcess list"
  shmem :: "shm option"
  fastcgi_sockfd :: int
  stats_sockfd :: int

text \<open>
  The state of one process. \<open>args_mem\<close> is the block of memory that holds the arguments and
  the environment, \<open>argv\<close> and \<open>environ0\<close> addresses in it; \<open>libc_strerror\<close> is the C
  library's table of error texts and \<open>sizeof_sem_t\<close> the size of its semaphores. The four
  \<^verbatim>\<open>sig_atomic_t\<close> flags of bladepsgi.cpp and the one of worker.cpp hold 0 or 1.
\<close>

record world =
  app :: mainapp
  mainapp_shutdown :: bool
  mainapp_fast_shutdown :: bool
  mainapp_smart_shutdown :: bool
  mainapp_force_fast_shutdown :: bool
  overseer_self_pipe :: "int \<times> int"
  has_perl_interpreter :: bool
  perl_ctx :: "BPSGI_Context option"
  worker_terminated :: bool
  sigmask :: "int set"
  sigpending :: "(int \<times> (int \<times> int)) list"
  handlers :: "int \<Rightarrow> handler"
  args_mem :: string
  environ0 :: nat
  libc_strerror :: "int \<Rightarrow> string"
  sizeof_sem_t :: size_t
  script :: "event list"
  trace :: "call list"

section \<open>Recording a call\<close>

definition emit :: "call \<Rightarrow> (world, unit) prog" where
  "emit c = modify (\<lambda>w. w\<lparr>trace := trace w @ [c]\<rparr>)"

fun emit_all :: "call list \<Rightarrow> (world, unit) prog" where
  "emit_all [] = ret ()"
| "emit_all (c # cs) = andThen (emit c) (emit_all cs)"

section \<open>Signal handlers\<close>

definition KillProcessGroup :: "int \<Rightarrow> (world, unit) prog" where
  "KillProcessGroup sig =
     andThen (Assert (sig = SIGQUIT \<or> sig = SIGTERM))
     (bind (gets app) (\<lambda>a.
      andThen (emit_all (map (\<lambda>pid. C_kill pid sig) (worker_pids a)))
        (if monitoring_process_pid a \<noteq> -1
         then emit (C_kill (monitoring_process_pid a) sig)
         else ret ())))"

text \<open>\<open>wr\<close> is the result of the handler's write to the self-pipe.\<close>

definition HandleParentSignal :: "int \<Rightarrow> int \<times> int \<Rightarrow> (world, unit) prog" where
  "HandleParentSignal sig wr =
     andThen
       (if sig = SIGQUIT then andThen (KillProcessGroup SIGQUIT) (halt (Exited 1))
        else if sig = SIGTERM then
          modify (\<lambda>w. w\<lparr>mainapp_smart_shutdown := True, mainapp_shutdown := True\<rparr>)
        else if sig = SIGINT then
          modify (\<lambda>w. w\<lparr>mainapp_fast_shutdown := True, mainapp_shutdown := True\<rparr>)
        else if sig = SIGCHLD then ret ()
        else halt Aborted)
     (bind (gets overseer_self_pipe) (\<lambda>p.
      andThen (emit (C_write (snd p) ''j''))
        (if fst wr \<noteq> 1 \<and> snd wr \<noteq> EAGAIN then
           andThen (emit (C_write 2 (''write() to self pipe failed'' @ [CHR 0x0A])))
             (halt (Exited 3))
         else ret ())))"

definition overseer_signal_handler :: "int \<Rightarrow> int \<times> int \<Rightarrow> (world, unit) prog" where
  "overseer_signal_handler sig wr = HandleParentSignal sig wr"

definition worker_sigterm_handler :: "(world, unit) prog" where
  "worker_sigterm_handler = modify (\<lambda>w. w\<lparr>worker_terminated := True\<rparr>)"

definition worker_sigquit_handler :: "(world, unit) prog" where
  "worker_sigquit_handler = halt (Exited 2)"

definition monitoring_sigquit_handler :: "(world, unit) prog" where
  "monitoring_sigquit_handler = halt (Exited 2)"

definition auxiliary_sigquit_handler :: "(world, unit) prog" where
  "auxiliary_sigquit_handler = halt (Exited 2)"

text \<open>The default action: SIGCHLD is ignored, the other signals of this program end the
  process.\<close>

fun run_handler :: "handler \<Rightarrow> int \<Rightarrow> int \<times> int \<Rightarrow> (world, unit) prog" where
  "run_handler SIG_DFL sig wr = (if sig = SIGCHLD then ret () else halt (KilledBy sig))"
| "run_handler SIG_IGN sig wr = ret ()"
| "run_handler Overseer_signal_handler sig wr = overseer_signal_handler sig wr"
| "run_handler Worker_sigterm_handler sig wr = worker_sigterm_handler"
| "run_handler Worker_sigquit_handler sig wr = worker_sigquit_handler"
| "run_handler Monitoring_sigquit_handler sig wr = monitoring_sigquit_handler"
| "run_handler Auxiliary_sigquit_handler sig wr = auxiliary_sigquit_handler"

text \<open>A blocked signal becomes pending, at most once per signal number. SIGKILL and SIGSTOP
  cannot be blocked or handled, whatever mask was asked for: the one ends the process, the other
  makes it stand still for a while.\<close>

definition deliver :: "int \<Rightarrow> int \<times> int \<Rightarrow> (world, unit) prog" where
  "deliver sig wr w =
     (if sig = SIGKILL then (Halt (KilledBy SIGKILL), w)
      else if sig = SIGSTOP then (Ret (), w)
      else if sig \<in> sigmask w
      then (Ret (), if sig \<in> set (map fst (sigpending w)) then w
                    else w\<lparr>sigpending := sigpending w @ [(sig, wr)]\<rparr>)
      else run_handler (handlers w sig) sig wr w)"

section \<open>Other processes\<close>

text \<open>The other processes share the segment and have its objects; nobody allocates any
  more once there are processes to share it with.\<close>

fun peer_step :: "peer_op \<Rightarrow> shm \<Rightarrow> shm" where
  "peer_step (PeerOp x) s = (if op_ok x s then snd (do_op x s) else s)"
| "peer_step (PeerAcquire sem) s = snd (TryAcquire [] sem s)"
| "peer_step (PeerRelease sem) s = snd (Release sem s)"

definition peer :: "peer_op \<Rightarrow> world \<Rightarrow> world" where
  "peer x w = w\<lparr>app := (app w)\<lparr>shmem := map_option (peer_step x) (shmem (app w))\<rparr>\<rparr>"

section \<open>Calls\<close>

text \<open>What the trace says about an answered call.\<close>

definition recorded :: "call \<Rightarrow> resp \<Rightarrow> call list" where
  "recorded c r = (if c = C_fork then [C_fork, C_forked (r_ret r)] else [c])"

lemma recorded_simps [simp]: "recorded C_fork r = [C_fork, C_forked (r_ret r)]"
  "c \<noteq> C_fork \<Longrightarrow> recorded c r = [c]"
  by (simp_all add: recorded_def)

fun answer :: "call \<Rightarrow> event list \<Rightarrow> (world, resp) prog" where
  "answer c [] = (\<lambda>w. (Pending, w\<lparr>script := [], trace := trace w @ [c]\<rparr>))"
| "answer c (Resp r # es) = (\<lambda>w. (Ret r, w\<lparr>script := es, trace := trace w @ recorded c r\<rparr>))"
| "answer c (Sig sig wr # es) =
     andThen (modify (\<lambda>w. w\<lparr>script := es\<rparr>)) (andThen (deliver sig wr) (answer c es))"
| "answer c (Peer x # es) = (\<lambda>w. answer c es (peer x (w\<lparr>script := es\<rparr>)))"

definition sys :: "call \<Rightarrow> (world, resp) prog" where
  "sys c w = answer c (script w) w"

definition out :: "resp \<Rightarrow> nat \<Rightarrow> int" where
  "out r k = (if k < length (r_outs r) then r_outs r ! k else 0)"

section \<open>Dispositions and masks\<close>

definition SetSignalHandler :: "int \<Rightarrow> handler \<Rightarrow> (world, unit) prog" where
  "SetSignalHandler signum h =
     bind (sys (C_sigaction signum h (signum = SIGCHLD))) (\<lambda>r.
     if r_ret r = -1 then throw_errno ''sigaction'' (r_errno r)
     else modify (\<lambda>w. w\<lparr>handlers := (handlers w)(signum := h)\<rparr>))"

definition BlockSignals :: "(world, unit) prog" where
  "BlockSignals =
     bind (sys (C_sigprocmask UNIV)) (\<lambda>r.
     if r_ret r = -1 then throw_errno ''sigprocmask'' (r_errno r)
     else modify (\<lambda>w. w\<lparr>sigmask := UNIV,
        app := (app w)\<lparr>signal_mask_stack := signal_mask_stack (app w) @ [sigmask w]\<rparr>\<rparr>))"

fun deliver_all :: "(int \<times> (int \<times> int)) list \<Rightarrow> (world, unit) prog" where
  "deliver_all [] = ret ()"
| "deliver_all ((sig, wr) # ps) = andThen (deliver sig wr) (deliver_all ps)"

text \<open>Changing the mask delivers the pending signals it unblocks.\<close>

definition set_sigmask :: "int set \<Rightarrow> (world, unit) prog" where
  "set_sigmask m =
     andThen (emit (C_sigprocmask m))
     (bind (gets sigpending) (\<lambda>ps.
      andThen (modify (\<lambda>w. w\<lparr>sigmask := m, sigpending := []\<rparr>)) (deliver_all ps)))"

definition UnblockSignals :: "(world, unit) prog" where
  "UnblockSignals =
     bind (gets (\<lambda>w. signal_mask_stack (app w))) (\<lambda>st.
     case st of
       [] \<Rightarrow> throw (LogicError ''UnblockSignals called but signal_mask_stack_ is empty'')
     | m # rest \<Rightarrow>
         andThen (modify (\<lambda>w. w\<lparr>app := (app w)\<lparr>signal_mask_stack := rest\<rparr>\<rparr>))
           (set_sigmask m))"

section \<open>The shared segment of the process\<close>

text \<open>Code of the shared memory object, run through the application's pointer; a null
  pointer is a fault.\<close>

definition on_shmem :: "(shm, 'a) prog \<Rightarrow> (world, 'a) prog" where
  "on_shmem m w = (case shmem (app w) of
      None \<Rightarrow> (Halt Segfault, w)
    | Some s \<Rightarrow> (case m s of (r, s') \<Rightarrow> (r, w\<lparr>app := (app w)\<lparr>shmem := Some s'\<rparr>\<rparr>)))"

definition app_SetShouldExitImmediately :: "(world, bool) prog" where
  "app_SetShouldExitImmediately =
     bind (gets (\<lambda>w. shmem (app w))) (\<lambda>s.
     case s of None \<Rightarrow> ret True | Some _ \<Rightarrow> on_shmem SetShouldExitImmediately)"

section \<open>What a call can change\<close>

text \<open>Other processes do not allocate, and never take back that everybody should
  exit.\<close>

definition peers_ext :: "shm \<Rightarrow> shm \<Rightarrow> bool" where
  "peers_ext s s' \<longleftrightarrow> shmem_size s' = shmem_size s \<and> locked s' = locked s
     \<and> next_user_available_offset s' = next_user_available_offset s
     \<and> semaphores s' = semaphores s \<and> atomics s' = atomics s
     \<and> (\<forall>ssz. shared_inv ssz s \<longrightarrow> shared_inv ssz s' \<and> (segment s 0 \<noteq> 0 \<longrightarrow> segment s' 0 \<noteq> 0))"

lemma peers_ext_refl [simp]: "peers_ext s s"
  by (simp add: peers_ext_def)

lemma peers_ext_trans: "peers_ext s s1 \<Longrightarrow> peers_ext s1 s2 \<Longrightarrow> peers_ext s s2"
  unfolding peers_ext_def by metis

lemma do_op_objects:
  "shmem_size (snd (do_op x s)) = shmem_size s \<and> locked (snd (do_op x s)) = locked s
   \<and> next_user_available_offset (snd (do_op x s)) = next_user_available_offset s
   \<and> semaphores (snd (do_op x s)) = semaphores s \<and> atomics (snd (do_op x s)) = atomics s"
  by (cases x) (auto simp: tag_def prog_defs access_defs SetShouldExitImmediately_def
      ShouldExitImmediately_def IncreaseRequestCounter_def SetWorkerStatus_def
      BPSGIAtomicInt64_Read_def)

lemma spec_exit_monotone: "a_exit a \<Longrightarrow> a_exit (snd (spec_op x a))"
  by (cases x) auto

lemma do_op_peers:
  assumes "op_ok x s"
  shows "peers_ext s (snd (do_op x s))"
proof -
  have "shared_inv ssz (snd (do_op x s)) \<and> (segment s 0 \<noteq> 0 \<longrightarrow> segment (snd (do_op x s)) 0 \<noteq> 0)"
    if inv: "shared_inv ssz s" for ssz
  proof -
    obtain r s' where "do_op x s = (Ret r, s')" "shared_inv ssz s'"
        "spec_op x (abs_shm s) = (r, abs_shm s')"
      using do_op_refines [OF inv assms] by blast
    then show ?thesis using spec_exit_monotone [of "abs_shm s" x] by simp
  qed
  with do_op_objects [of x s] show ?thesis by (simp add: peers_ext_def)
qed

lemma sem_peers: "sem_vals s p = Some n \<Longrightarrow> peers_ext s (s\<lparr>sem_vals := (sem_vals s)(p := Some k)\<rparr>)"
  by (auto simp: peers_ext_def shared_inv_def shm_wf_def list_all_iff)

lemma peer_step_ext: "peers_ext s (peer_step x s)"
proof (cases x)
  case (PeerAcquire sem)
  then show ?thesis by (auto simp: prog_defs libc_sem_defs errno_defs sem_peers split: option.split)
next
  case (PeerRelease sem)
  then show ?thesis
    by (auto simp: prog_defs Release_def libc_sem_defs sem_peers split: option.split)
qed (simp add: do_op_peers)

definition same_app :: "mainapp \<Rightarrow> mainapp \<Rightarrow> bool" where
  "same_app a a' \<longleftrightarrow> a' = a\<lparr>shmem := shmem a'\<rparr> \<and> rel_option peers_ext (shmem a) (shmem a')"

lemma same_app_refl [simp]: "same_app a a"
  by (simp add: same_app_def option.rel_refl)

lemma same_app_trans:
  assumes "same_app a a1" and "same_app a1 a2"
  shows "same_app a a2"
proof -
  have "rel_option peers_ext (shmem a) (shmem a1)" "rel_option peers_ext (shmem a1) (shmem a2)"
    using assms unfolding same_app_def by blast+
  then have "rel_option peers_ext (shmem a) (shmem a2)"
    by (auto elim!: option.rel_cases intro: peers_ext_trans)
  moreover obtain x y where "a1 = a\<lparr>shmem := x\<rparr>" "a2 = a1\<lparr>shmem := y\<rparr>"
    using assms unfolding same_app_def by blast
  then have "a2 = a\<lparr>shmem := shmem a2\<rparr>" by simp
  ultimately show ?thesis unfolding same_app_def by blast
qed

lemma same_app_sel:
  assumes "same_app a a'"
  shows "signal_mask_stack a' = signal_mask_stack a" "argv a' = argv a"
    "psgi_application_path a' = psgi_application_path a" "nworkers a' = nworkers a"
    "application_loader a' = application_loader a" "fastcgi_socket_path a' = fastcgi_socket_path a"
    "stats_socket_path a' = stats_socket_path a" "process_title_prefix a' = process_title_prefix a"
    "runner_pid a' = runner_pid a" "monitoring_process_pid a' = monitoring_process_pid a"
    "worker_pids a' = worker_pids a" "auxiliary_pids a' = auxiliary_pids a"
    "auxiliary_processes a' = auxiliary_processes a" "fastcgi_sockfd a' = fastcgi_sockfd a"
    "stats_sockfd a' = stats_sockfd a"
proof -
  obtain x where "a' = a\<lparr>shmem := x\<rparr>" using assms unfolding same_app_def by blast
  then show "signal_mask_stack a' = signal_mask_stack a" "argv a' = argv a"
    "psgi_application_path a' = psgi_application_path a" "nworkers a' = nworkers a"
    "application_loader a' = application_loader a" "fastcgi_socket_path a' = fastcgi_socket_path a"
    "stats_socket_path a' = stats_socket_path a" "process_title_prefix a' = process_title_prefix a"
    "runner_pid a' = runner_pid a" "monitoring_process_pid a' = monitoring_process_pid a"
    "worker_pids a' = worker_pids a" "auxiliary_pids a' = auxiliary_pids a"
    "auxiliary_processes a' = auxiliary_processes a" "fastcgi_sockfd a' = fastcgi_sockfd a"
    "stats_sockfd a' = stats_sockfd a"
    by simp_all
qed

text \<open>The handlers that return only raise flags, write to the self-pipe and keep signals
  pending; everything else of the process is untouched.\<close>

definition same_static :: "world \<Rightarrow> world \<Rightarrow> bool" where
  "same_static w w' \<longleftrightarrow> same_app (app w) (app w') \<and> overseer_self_pipe w' = overseer_self_pipe w
     \<and> has_perl_interpreter w' = has_perl_interpreter w \<and> perl_ctx w' = perl_ctx w
     \<and> sigmask w' = sigmask w \<and> handlers w' = handlers w \<and> args_mem w' = args_mem w
     \<and> environ0 w' = environ0 w \<and> libc_strerror w' = libc_strerror w
     \<and> sizeof_sem_t w' = sizeof_sem_t w
     \<and> mainapp_force_fast_shutdown w' = mainapp_force_fast_shutdown w"

definition flags_raised :: "world \<Rightarrow> world \<Rightarrow> bool" where
  "flags_raised w w' \<longleftrightarrow> (mainapp_shutdown w \<longrightarrow> mainapp_shutdown w')
     \<and> (mainapp_fast_shutdown w \<longrightarrow> mainapp_fast_shutdown w')
     \<and> (mainapp_smart_shutdown w \<longrightarrow> mainapp_smart_shutdown w')
     \<and> (worker_terminated w \<longrightarrow> worker_terminated w')"

definition pipe_writes :: "world \<Rightarrow> nat \<Rightarrow> call list" where
  "pipe_writes w n = replicate n (C_write (snd (overseer_self_pipe w)) ''j'')"

definition same_flags :: "world \<Rightarrow> world \<Rightarrow> bool" where
  "same_flags w w' \<longleftrightarrow> mainapp_shutdown w' = mainapp_shutdown w
     \<and> mainapp_fast_shutdown w' = mainapp_fast_shutdown w
     \<and> mainapp_smart_shutdown w' = mainapp_smart_shutdown w
     \<and> worker_terminated w' = worker_terminated w"

definition signal_ext :: "world \<Rightarrow> world \<Rightarrow> bool" where
  "signal_ext w w' \<longleftrightarrow> same_static w w' \<and> flags_raised w w'
     \<and> (\<exists>n. trace w' = trace w @ pipe_writes w n)
     \<and> (sigmask w = UNIV \<longrightarrow> trace w' = trace w \<and> same_flags w w')"

lemmas frame_defs = signal_ext_def same_static_def flags_raised_def same_flags_def pipe_writes_def

lemma signal_ext_refl [simp]: "signal_ext w w"
  by (auto simp: frame_defs intro: exI [of _ 0])

lemma same_static_refl [simp]: "same_static w w"
  by (simp add: same_static_def)

lemma same_static_trans: "same_static w w1 \<Longrightarrow> same_static w1 w2 \<Longrightarrow> same_static w w2"
  by (simp add: same_static_def) (metis same_app_trans)

lemma flags_raised_trans: "flags_raised w w1 \<Longrightarrow> flags_raised w1 w2 \<Longrightarrow> flags_raised w w2"
  by (simp add: flags_raised_def)

lemma pipe_writes_same: "same_static w w1 \<Longrightarrow> pipe_writes w1 n = pipe_writes w n"
  by (simp add: same_static_def pipe_writes_def)

lemma signal_ext_trans:
  assumes "signal_ext w w1" and "signal_ext w1 w2"
  shows "signal_ext w w2"
proof -
  have st: "same_static w w1" "same_static w1 w2" and fl: "flags_raised w w1" "flags_raised w1 w2"
    using assms by (simp_all add: signal_ext_def)
  obtain m where m: "trace w1 = trace w @ pipe_writes w m"
    using assms(1) by (auto simp: signal_ext_def)
  obtain n where n: "trace w2 = trace w1 @ pipe_writes w n"
    using assms(2) pipe_writes_same [OF st(1)] by (auto simp: signal_ext_def)
  from m n have "trace w2 = trace w @ pipe_writes w (m + n)"
    by (simp add: pipe_writes_def replicate_add)
  moreover have "sigmask w = UNIV \<Longrightarrow> trace w2 = trace w \<and> same_flags w w2"
    using assms st(1) unfolding signal_ext_def same_static_def by (simp add: same_flags_def)
  ultimately show ?thesis
    using same_static_trans [OF st] flags_raised_trans [OF fl] unfolding signal_ext_def by blast
qed

lemma signal_ext_script [simp]: "signal_ext (w\<lparr>script := es\<rparr>) w' = signal_ext w w'"
  by (simp add: frame_defs)

lemma peer_ext: "signal_ext w (peer x w)" "script (peer x w) = script w" "sigmask (peer x w) = sigmask w"
  by (auto simp: peer_def frame_defs same_app_def option.rel_map peer_step_ext
      intro: exI [of _ 0] option.rel_refl)

lemma peer_static: "same_static w (peer x (w\<lparr>script := es\<rparr>))"
  using peer_ext(1) [of "w\<lparr>script := es\<rparr>" x] by (simp add: signal_ext_def same_static_def)

lemma emit_all_eq: "emit_all cs w = (Ret (), w\<lparr>trace := trace w @ cs\<rparr>)"
  by (induction cs arbitrary: w) (auto simp: prog_defs emit_def)

lemma deliver_Ret:
  assumes "deliver sig wr w = (Ret u, w')"
  shows "signal_ext w w' \<and> script w' = script w"
proof (cases "sig \<in> sigmask w")
  case True
  with assms show ?thesis
    by (auto simp: deliver_def frame_defs intro: exI [of _ 0] split: if_splits)
next
  case False
  then have "sigmask w \<noteq> UNIV" by auto
  with False assms show ?thesis
    by (cases "handlers w sig")
      (auto simp: deliver_def prog_defs overseer_signal_handler_def HandleParentSignal_def
        worker_sigterm_handler_def worker_sigquit_handler_def monitoring_sigquit_handler_def
        auxiliary_sigquit_handler_def emit_def frame_defs split: if_splits prod.splits outcome.splits
        intro: exI [of _ 0] exI [of _ 1])
qed

lemma deliver_not_Throw: "deliver sig wr w \<noteq> (Throw e, w')" "deliver sig wr w \<noteq> (Pending, w')"
  by (cases "handlers w sig";
      auto simp: deliver_def prog_defs overseer_signal_handler_def HandleParentSignal_def
        KillProcessGroup_def emit_all_eq emit_def
        worker_sigterm_handler_def worker_sigquit_handler_def monitoring_sigquit_handler_def
        auxiliary_sigquit_handler_def split: if_splits)+

text \<open>A call that is answered: the signals before the answer have been handled, the call
  is the last one of the trace, and exactly what came up to the answer is gone from the script.\<close>

fun interlude :: "event \<Rightarrow> bool" where
  "interlude (Resp r) = False"
| "interlude _ = True"

lemma answer_Ret:
  assumes "answer c es w = (Ret r, w')"
  shows "\<exists>w1 ss es'. signal_ext w w1 \<and> w' = w1\<lparr>script := es', trace := trace w1 @ recorded c r\<rparr>
           \<and> es = ss @ Resp r # es' \<and> list_all interlude ss"
  using assms
proof (induction c es arbitrary: w rule: answer.induct)
  case (1 c)
  then show ?case by simp
next
  case (2 c q es)
  then have "signal_ext w w \<and> w' = w\<lparr>script := es, trace := trace w @ recorded c r\<rparr>
      \<and> Resp q # es = [] @ Resp r # es \<and> list_all interlude []" by auto
  then show ?case by blast
next
  case (3 c sig wr es)
  then obtain w1 where d: "deliver sig wr (w\<lparr>script := es\<rparr>) = (Ret (), w1)"
    and a: "answer c es w1 = (Ret r, w')"
    by (auto simp: prog_defs split: prod.splits outcome.splits)
  have "signal_ext w w1" using deliver_Ret [OF d] by simp
  moreover obtain w2 ss es' where "signal_ext w1 w2"
      "w' = w2\<lparr>script := es', trace := trace w2 @ recorded c r\<rparr>"
      "es = ss @ Resp r # es'" "list_all interlude ss"
    using "3.IH" [OF a] by blast
  ultimately have "signal_ext w w2 \<and> w' = w2\<lparr>script := es', trace := trace w2 @ recorded c r\<rparr>
      \<and> Sig sig wr # es = (Sig sig wr # ss) @ Resp r # es' \<and> list_all interlude (Sig sig wr # ss)"
    using signal_ext_trans [of w w1 w2] by simp
  then show ?case by blast
next
  case (4 c x es)
  then have "answer c es (peer x (w\<lparr>script := es\<rparr>)) = (Ret r, w')" by simp
  from "4.IH" [OF this] obtain w1 ss es' where "signal_ext (peer x (w\<lparr>script := es\<rparr>)) w1"
      "w' = w1\<lparr>script := es', trace := trace w1 @ recorded c r\<rparr>"
      "es = ss @ Resp r # es'" "list_all interlude ss"
    by blast
  moreover have "signal_ext w (peer x (w\<lparr>script := es\<rparr>))"
    using peer_ext(1) [of "w\<lparr>script := es\<rparr>" x] by simp
  ultimately have "signal_ext w w1 \<and> w' = w1\<lparr>script := es', trace := trace w1 @ recorded c r\<rparr>
      \<and> Peer x # es = (Peer x # ss) @ Resp r # es' \<and> list_all interlude (Peer x # ss)"
    using signal_ext_trans by auto
  then show ?case by blast
qed

lemma sys_Ret:
  assumes "sys c w = (Ret r, w')"
  obtains w1 ss es where "signal_ext w w1" "w' = w1\<lparr>script := es, trace := trace w1 @ recorded c r\<rparr>"
    "script w = ss @ Resp r # es" "list_all interlude ss"
  using answer_Ret [OF assms [unfolded sys_def]] that by blast

lemma answer_not_Throw: "answer c es w \<noteq> (Throw e, w')"
proof (induction c es arbitrary: w rule: answer.induct)
  case (3 c sig wr es)
  then show ?case
    using deliver_not_Throw by (auto simp: prog_defs split: prod.splits outcome.splits)
qed simp_all

lemma sys_not_Throw [simp]: "sys c w \<noteq> (Throw e, w')"
  by (simp add: sys_def answer_not_Throw)

lemma sys_static: "sys c w = (Ret r, w') \<Longrightarrow> same_static w w'"
  by (erule sys_Ret) (simp add: signal_ext_def same_static_def)

lemma sys_flags: "sys c w = (Ret r, w') \<Longrightarrow> flags_raised w w'"
  by (erule sys_Ret) (simp add: signal_ext_def flags_raised_def)

lemma sys_shrinks: "sys c w = (Ret r, w') \<Longrightarrow> length (script w') < length (script w)"
  by (erule sys_Ret) simp

lemma sys_script:
  assumes "sys c w = (Ret r, w')"
  obtains ss where "script w = ss @ Resp r # script w'" "list_all interlude ss"
  using assms by (elim sys_Ret) simp

lemma sys_trace:
  assumes "sys c w = (Ret r, w')"
  obtains n where "trace w' = trace w @ pipe_writes w n @ recorded c r"
  using assms by (elim sys_Ret) (auto simp: signal_ext_def)

text \<open>With every signal blocked a call changes nothing but the script, the trace and the
  pending signals.\<close>

lemma sys_blocked:
  assumes "sys c w = (Ret r, w')" and "sigmask w = UNIV"
  shows "trace w' = trace w @ recorded c r \<and> same_flags w w'"
proof -
  obtain w1 es where "signal_ext w w1" "w' = w1\<lparr>script := es, trace := trace w1 @ recorded c r\<rparr>"
    using assms(1) by (rule sys_Ret)
  with assms(2) show ?thesis by (simp add: signal_ext_def same_flags_def)
qed

text \<open>However a call ends, it leaves the static part of the process alone, and it never
  faults.\<close>

lemma deliver_static_all:
  "same_static w (snd (deliver sig wr w)) \<and> fst (deliver sig wr w) \<noteq> Halt Segfault"
proof (cases "sig \<in> sigmask w")
  case True
  then show ?thesis by (simp add: deliver_def same_static_def)
next
  case False
  then show ?thesis
    by (cases "handlers w sig")
      (auto simp: deliver_def prog_defs overseer_signal_handler_def HandleParentSignal_def
        KillProcessGroup_def emit_all_eq emit_def same_static_def
        worker_sigterm_handler_def worker_sigquit_handler_def monitoring_sigquit_handler_def
        auxiliary_sigquit_handler_def)
qed

lemma answer_static_all:
  "same_static w (snd (answer c es w)) \<and> fst (answer c es w) \<noteq> Halt Segfault"
proof (induction c es arbitrary: w rule: answer.induct)
  case (3 c sig wr es)
  obtain q w1 where d: "deliver sig wr (w\<lparr>script := es\<rparr>) = (q, w1)" by fastforce
  then have st: "same_static w w1" "q \<noteq> Halt Segfault"
    using deliver_static_all [of "w\<lparr>script := es\<rparr>" sig wr] by (simp_all add: same_static_def)
  show ?case
  proof (cases q)
    case (Ret u)
    with d have "answer c (Sig sig wr # es) w = answer c es w1"
      by (simp add: andThen_def bind_def modify_def)
    with 3 [of w1] st show ?thesis by (auto intro: same_static_trans)
  qed (use d st in \<open>auto simp: andThen_def bind_def modify_def\<close>)
next
  case (4 c x es)
  then show ?case using peer_static same_static_trans by fastforce
qed (simp_all add: same_static_def)

lemma sys_static_all: "same_static w (snd (sys c w))" "fst (sys c w) \<noteq> Halt Segfault"
  using answer_static_all by (simp_all add: sys_def)

section \<open>Running a program\<close>

text \<open>Rewriting with these facts runs a program on a state with a concrete script.\<close>

lemma sys_Resp: "script w = Resp r # es \<Longrightarrow> sys c w = (Ret r, w\<lparr>script := es, trace := trace w @ recorded c r\<rparr>)"
  by (simp add: sys_def)

lemmas run_defs = prog_defs emit_def out_def on_shmem_def sys_def
lemmas signal_run_defs = deliver_def overseer_signal_handler_def HandleParentSignal_def
  KillProcessGroup_def signal_defs errno_defs

end
