(* ===== verification/Bpsgi_Log.thy ===== *)
theory Bpsgi_Log
  imports Bpsgi_Process
begin

text \<open>
  Logging, process titles and the initialization every subprocess starts with:
  \<^verbatim>\<open>Log\<close>, \<^verbatim>\<open>LogPanic\<close>, \<^verbatim>\<open>SetProcessTitle\<close> and
  \<^verbatim>\<open>SubprocessInit\<close> of \<^verbatim>\<open>src/bladepsgi.cpp\<close>.
\<close>

section \<open>The log\<close>

datatype LogSeverity = LS_LOG | LS_WARNING | LS_ERROR | LS_FATAL | LS_PANIC

fun severity_prefix :: "LogSeverity \<Rightarrow> string" where
  "severity_prefix LS_LOG = ''LOG:  ''"
| "severity_prefix LS_WARNING = ''WARNING:  ''"
| "severity_prefix LS_ERROR = ''ERROR:  ''"
| "severity_prefix LS_FATAL = ''FATAL:  ''"
| "severity_prefix LS_PANIC = ''PANIC:  ''"

text \<open>\<^verbatim>\<open>%0nd\<close>: the sign, then the digits, zero-padded to the width.\<close>

definition printf_0d :: "nat \<Rightarrow> int \<Rightarrow> string" where
  "printf_0d width i =
     (let ds = string_of_nat (nat \<bar>i\<bar>) in
      if i < 0 then CHR ''-'' # replicate (width - 1 - length ds) CHR ''0'' @ ds
      else replicate (width - length ds) CHR ''0'' @ ds)"

text \<open>The answer to \<^verbatim>\<open>gettimeofday\<close> and \<^verbatim>\<open>localtime\<close> is the
  list of tm_year, tm_mon, tm_mday, tm_hour, tm_min, tm_sec and tv_usec. The milliseconds are
  computed in double precision in the source; for every microsecond value from 0 to 999999 that
  is the quotient by 1000.\<close>

definition log_timestamp :: "resp \<Rightarrow> string" where
  "log_timestamp r =
     printf_0d 4 (out r 0 + 1900) @ ''-'' @ printf_0d 2 (out r 1 + 1) @ ''-'' @ printf_0d 2 (out r 2)
     @ '' '' @ printf_0d 2 (out r 3) @ '':'' @ printf_0d 2 (out r 4) @ '':'' @ printf_0d 2 (out r 5)
     @ ''.'' @ printf_0d 3 (out r 6 div 1000) @ '' ''"

definition Log :: "LogSeverity \<Rightarrow> string \<Rightarrow> (world, unit) prog" where
  "Log severity msg =
     bind (sys C_gettimeofday) (\<lambda>r.
     if r_ret r \<noteq> 0 then throw_errno ''gettimeofday'' (r_errno r)
     else if 40 \<le> length (log_timestamp r)
     then throw (LogicError ''unexpected snprintf return value'')
     else emit (C_write 2 (log_timestamp r @ severity_prefix severity
                  @ vsnprintf_buf 2048 msg @ [CHR 0x0A])))"

definition LogPanic :: "string \<Rightarrow> (world, unit) prog" where
  "LogPanic msg = halt Aborted"

section \<open>Process titles\<close>

definition strlen :: "string \<Rightarrow> nat \<Rightarrow> nat" where
  "strlen m a = length (c_str (drop a m))"

text \<open>The loop over the arguments: as long as an argument starts right behind the NUL of
  the one before, the end moves to the end of that argument.\<close>

fun title_end :: "string \<Rightarrow> nat \<Rightarrow> nat list \<Rightarrow> nat" where
  "title_end m e [] = e"
| "title_end m e (a # as) = (if e + 1 = a then title_end m (a + strlen m a) as else e)"

definition resize :: "string \<Rightarrow> nat \<Rightarrow> string" where
  "resize s n = take n s @ replicate (n - length s) CHR 0x00"

definition memcpy_args :: "nat \<Rightarrow> string \<Rightarrow> (world, unit) prog" where
  "memcpy_args a s w =
     (if a + length s \<le> length (args_mem w)
      then (Ret (), w\<lparr>args_mem := take a (args_mem w) @ s @ drop (a + length s) (args_mem w)\<rparr>)
      else (Halt Segfault, w))"

definition title_layout :: "world \<Rightarrow> nat \<times> size_t \<times> bool" where
  "title_layout w =
     (let m = args_mem w;
          a0 = hd (argv (app w));
          e = title_end m (a0 + strlen m a0) (tl (argv (app w)));
          into_environ = (environ0 w = e + 1)
      in (e, if into_environ then of_nat (e - a0) - 1 else of_nat (e - a0), into_environ))"

definition SetProcessTitle :: "string \<Rightarrow> (world, unit) prog" where
  "SetProcessTitle value =
     bind (gets (\<lambda>w. (hd (argv (app w)), title_layout w, process_title_prefix (app w))))
     (\<lambda>(a0, (e, maxlen, into_environ), prefix).
      andThen (if into_environ then memcpy_args e '' '' else ret ())
      (let full_title = prefix @ '': '' @ value;
           new_title = resize (take (unat maxlen) full_title) (unat (maxlen + 1))
       in andThen (memcpy_args a0 new_title)
          (bind (sys (C_prctl_name full_title)) (\<lambda>r.
           if r_ret r \<noteq> 0 then throw_errno ''prctl'' (r_errno r) else ret ()))))"

datatype BPSGISubprocessInitFlags = SUBP_DEFAULT_FLAGS | SUBP_NO_DEATHSIG

definition SubprocessInit :: "string \<Rightarrow> BPSGISubprocessInitFlags \<Rightarrow> (world, unit) prog" where
  "SubprocessInit new_process_title flags =
     andThen
       (if flags \<noteq> SUBP_NO_DEATHSIG then
          bind (sys (C_prctl_pdeathsig SIGQUIT)) (\<lambda>r.
          if r_ret r = -1 then
            bind (gets libc_strerror) (\<lambda>strerror.
            Log LS_WARNING (''prctl() failed: '' @ strerror (r_errno r)))
          else ret ())
        else ret ())
     (SetProcessTitle new_process_title)"

section \<open>Where titles are written\<close>

lemma Log_Ret_static: "Log s m w = (Ret u, w') \<Longrightarrow> same_static w w'"
  by (auto simp: Log_def emit_def same_static_def modify_def throw_def
      elim!: bind_eq_RetE dest!: sys_static split: if_splits)

lemma title_end_mono: "e \<le> title_end m e as"
  by (induction m e as rule: title_end.induct) auto

lemma title_end_bound:
  "e < length m \<Longrightarrow> \<forall>a \<in> set as. a + strlen m a < length m \<Longrightarrow> title_end m e as < length m"
  by (induction m e as rule: title_end.induct) auto

text \<open>The arguments are NUL-terminated strings of the block.\<close>

definition args_ok :: "world \<Rightarrow> bool" where
  "args_ok w \<longleftrightarrow> argv (app w) \<noteq> [] \<and> length (args_mem w) < 2 ^ 63
     \<and> (\<forall>a \<in> set (argv (app w)). a + strlen (args_mem w) a < length (args_mem w))"

abbreviation title_start :: "world \<Rightarrow> nat" where
  "title_start w \<equiv> hd (argv (app w))"

abbreviation title_stop :: "world \<Rightarrow> nat" where
  "title_stop w \<equiv> fst (title_layout w)"

lemma title_layout_bounds:
  assumes "args_ok w"
  shows "title_start w \<le> title_stop w \<and> title_stop w < length (args_mem w)"
proof -
  let ?m = "args_mem w" and ?a = "title_start w"
  have "?a + strlen ?m ?a < length ?m" and "\<forall>a \<in> set (tl (argv (app w))). a + strlen ?m a < length ?m"
    using assms by (auto simp: args_ok_def dest: list.set_sel)
  from title_end_bound [OF this] title_end_mono [of "?a + strlen ?m ?a" ?m "tl (argv (app w))"]
  show ?thesis by (simp add: title_layout_def Let_def)
qed

text \<open>The number of bytes the new title occupies, the terminating NUL included.\<close>

lemma title_length:
  assumes "args_ok w" and "title_layout w = (e, maxlen, into_environ)"
  shows "unat (maxlen + 1) = e - title_start w + (if into_environ then 0 else 1)"
    and "title_start w < e \<or> \<not> into_environ \<Longrightarrow> unat maxlen + 1 = unat (maxlen + 1)"
proof -
  let ?n = "e - title_start w"
  have e: "title_start w \<le> e" "e < length (args_mem w)"
    using title_layout_bounds [OF assms(1)] assms(2) by simp_all
  moreover have "length (args_mem w) < 2 ^ 63" using assms(1) by (simp add: args_ok_def)
  ultimately have n: "?n < 2 ^ 63" by linarith
  then have u: "unat (of_nat ?n :: size_t) = ?n" "unat (of_nat ?n + 1 :: size_t) = ?n + 1"
    by (simp_all add: unat_of_nat unat_word_ariths)
  have m: "maxlen = (if into_environ then of_nat ?n - 1 else of_nat ?n)"
    using assms(2) by (auto simp: title_layout_def Let_def)
  show "unat (maxlen + 1) = ?n + (if into_environ then 0 else 1)"
    using u m by simp
  assume "title_start w < e \<or> \<not> into_environ"
  moreover have "0 < ?n \<Longrightarrow> unat (of_nat ?n - 1 :: size_t) = ?n - 1"
    using u(1) by (subst unat_sub) (auto simp: word_le_nat_alt)
  ultimately show "unat maxlen + 1 = unat (maxlen + 1)"
    using u m by auto
qed

lemma length_resize [simp]: "length (resize s n) = n"
  by (simp add: resize_def)

lemma memcpy_args_ok:
  assumes "a + length s \<le> length (args_mem w)"
  shows "\<exists>w'. memcpy_args a s w = (Ret (), w') \<and> length (args_mem w') = length (args_mem w)
    \<and> (\<forall>i < length (args_mem w). i < a \<or> a + length s \<le> i \<longrightarrow> args_mem w' ! i = args_mem w ! i)
    \<and> take (length s) (drop a (args_mem w')) = s \<and> app w' = app w"
  using assms by (auto simp: memcpy_args_def nth_append)

text \<open>The title is a C string: nothing of it lies behind a NUL.\<close>

lemma c_str_title:
  assumes "CHR 0x00 \<notin> set s" and "take (k + 1) m = resize (take k s) (k + 1)" and "k < length m"
  shows "c_str m = take k s"
proof -
  have "m = take (k + 1) m @ drop (k + 1) m" by simp
  also have "take (k + 1) m = take k s @ replicate (Suc (k - length (take k s))) CHR 0x00"
    using assms(2) by (auto simp: resize_def min_def Suc_diff_le)
  finally have "m = take k s @ CHR 0x00 # (replicate (k - length (take k s)) CHR 0x00 @ drop (k + 1) m)"
    by simp
  moreover have "CHR 0x00 \<notin> set (take k s)" using assms(1) by (auto dest: in_set_takeD)
  ultimately show ?thesis using c_str_no_nul by metis
qed

text \<open>C31. SetProcessTitle stays inside the memory of the program's arguments: however it
  ends it has not faulted, every byte before argv[0] or behind the last contiguous argument's
  terminator is as before, and, when there is room for a character, argv[0] is then the C
  string of the prefix, a colon, a space and the title, cut to the available length.\<close>

theorem SetProcessTitle_in_bounds:
  assumes ok: "args_ok w"
    and nul: "CHR 0x00 \<notin> set (process_title_prefix (app w))" "CHR 0x00 \<notin> set title"
    and run: "SetProcessTitle title w = (r, w')"
    and lay: "title_layout w = (e, maxlen, into_environ)"
  shows "r \<noteq> Halt Segfault \<and> length (args_mem w') = length (args_mem w)
    \<and> (\<forall>i < length (args_mem w). i < title_start w \<or> e < i \<longrightarrow> args_mem w' ! i = args_mem w ! i)
    \<and> (title_start w < e \<longrightarrow> c_str (drop (title_start w) (args_mem w'))
         = take (unat maxlen) (process_title_prefix (app w) @ '': '' @ title))"
proof -
  let ?a = "title_start w"
  let ?full = "process_title_prefix (app w) @ '': '' @ title"
  let ?new = "resize (take (unat maxlen) ?full) (unat (maxlen + 1))"
  have e: "?a \<le> e" "e < length (args_mem w)"
    using title_layout_bounds [OF ok] lay by simp_all
  note len = title_length [OF ok lay]
  obtain w1 where w1: "(if into_environ then memcpy_args e '' '' else ret ()) w = (Ret (), w1)"
    "length (args_mem w1) = length (args_mem w)" "app w1 = app w"
    "\<forall>i < length (args_mem w). i < ?a \<or> e < i \<longrightarrow> args_mem w1 ! i = args_mem w ! i"
  proof (cases into_environ)
    case True
    with memcpy_args_ok [of e "'' ''" w] e show ?thesis using that by fastforce
  qed (use that in \<open>simp add: ret_def\<close>)
  have fits: "?a + length ?new \<le> length (args_mem w1)"
    using len(1) e w1(2) by (simp split: if_splits)
  from memcpy_args_ok [OF this] obtain w2 where w2: "memcpy_args ?a ?new w1 = (Ret (), w2)"
    "length (args_mem w2) = length (args_mem w1)"
    "\<forall>i < length (args_mem w1). i < ?a \<or> ?a + length ?new \<le> i \<longrightarrow> args_mem w2 ! i = args_mem w1 ! i"
    "take (length ?new) (drop ?a (args_mem w2)) = ?new" by blast
  have "SetProcessTitle title w = bind (sys (C_prctl_name ?full)) (\<lambda>r.
      if r_ret r \<noteq> 0 then throw_errno ''prctl'' (r_errno r) else ret ()) w2"
    using w1(1) w2(1) lay
    by (simp add: SetProcessTitle_def andThen_def bind_def gets_def Let_def)
  then have fin: "args_mem w' = args_mem w2" "r \<noteq> Halt Segfault"
    using run sys_static_all [where w = w2 and c = "C_prctl_name ?full"]
    by (auto simp: bind_def ret_def throw_def same_static_def
        split: prod.splits outcome.splits if_splits)
  have "i < ?a \<or> e < i \<Longrightarrow> i < length (args_mem w) \<Longrightarrow> args_mem w2 ! i = args_mem w ! i" for i
    using w1(2,4) w2(3) len(1) e by (auto split: if_splits)
  moreover have "?a < e \<Longrightarrow> c_str (drop ?a (args_mem w2)) = take (unat maxlen) ?full"
  proof (rule c_str_title)
    assume "?a < e"
    then have k: "unat maxlen + 1 = unat (maxlen + 1)" using len(2) by blast
    with w2(4) show "take (unat maxlen + 1) (drop ?a (args_mem w2))
        = resize (take (unat maxlen) ?full) (unat maxlen + 1)" by simp
    show "unat maxlen < length (drop ?a (args_mem w2))"
      using k fits w2(2) by simp
  qed (use nul in simp)
  ultimately show ?thesis using fin w1(2) w2(2) by auto
qed

definition demo_app :: mainapp where
  "demo_app = \<lparr>signal_mask_stack = [], argv = [0, 6], psgi_application_path = ''app.psgi'',
     nworkers = 2, application_loader = None, fastcgi_socket_path = ''/tmp/f'',
     stats_socket_path = ''/tmp/s'', process_title_prefix = ''Blade'', runner_pid = 100,
     monitoring_process_pid = -1, worker_pids = [], auxiliary_pids = [],
     auxiliary_processes = [], shmem = None, fastcgi_sockfd = -1, stats_sockfd = -1\<rparr>"

text \<open>A process as it starts: the arguments \<^verbatim>\<open>blade\<close> and
  \<^verbatim>\<open>app\<close>, and no environment right behind them.\<close>

definition demo_world :: "event list \<Rightarrow> world" where
  "demo_world es = \<lparr>app = demo_app, mainapp_shutdown = False, mainapp_fast_shutdown = False,
     mainapp_smart_shutdown = False, mainapp_force_fast_shutdown = False,
     overseer_self_pipe = (-1, -1), has_perl_interpreter = False, perl_ctx = None,
     worker_terminated = False, sigmask = {}, sigpending = [], handlers = (\<lambda>_. SIG_DFL),
     args_mem = ''blade'' @ [CHR 0x00] @ ''app'' @ [CHR 0x00], environ0 = 50,
     libc_strerror = (\<lambda>_. ''error''), sizeof_sem_t = 32, script = es, trace = []\<rparr>"

definition ok_resp :: "int \<Rightarrow> event" where
  "ok_resp n = Resp \<lparr>r_ret = n, r_errno = 0, r_outs = [], r_text = [], r_xs = []\<rparr>"

lemma demo_clock:
  "length (log_timestamp \<lparr>r_ret = n, r_errno = e, r_outs = [], r_text = t, r_xs = xs\<rparr>) = 24"
  by (simp add: log_timestamp_def out_def printf_0d_def Let_def string_of_nat.simps)

lemma demo_title_layout:
  "args_ok (demo_world es)" "title_layout (demo_world es) = (9, 9, False)"
  by (simp_all add: args_ok_def title_layout_def demo_world_def demo_app_def strlen_def c_str_def)

theorem SetProcessTitle_in_bounds_witness:
  "c_str (args_mem (snd (SetProcessTitle ''overseer'' (demo_world [ok_resp 0])))) = ''Blade: ov''"
proof -
  obtain r w' where run: "SetProcessTitle ''overseer'' (demo_world [ok_resp 0]) = (r, w')"
    by fastforce
  from SetProcessTitle_in_bounds [OF demo_title_layout(1) _ _ run demo_title_layout(2)]
  have "c_str (args_mem w') = take 9 ''Blade: overseer''"
    by (simp add: demo_world_def demo_app_def)
  with run show ?thesis by simp
qed

end
