(* ===== verification/Bpsgi_Perl.thy ===== *)
theory Bpsgi_Perl
  imports Bpsgi_Log
begin

text \<open>
  The embedded Perl interpreter as the program uses it:
  \<^verbatim>\<open>src/perl/bladepsgi_perl.c\<close> (the calls into Perl),
  \<^verbatim>\<open>src/perl_interpreter.cpp\<close> (the C++ classes around them),
  \<^verbatim>\<open>src/perl_interpreter_sea_bridge.cpp\<close> and \<^verbatim>\<open>src/perl/XS.xs\<close>
  (the calls Perl code makes back into the program), and the auxiliary process objects the
  loader requests (\<^verbatim>\<open>src/auxiliary.cpp\<close>, the constructor and SetPID).

  Perl itself is outside: a call into it takes an answer from the script. The answer lists
  the calls back into the program that the Perl code makes meanwhile; they are executed on the
  process before the call returns. A Perl scalar is a number. A croak is a value that goes back
  to the Perl code; what that code does about it shows in the answer.
\<close>

section \<open>Calls from Perl into the program\<close>

datatype xs_result =
    XsUndef
  | XsInt int64
  | XsFd int
  | XsStr string
  | XsBool bool
  | XsSemaphore BPSGISemaphore
  | XsAtomic nat
  | XsCroak string

text \<open>The context exists and belongs to the application.\<close>

definition the_ctx :: "(world, BPSGI_Context) prog" where
  "the_ctx = bind (gets perl_ctx) (\<lambda>c. case c of None \<Rightarrow> halt Aborted | Some x \<Rightarrow> ret x)"

text \<open>\<open>char_byte\<close> is the byte of a C \<^verbatim>\<open>char\<close>; the first character of an
  empty C string is its NUL.\<close>

definition char_byte :: "char \<Rightarrow> byte" where
  "char_byte c = of_nat (of_char c)"

definition first_char :: "string \<Rightarrow> char" where
  "first_char s = (case s of [] \<Rightarrow> CHR 0x00 | c # _ \<Rightarrow> c)"

definition app_SetWorkerStatus :: "nat \<Rightarrow> byte \<Rightarrow> (world, unit) prog" where
  "app_SetWorkerStatus workerno status = on_shmem (SetWorkerStatus workerno status)"

definition BPSGIWorker_SetWorkerStatus :: "nat \<Rightarrow> char \<Rightarrow> (world, unit) prog" where
  "BPSGIWorker_SetWorkerStatus workerno status = app_SetWorkerStatus workerno (char_byte status)"

definition cb_set_worker_status :: "string \<Rightarrow> (world, unit) prog" where
  "cb_set_worker_status status =
     bind the_ctx (\<lambda>ctx.
     andThen (Assert (ctx_worker ctx \<noteq> None))
       (BPSGIWorker_SetWorkerStatus (the (ctx_worker ctx)) (first_char status)))"

definition RequestAuxiliaryProcess :: "string \<Rightarrow> nat \<Rightarrow> (world, unit) prog" where
  "RequestAuxiliaryProcess name callback =
     modify (\<lambda>w. w\<lparr>app := (app w)\<lparr>auxiliary_processes := auxiliary_processes (app w)
        @ [\<lparr>aux_name = name, aux_callback = callback, aux_pid = -1\<rparr>]\<rparr>\<rparr>)"

definition cb_request_auxiliary_process :: "string \<Rightarrow> nat \<Rightarrow> (world, string option) prog" where
  "cb_request_auxiliary_process name sv =
     bind the_ctx (\<lambda>ctx. andThen (RequestAuxiliaryProcess name sv) (ret None))"

text \<open>A C \<^verbatim>\<open>int\<close> argument: what a Perl integer becomes, and its widening to
  the 64-bit parameter.\<close>

definition int_arg :: "int \<Rightarrow> int64" where
  "int_arg i = scast (of_int i :: 32 word)"

text \<open>The bridge turns the exceptions of the shared memory object into an error
  text.\<close>

definition cb_new_semaphore ::
  "string \<Rightarrow> int \<Rightarrow> int \<times> int \<Rightarrow> (world, string + BPSGISemaphore) prog" where
  "cb_new_semaphore name value sem_init_ret =
     bind the_ctx (\<lambda>ctx.
     bind (gets (\<lambda>w. (sizeof_sem_t w, libc_strerror w))) (\<lambda>(sz, strerror).
     catch (bind (on_shmem (NewSemaphore sz sem_init_ret name (int_arg value))) (\<lambda>s. ret (Inr s)))
       (\<lambda>e. case e of
          StringExn msg \<Rightarrow> ret (Inl msg)
        | SyscallExn ex \<Rightarrow>
            bind (SyscallException_strerror strerror ex) (\<lambda>text.
            ret (Inl (vsnprintf_buf 2048
              (''system call '' @ syscall_name ex @ '' failed: '' @ text))))
        | _ \<Rightarrow> throw e)))"

definition cb_new_atomic_int64 :: "string \<Rightarrow> int \<Rightarrow> (world, string + nat) prog" where
  "cb_new_atomic_int64 name value =
     bind the_ctx (\<lambda>ctx.
     catch (bind (on_shmem (NewAtomicInt64 name (int_arg value))) (\<lambda>p. ret (Inr p)))
       (\<lambda>e. case e of StringExn msg \<Rightarrow> ret (Inl msg) | _ \<Rightarrow> throw e))"

definition cb_sem_acquire :: "bool list \<Rightarrow> BPSGISemaphore \<Rightarrow> (world, unit) prog" where
  "cb_sem_acquire intrs sem = on_shmem (Acquire intrs sem)"

definition cb_sem_tryacquire :: "bool list \<Rightarrow> BPSGISemaphore \<Rightarrow> (world, int) prog" where
  "cb_sem_tryacquire intrs sem =
     bind (on_shmem (TryAcquire intrs sem)) (\<lambda>b. ret (if b then 1 else 0))"

definition cb_sem_release :: "BPSGISemaphore \<Rightarrow> (world, unit) prog" where
  "cb_sem_release sem = on_shmem (Release sem)"

definition cb_atomic_int64_fetch_add :: "nat \<Rightarrow> int64 \<Rightarrow> (world, int64) prog" where
  "cb_atomic_int64_fetch_add atm value = on_shmem (fetch_add_int64 atm value)"

definition cb_atomic_int64_load :: "nat \<Rightarrow> (world, int64) prog" where
  "cb_atomic_int64_load atm = on_shmem (load_int64 atm)"

definition cb_atomic_int64_store :: "nat \<Rightarrow> int64 \<Rightarrow> (world, unit) prog" where
  "cb_atomic_int64_store atm value = on_shmem (store_int64 atm value)"

definition cb_fastcgi_listen_sockfd :: "(world, int) prog" where
  "cb_fastcgi_listen_sockfd =
     bind the_ctx (\<lambda>ctx. bind (gets (\<lambda>w. fastcgi_sockfd (app w))) (\<lambda>fd.
     andThen (Assert (fd \<noteq> -1)) (ret fd)))"

definition cb_psgi_application_path :: "(world, string) prog" where
  "cb_psgi_application_path = bind the_ctx (\<lambda>ctx. gets (\<lambda>w. psgi_application_path (app w)))"

definition cb_psgi_application_loader :: "(world, string option) prog" where
  "cb_psgi_application_loader = bind the_ctx (\<lambda>ctx. gets (\<lambda>w. application_loader (app w)))"

definition croak_new :: "string \<Rightarrow> string \<Rightarrow> string \<Rightarrow> xs_result" where
  "croak_new what name error =
     XsCroak (''could not create a new '' @ what @ '' '' @ name @ '': '' @ error @ [CHR 0x0A])"

text \<open>The methods of BPSGI::Context, BPSGI::Semaphore and BPSGI::AtomicInt64. A null
  \<^verbatim>\<open>char *\<close> makes an undefined scalar.\<close>

fun do_xs :: "xs_op \<Rightarrow> (world, xs_result) prog" where
  "do_xs (XS_set_worker_status chr) =
     bind the_ctx (\<lambda>ctx.
     if ctx_worker ctx = None then
       ret (XsCroak (''worker status change attempted from a non-worker BladePSGI context''
              @ [CHR 0x0A]))
     else andThen (cb_set_worker_status chr) (ret XsUndef))"
| "do_xs XS_fastcgi_listen_sockfd = bind cb_fastcgi_listen_sockfd (\<lambda>fd. ret (XsFd fd))"
| "do_xs XS_psgi_application_path = bind cb_psgi_application_path (\<lambda>path. ret (XsStr path))"
| "do_xs XS_psgi_application_loader =
     bind cb_psgi_application_loader (\<lambda>loader.
     ret (case loader of None \<Rightarrow> XsUndef | Some l \<Rightarrow> XsStr l))"
| "do_xs XS_is_worker = bind the_ctx (\<lambda>ctx. ret (XsBool (ctx_worker ctx \<noteq> None)))"
| "do_xs (XS_request_auxiliary_process name cback) =
     bind (cb_request_auxiliary_process name cback) (\<lambda>error.
     case error of
       Some e \<Rightarrow> ret (croak_new ''semaphore'' name e)
     | None \<Rightarrow> ret XsUndef)"
| "do_xs (XS_new_semaphore name value sem_init_ret) =
     bind (cb_new_semaphore name value sem_init_ret) (\<lambda>r.
     case r of
       Inl e \<Rightarrow> ret (croak_new ''semaphore'' name e)
     | Inr sem \<Rightarrow> ret (XsSemaphore sem))"
| "do_xs (XS_new_atomic_int64 name value) =
     bind (cb_new_atomic_int64 name value) (\<lambda>r.
     case r of
       Inl e \<Rightarrow> ret (croak_new ''64-bit atomic integer'' name e)
     | Inr p \<Rightarrow> ret (XsAtomic p))"
| "do_xs (XS_semaphore_acquire intrs sem) = andThen (cb_sem_acquire intrs sem) (ret XsUndef)"
| "do_xs (XS_semaphore_tryacquire intrs sem) =
     bind (cb_sem_tryacquire intrs sem) (\<lambda>i. ret (XsBool (i \<noteq> 0)))"
| "do_xs (XS_semaphore_release sem) = andThen (cb_sem_release sem) (ret XsUndef)"
| "do_xs (XS_atomic_int64_incr atm) =
     bind (cb_atomic_int64_fetch_add atm 1) (\<lambda>_. ret XsUndef)"
| "do_xs (XS_atomic_int64_fetch_add atm val) =
     bind (cb_atomic_int64_fetch_add atm (int_arg val)) (\<lambda>v. ret (XsInt v))"
| "do_xs (XS_atomic_int64_load atm) = bind (cb_atomic_int64_load atm) (\<lambda>v. ret (XsInt v))"
| "do_xs (XS_atomic_int64_store atm val) =
     andThen (cb_atomic_int64_store atm (int_arg val)) (ret XsUndef)"

lemmas xs_defs = cb_set_worker_status_def cb_request_auxiliary_process_def cb_new_semaphore_def
  cb_new_atomic_int64_def cb_sem_acquire_def cb_sem_tryacquire_def cb_sem_release_def
  cb_atomic_int64_fetch_add_def cb_atomic_int64_load_def cb_atomic_int64_store_def
  BPSGIWorker_SetWorkerStatus_def app_SetWorkerStatus_def
  cb_fastcgi_listen_sockfd_def cb_psgi_application_path_def cb_psgi_application_loader_def

section \<open>Calls from the program into Perl\<close>

text \<open>A call into Perl: the answer, after the calls back it lists.\<close>

definition perl :: "call \<Rightarrow> (world, resp) prog" where
  "perl c = bind (sys c) (\<lambda>r. bind (run_prog do_xs (r_xs r)) (\<lambda>_. ret r))"

text \<open>The functions of bladepsgi_perl.c return 0 or the error text. An answer's return
  value tells whether \<^verbatim>\<open>perl_alloc\<close>, \<^verbatim>\<open>perl_parse\<close> and
  \<^verbatim>\<open>perl_run\<close> worked; for the evaluation of a string and for a call it is 1 when
  \<^verbatim>\<open>ERRSV\<close> is true, and the text is then the message.\<close>

definition eval_or_fail :: "string \<Rightarrow> (world, string option) prog \<Rightarrow> (world, string option) prog" where
  "eval_or_fail code k =
     bind (perl (C_perl_eval code)) (\<lambda>r.
     if r_ret r \<noteq> 0 then ret (Some (''could not load Plack::Util: '' @ r_text r)) else k)"

text \<open>With the flag \<^verbatim>\<open>croak_on_error\<close> a failing evaluation outside of
  any Perl frame prints the message and ends the process, with a code the answer gives.\<close>

definition eval_or_croak :: "string \<Rightarrow> (world, string option) prog \<Rightarrow> (world, string option) prog" where
  "eval_or_croak code k =
     bind (perl (C_perl_eval code)) (\<lambda>r.
     if r_ret r \<noteq> 0 then andThen (emit (C_write 2 (r_text r))) (halt (Exited (out r 0))) else k)"

definition bladepsgi_perl_interpreter_init :: "(world, string option) prog" where
  "bladepsgi_perl_interpreter_init =
     bind (sys C_perl_alloc) (\<lambda>r.
     if r_ret r = 0 then ret (Some (''could not allocate perl interpreter'' @ [CHR 0x0A]))
     else
     bind (sys C_perl_parse) (\<lambda>r.
     if r_ret r \<noteq> 0 then ret (Some (''perl_parse failed'' @ [CHR 0x0A]))
     else
     bind (sys C_perl_run) (\<lambda>r.
     if r_ret r \<noteq> 0 then ret (Some (''perl_run failed'' @ [CHR 0x0A]))
     else
       eval_or_fail ''eval { require Plack::Util; }; die $@ if ($@);''
       (eval_or_croak ''BPSGI::bootstrap''
       (eval_or_fail ''sub _bladepsgi_do_wrapper { return do $_[0]; }''
       (ret None))))))"

definition bladepsgi_perl_interpreter_destroy :: "(world, string option) prog" where
  "bladepsgi_perl_interpreter_destroy = andThen (emit C_perl_destroy) (ret None)"

text \<open>Loading a callback: \<open>out r 0\<close> is the scalar, \<open>out r 1\<close> is 1 when it is
  defined, \<open>out r 2\<close> the errno.\<close>

definition bladepsgi_perl_callback_init ::
  "string \<Rightarrow> string \<Rightarrow> (world, string + nat) prog" where
  "bladepsgi_perl_callback_init source loader =
     bind (if loader = ''do'' then perl (C_perl_do source)
           else if loader = ''eval'' then perl (C_perl_eval source)
           else andThen (emit (C_write 2 (''internal error: invalid loader '' @ loader
                  @ '' in call to bladepsgi_perl_callback_init'' @ [CHR 0x0A])))
                (halt Aborted)) (\<lambda>r.
     if out r 1 = 1 then ret (Inr (nat (out r 0)))
     else if r_ret r \<noteq> 0 then ret (Inl (r_text r))
     else if out r 2 \<noteq> 0 then
       bind (gets libc_strerror) (\<lambda>strerror. ret (Inl (strerror (out r 2))))
     else andThen (emit (C_write 2 (''poopfeast420'' @ [CHR 0x0A]))) (halt (Exited 1)))"

definition bladepsgi_perl_callback_call :: "nat \<Rightarrow> (world, string option) prog" where
  "bladepsgi_perl_callback_call sv =
     bind (perl (C_perl_call sv)) (\<lambda>r.
     if r_ret r \<noteq> 0 then ret (Some (r_text r)) else ret None)"

text \<open>\<open>out r 1\<close> is 1 when the scalar \<open>out r 0\<close> the callback returns is a code
  reference, and 2 when it is another reference. For a scalar that is no reference
  \<^verbatim>\<open>SvRV\<close> is undefined: the code reads the type through a pointer that is none, which
  the model takes as a fault.\<close>

definition bladepsgi_perl_callback_call_and_receive_callback ::
  "nat \<Rightarrow> (world, string + nat) prog" where
  "bladepsgi_perl_callback_call_and_receive_callback sv =
     bind (perl (C_perl_call sv)) (\<lambda>r.
     if r_ret r \<noteq> 0 then ret (Inl (r_text r))
     else if out r 1 \<noteq> 1 \<and> out r 1 \<noteq> 2 then halt Segfault
     else if out r 1 \<noteq> 1 then ret (Inl ''return value is not a callback'')
     else ret (Inr (nat (out r 0))))"

section \<open>The C++ classes\<close>

text \<open>The interpreter object; its context lives on the heap, \<open>perl_ctx\<close>.\<close>

record BPSGIPerlInterpreter =
  destroyed :: bool

definition BPSGIPerlInterpreter_new :: "(world, BPSGIPerlInterpreter) prog" where
  "BPSGIPerlInterpreter_new =
     bind bladepsgi_perl_interpreter_init (\<lambda>error.
     case error of
       Some e \<Rightarrow> throw (PerlInterpreterException_fmt (''could not initialize a Perl interpreter: '' @ e))
     | None \<Rightarrow>
         andThen (modify (\<lambda>w. w\<lparr>perl_ctx := Some \<lparr>ctx_worker = None\<rparr>\<rparr>))
           (ret \<lparr>destroyed = False\<rparr>))"

definition LoadCallback :: "string \<Rightarrow> (world, nat) prog" where
  "LoadCallback filename =
     bind (bladepsgi_perl_callback_init filename ''do'') (\<lambda>r.
     case r of Inl e \<Rightarrow> throw (PerlInterpreterException_fmt e) | Inr sv \<Rightarrow> ret sv)"

definition LoadCallbackFromCString :: "string \<Rightarrow> (world, nat) prog" where
  "LoadCallbackFromCString code =
     bind (bladepsgi_perl_callback_init code ''eval'') (\<lambda>r.
     case r of Inl e \<Rightarrow> throw (PerlInterpreterException_fmt e) | Inr sv \<Rightarrow> ret sv)"

definition WorkerInitialize :: "nat \<Rightarrow> (world, unit) prog" where
  "WorkerInitialize workerno =
     bind the_ctx (\<lambda>ctx.
     andThen (Assert (ctx_worker ctx = None))
       (modify (\<lambda>w. w\<lparr>perl_ctx := Some (ctx\<lparr>ctx_worker := Some workerno\<rparr>)\<rparr>)))"

definition Callback_Call :: "nat \<Rightarrow> (world, unit) prog" where
  "Callback_Call sv =
     bind (bladepsgi_perl_callback_call sv) (\<lambda>error.
     case error of Some e \<Rightarrow> throw (PerlInterpreterException_fmt e) | None \<Rightarrow> ret ())"

definition CallAndReceiveCallback :: "nat \<Rightarrow> (world, nat) prog" where
  "CallAndReceiveCallback sv =
     bind (bladepsgi_perl_callback_call_and_receive_callback sv) (\<lambda>r.
     case r of Inl e \<Rightarrow> throw (PerlInterpreterException_fmt e) | Inr sv' \<Rightarrow> ret sv')"

definition Interpreter_Destroy :: "BPSGIPerlInterpreter \<Rightarrow> (world, BPSGIPerlInterpreter) prog" where
  "Interpreter_Destroy interp =
     (let interp' = interp\<lparr>destroyed := True\<rparr> in
      bind bladepsgi_perl_interpreter_destroy (\<lambda>error.
      case error of Some e \<Rightarrow> throw (PerlInterpreterException_fmt e) | None \<Rightarrow> ret interp'))"

text \<open>The destructor ends the process unless Destroy was called before.\<close>

definition Interpreter_destructor :: "BPSGIPerlInterpreter \<Rightarrow> (world, unit) prog" where
  "Interpreter_destructor interp =
     (if \<not> destroyed interp then
        andThen (emit (C_write 2 (''BPSGIPerlInterpreter destroyed without calling Destroy''
                   @ [CHR 0x0A])))
          (halt (Exited 1))
      else modify (\<lambda>w. w\<lparr>perl_ctx := None\<rparr>))"

definition InitializePerlInterpreter :: "(world, BPSGIPerlInterpreter) prog" where
  "InitializePerlInterpreter =
     bind (gets has_perl_interpreter) (\<lambda>has.
     if has then throw (LogicError
       ''InitializePerlInterpreter called but _has_perl_interpreter is already set'')
     else
       andThen (modify (\<lambda>w. w\<lparr>has_perl_interpreter := True\<rparr>)) BPSGIPerlInterpreter_new)"

section \<open>Auxiliary process objects\<close>

definition SetPID :: "nat \<Rightarrow> int \<Rightarrow> (world, unit) prog" where
  "SetPID k pid =
     andThen (Assert (pid \<noteq> -1))
     (bind (gets (\<lambda>w. auxiliary_processes (app w) ! k)) (\<lambda>p.
      if aux_pid p \<noteq> -1
      then throw (LogicError (''pid set more than once for auxiliary process '' @ aux_name p))
      else modify (\<lambda>w. w\<lparr>app := (app w)\<lparr>auxiliary_processes :=
             (auxiliary_processes (app w))[k := p\<lparr>aux_pid := pid\<rparr>]\<rparr>\<rparr>)))"

section \<open>What Perl code can change\<close>

text \<open>Perl code reaches the application only through its context: it can use the shared
  segment and request auxiliary processes. It leaves the rest alone.\<close>

definition same_but_app :: "world \<Rightarrow> world \<Rightarrow> bool" where
  "same_but_app w w' \<longleftrightarrow>
     (\<exists>s ps. w' = w\<lparr>app := (app w)\<lparr>shmem := s, auxiliary_processes := ps\<rparr>\<rparr>)"

lemma same_but_appI: "w' = w\<lparr>app := (app w)\<lparr>shmem := s, auxiliary_processes := ps\<rparr>\<rparr> \<Longrightarrow> same_but_app w w'"
  unfolding same_but_app_def by (intro exI)

lemma same_but_appE:
  assumes "same_but_app w w'"
  obtains s ps where "w' = w\<lparr>app := (app w)\<lparr>shmem := s, auxiliary_processes := ps\<rparr>\<rparr>"
  using assms unfolding same_but_app_def by (elim exE)

lemma same_but_app_refl [simp]: "same_but_app w w"
  by (rule same_but_appI [where s = "shmem (app w)" and ps = "auxiliary_processes (app w)"]) simp

lemma same_but_app_trans:
  assumes "same_but_app w w1" and "same_but_app w1 w2"
  shows "same_but_app w w2"
proof -
  obtain s ps where "w1 = w\<lparr>app := (app w)\<lparr>shmem := s, auxiliary_processes := ps\<rparr>\<rparr>"
    using assms(1) by (rule same_but_appE)
  moreover obtain s' ps' where "w2 = w1\<lparr>app := (app w1)\<lparr>shmem := s', auxiliary_processes := ps'\<rparr>\<rparr>"
    using assms(2) by (rule same_but_appE)
  ultimately show ?thesis by (intro same_but_appI [where s = s' and ps = ps']) simp
qed

lemma same_but_app_step: "(\<And>t. same_but_app t (snd (m t))) \<Longrightarrow> keeps (same_but_app w) m"
  by (rule keepsI) (rule same_but_app_trans)

lemma keeps_on_shmem: "keeps (same_but_app w) (on_shmem m)"
proof (rule same_but_app_step)
  fix t :: world
  show "same_but_app t (snd (on_shmem m t))"
  proof (cases "shmem (app t)")
    case None
    then show ?thesis by (simp add: on_shmem_def)
  next
    case (Some s)
    obtain r s' where "m s = (r, s')" by fastforce
    with Some show ?thesis
      by (intro same_but_appI [where s = "Some s'" and ps = "auxiliary_processes (app t)"])
        (simp add: on_shmem_def)
  qed
qed

lemma on_shmem_script: "on_shmem m w = (r, w') \<Longrightarrow> script w' = script w"
  by (auto simp: on_shmem_def split: option.splits prod.splits)

lemma keeps_the_ctx [simp]: "keeps P the_ctx"
  by (auto simp: the_ctx_def keeps_def bind_def gets_def halt_def ret_def split: option.splits)

lemma keeps_RequestAuxiliaryProcess: "keeps (same_but_app w) (RequestAuxiliaryProcess name cb)"
proof (rule same_but_app_step)
  fix t :: world
  show "same_but_app t (snd (RequestAuxiliaryProcess name cb t))"
    by (rule same_but_appI [where s = "shmem (app t)" and ps =
          "auxiliary_processes (app t) @ [\<lparr>aux_name = name, aux_callback = cb, aux_pid = -1\<rparr>]"])
      (simp add: RequestAuxiliaryProcess_def modify_def)
qed

lemma keeps_strerror [simp]: "keeps P (SyscallException_strerror f ex)"
  by (auto simp: SyscallException_strerror_def intro!: keeps_intros split: option.split)

lemma do_xs_same_but_app: "keeps (same_but_app w) (do_xs x)"
  by (cases x)
    (auto simp: xs_defs
      intro!: keeps_intros keeps_on_shmem keeps_RequestAuxiliaryProcess
      split: option.split sum.split exn.split prod.split)

lemma keeps_run_prog: "(\<And>x. keeps P (f x)) \<Longrightarrow> keeps P (run_prog f xs)"
  by (induction xs) (auto intro!: keeps_intros)

lemma xs_ops_same_but_app:
  "run_prog do_xs xs w = (r, w') \<Longrightarrow> same_but_app w w'"
  by (rule keepsD [OF keeps_run_prog [of "same_but_app w" do_xs xs, OF do_xs_same_but_app]]) simp_all

lemma perl_Ret:
  assumes "perl c w = (Ret r, w')"
  obtains w1 where "sys c w = (Ret r, w1)" "same_but_app w1 w'"
  using assms xs_ops_same_but_app
  by (fastforce simp: perl_def ret_def elim!: bind_eq_RetE)

lemma perl_shrinks: "perl c w = (Ret r, w') \<Longrightarrow> length (script w') < length (script w)"
  by (erule perl_Ret) (auto elim!: same_but_appE dest: sys_shrinks)

lemma Callback_Call_shrinks:
  "Callback_Call sv w = (Ret u, w') \<Longrightarrow> length (script w') < length (script w)"
  by (auto simp: Callback_Call_def bladepsgi_perl_callback_call_def ret_def throw_def
      elim!: bind_eq_RetE dest: perl_shrinks split: if_splits option.splits)

end
