(* ===== verification/Bpsgi_Sockets.thy ===== *)
theory Bpsgi_Sockets
  imports Bpsgi_Perl
begin

text \<open>
  The files and the memory the overseer sets up before it forks: the self-pipe, the shared
  segment and the two listening UNIX sockets (\<^verbatim>\<open>InitializeSelfPipe\<close>,
  \<^verbatim>\<open>DrainSelfPipe\<close>, \<^verbatim>\<open>InitializeSharedMemory\<close>,
  \<^verbatim>\<open>InitializeMainFastCGISocket\<close>, \<^verbatim>\<open>InitializeStatsSocket\<close> and
  \<^verbatim>\<open>InitializeUNIXSocket\<close> of \<^verbatim>\<open>src/bladepsgi.cpp\<close>).
\<close>

unbundle bit_operations_syntax

section \<open>The self-pipe\<close>

definition O_NONBLOCK :: int where
  "O_NONBLOCK = 2048"

definition set_non_blocking :: "int \<Rightarrow> (world, unit) prog" where
  "set_non_blocking fildes =
     bind (sys (C_fcntl_getfl fildes)) (\<lambda>r.
     if r_ret r = -1 then throw_errno ''fcntl'' (r_errno r)
     else
       bind (sys (C_fcntl_setfl fildes (r_ret r OR O_NONBLOCK))) (\<lambda>r.
       if r_ret r = -1 then throw_errno ''fcntl'' (r_errno r) else ret ()))"

text \<open>\<^verbatim>\<open>pipe\<close> answers with the two descriptors.\<close>

definition InitializeSelfPipe :: "(world, unit) prog" where
  "InitializeSelfPipe =
     bind (sys C_pipe) (\<lambda>r.
     if r_ret r = -1 then throw_errno ''pipe'' (r_errno r)
     else
       andThen (modify (\<lambda>w. w\<lparr>overseer_self_pipe := (out r 0, out r 1)\<rparr>))
       (bind (gets overseer_self_pipe) (\<lambda>p.
        andThen (set_non_blocking (fst p)) (set_non_blocking (snd p)))))"

text \<open>The loop ends because every iteration takes an answer of the script.\<close>

function DrainSelfPipe :: "(world, unit) prog" where
  "DrainSelfPipe w =
     bind (sys (C_read (fst (overseer_self_pipe w)) 10)) (\<lambda>r w1.
       if 0 < r_ret r then DrainSelfPipe w1
       else if r_ret r = -1 then
         (if r_errno r = EINTR then DrainSelfPipe w1
          else if r_errno r = EAGAIN then ret () w1
          else throw_fmt ''read'' (''could not read from self-pipe: ''
                 @ libc_strerror w1 (r_errno r)) w1)
       else throw_fmt ''read'' (''could not read from self-pipe: unexpected return value ''
              @ string_of_int (r_ret r)) w1) w"
  by pat_completeness auto
termination
  by (relation "measure (\<lambda>w. length (script w))") (auto dest: sys_shrinks)

declare DrainSelfPipe.simps [simp del]

section \<open>The shared segment\<close>

definition MAP_FAILED :: int where
  "MAP_FAILED = -1"

text \<open>\<^verbatim>\<open>mmap\<close> answers with an address. The source compares it with NULL;
  the constructor then clears the segment, which faults at \<^verbatim>\<open>MAP_FAILED\<close>.\<close>

definition InitializeSharedMemory :: "(world, unit) prog" where
  "InitializeSharedMemory =
     bind (gets (\<lambda>w. shmem (app w))) (\<lambda>s.
     andThen (Assert (s = None))
     (bind (sys (C_mmap 4096)) (\<lambda>r.
      if r_ret r = 0 then throw_errno ''mmap'' (r_errno r)
      else if r_ret r = MAP_FAILED then halt Segfault
      else modify (\<lambda>w. w\<lparr>app := (app w)\<lparr>shmem := Some (BPSGISharedMemory_new 4096)\<rparr>\<rparr>))))"

section \<open>Listening sockets\<close>

definition S_ISSOCK :: "int \<Rightarrow> bool" where
  "S_ISSOCK mode \<longleftrightarrow> mode AND 61440 = 49152"

definition sizeof_sun_path :: nat where
  "sizeof_sun_path = 108"

text \<open>\<^verbatim>\<open>stat\<close> answers with the file's mode.\<close>

definition InitializeUNIXSocket :: "string \<Rightarrow> int \<Rightarrow> (world, int) prog" where
  "InitializeUNIXSocket path listen_backlog_size =
     bind (sys C_socket) (\<lambda>s.
     if r_ret s = -1 then throw_errno ''socket'' (r_errno s)
     else
       let sockfd = r_ret s; sun_path = vsnprintf_buf sizeof_sun_path path in
       bind (sys (C_stat sun_path)) (\<lambda>st.
       andThen
         (if r_ret st = 0 then
            if \<not> S_ISSOCK (out st 0) then
              throw (RuntimeException_fmt
                (''file '' @ sun_path @ '' already exists and is not a socket''))
            else
              bind (sys (C_unlink sun_path)) (\<lambda>r.
              if r_ret r = -1 then
                bind (gets libc_strerror) (\<lambda>strerror.
                throw (RuntimeException_fmt (''could not remove socket file '' @ sun_path @ '': ''
                  @ strerror (r_errno r))))
              else ret ())
          else ret ())
       (bind (sys (C_bind sockfd sun_path)) (\<lambda>r.
        if r_ret r = -1 then throw_errno ''bind'' (r_errno r)
        else
          bind (sys (C_listen sockfd listen_backlog_size)) (\<lambda>r.
          if r_ret r = -1 then throw_errno ''listen'' (r_errno r)
          else ret sockfd)))))"

definition InitializeMainFastCGISocket :: "(world, unit) prog" where
  "InitializeMainFastCGISocket =
     bind (gets (\<lambda>w. fastcgi_socket_path (app w))) (\<lambda>path.
     bind (InitializeUNIXSocket path 16384) (\<lambda>fd.
     modify (\<lambda>w. w\<lparr>app := (app w)\<lparr>fastcgi_sockfd := fd\<rparr>\<rparr>)))"

definition InitializeStatsSocket :: "(world, unit) prog" where
  "InitializeStatsSocket =
     bind (gets (\<lambda>w. stats_socket_path (app w))) (\<lambda>path.
     bind (InitializeUNIXSocket path 64) (\<lambda>fd.
     modify (\<lambda>w. w\<lparr>app := (app w)\<lparr>stats_sockfd := fd\<rparr>\<rparr>)))"

end
