(* ===== verification/Bpsgi_Worker.thy ===== *)
theory Bpsgi_Worker
  imports Bpsgi_Perl
begin

text \<open>
  A worker process: \<^verbatim>\<open>MainLoopIteration\<close> and \<^verbatim>\<open>Run\<close> of
  \<^verbatim>\<open>src/worker.cpp\<close>. Its signal handlers are in \<open>Bpsgi_Process\<close>.
  One call of the Perl callback serves one request.
\<close>

definition app_ShouldExitImmediately :: "(world, bool) prog" where
  "app_ShouldExitImmediately = on_shmem ShouldExitImmediately"

definition MainLoopIteration :: "nat \<Rightarrow> nat \<Rightarrow> (world, unit) prog" where
  "MainLoopIteration workerno main_callback =
     bind app_ShouldExitImmediately (\<lambda>should_exit.
     if should_exit then halt (Exited 1)
     else bind (gets worker_terminated) (\<lambda>terminated.
     if terminated then halt (Exited 0)
     else
       andThen (BPSGIWorker_SetWorkerStatus workerno CHR ''_'')
       (andThen (Callback_Call main_callback)
       (bind (on_shmem IncreaseRequestCounter) (\<lambda>_. ret ())))))"

lemma MainLoopIteration_shrinks:
  assumes "MainLoopIteration workerno sv w = (Ret u, w')"
  shows "length (script w') < length (script w)"
proof -
  from assms obtain b w1 w2 w3 k where
      1: "on_shmem ShouldExitImmediately w = (Ret b, w1)"
    and 2: "on_shmem (SetWorkerStatus workerno (char_byte CHR ''_'')) w1 = (Ret (), w2)"
    and 3: "Callback_Call sv w2 = (Ret (), w3)"
    and 4: "on_shmem IncreaseRequestCounter w3 = (Ret k, w')"
    by (auto simp: MainLoopIteration_def app_ShouldExitImmediately_def andThen_def gets_def
        halt_def BPSGIWorker_SetWorkerStatus_def app_SetWorkerStatus_def ret_def
        elim!: bind_eq_RetE split: if_splits)
  show ?thesis
    using Callback_Call_shrinks [OF 3] on_shmem_script [OF 1] on_shmem_script [OF 2]
      on_shmem_script [OF 4] by simp
qed

text \<open>The endless loop of \<^verbatim>\<open>Run\<close>; every iteration takes an answer of the
  script.\<close>

function worker_loop :: "nat \<Rightarrow> nat \<Rightarrow> (world, int) prog" where
  "worker_loop workerno main_callback w =
     bind (MainLoopIteration workerno main_callback)
       (\<lambda>_ w1. worker_loop workerno main_callback w1) w"
  by pat_completeness auto
termination
  by (relation "measure (\<lambda>(n, sv, w). length (script w))") (auto dest: MainLoopIteration_shrinks)

declare worker_loop.simps [simp del]

definition worker_Run :: "nat \<Rightarrow> nat \<Rightarrow> (world, int) prog" where
  "worker_Run workerno main_callback =
     andThen (SubprocessInit (vsnprintf_buf 64 (''worker '' @ string_of_nat workerno))
       SUBP_DEFAULT_FLAGS)
     (andThen (SetSignalHandler SIGCHLD SIG_DFL)
     (andThen (SetSignalHandler SIGINT SIG_IGN)
     (andThen (SetSignalHandler SIGTERM Worker_sigterm_handler)
     (andThen (SetSignalHandler SIGQUIT Worker_sigquit_handler)
     (andThen UnblockSignals
     (catch (worker_loop workerno main_callback)
       (\<lambda>e. case e of
          PerlInterpreterExn msg \<Rightarrow>
            andThen (Log LS_ERROR (''Perl exception: '' @ msg)) (halt (Exited 1))
        | _ \<Rightarrow> throw e)))))))"

end
