(* ===== verification/Bpsgi_Auxiliary.thy ===== *)
theory Bpsgi_Auxiliary
  imports Bpsgi_Perl
begin

text \<open>
  An auxiliary process: \<^verbatim>\<open>Run\<close> of \<^verbatim>\<open>src/auxiliary.cpp\<close>. The
  objects are the records of the application's list, a process is given by its index there;
  \<^verbatim>\<open>SetPID\<close> and the handler are in \<open>Bpsgi_Perl\<close> and
  \<open>Bpsgi_Process\<close>.
\<close>

definition auxiliary_Run :: "nat \<Rightarrow> (world, int) prog" where
  "auxiliary_Run k =
     bind (gets (\<lambda>w. auxiliary_processes (app w) ! k)) (\<lambda>p.
     andThen (SubprocessInit (aux_name p) SUBP_DEFAULT_FLAGS)
     (andThen (SetSignalHandler SIGCHLD SIG_DFL)
     (andThen (SetSignalHandler SIGINT SIG_DFL)
     (andThen (SetSignalHandler SIGTERM SIG_DFL)
     (andThen (SetSignalHandler SIGQUIT Auxiliary_sigquit_handler)
     (andThen UnblockSignals
     (andThen
       (catch
         (andThen (Callback_Call (aux_callback p))
           (Log LS_ERROR (''Auxiliary process '' @ aux_name p @ '' returned unexpectedly'')))
         (\<lambda>e. case e of
            PerlInterpreterExn msg \<Rightarrow>
              andThen (Log LS_ERROR (''Auxiliary process died with a Perl exception: '' @ msg))
                (halt (Exited 1))
          | _ \<Rightarrow> throw e))
       (halt Aborted))))))))"

end
