(* ===== verification/Bpsgi_Monitoring.thy ===== *)
theory Bpsgi_Monitoring
  imports Bpsgi_Perl
begin

text \<open>
  The monitoring process: \<^verbatim>\<open>src/monitoring.cpp\<close>. It watches over the overseer
  and writes the statistics to every client of the stats socket.
\<close>

section \<open>The statistics\<close>

definition int64_to_string :: "int64 \<Rightarrow> string" where
  "int64_to_string value = string_of_int (sint value)"

definition byte_char :: "byte \<Rightarrow> char" where
  "byte_char b = char_of (unat b)"

definition stat_line :: "string \<Rightarrow> string \<Rightarrow> int64 \<Rightarrow> string" where
  "stat_line what name value = what @ '' '' @ name @ '': '' @ int64_to_string value @ [CHR 0x0A]"

fun sem_lines :: "BPSGISemaphore list \<Rightarrow> (shm, string) prog" where
  "sem_lines [] = ret []"
| "sem_lines (x # xs) =
     bind (BPSGISemaphore_Read x) (\<lambda>v.
     bind (sem_lines xs) (\<lambda>t. ret (stat_line ''sem'' (sem_name x) v @ t)))"

fun atomic_lines :: "BPSGIAtomicInt64 list \<Rightarrow> (shm, string) prog" where
  "atomic_lines [] = ret []"
| "atomic_lines (x # xs) =
     bind (BPSGIAtomicInt64_Read x) (\<lambda>v.
     bind (atomic_lines xs) (\<lambda>t. ret (stat_line ''atomic'' (atm_name x) v @ t)))"

definition statdata :: "int64 \<Rightarrow> byte list \<Rightarrow> (shm, string) prog" where
  "statdata bladepsgi_start_time worker_status_array =
     bind ReadRequestCounter (\<lambda>n.
     bind (bind (gets semaphores) sem_lines) (\<lambda>sems.
     bind (bind (gets atomics) atomic_lines) (\<lambda>atms.
     ret (int64_to_string bladepsgi_start_time @ [CHR 0x0A]
        @ map byte_char worker_status_array @ [CHR 0x0A]
        @ int64_to_string n @ [CHR 0x0A]
        @ [CHR 0x0A]
        @ sems @ atms))))"

definition HandleClient :: "int \<Rightarrow> int64 \<Rightarrow> byte list \<Rightarrow> (world, unit) prog" where
  "HandleClient listensockfd bladepsgi_start_time worker_status_array =
     bind (sys (C_accept listensockfd)) (\<lambda>r.
     if r_ret r = -1 then
       (if r_errno r = EINTR \<or> r_errno r = ECONNABORTED then ret ()
        else throw_errno ''accept'' (r_errno r))
     else
       let clientfd = r_ret r in
       bind (on_shmem (statdata bladepsgi_start_time worker_status_array)) (\<lambda>text.
       andThen (emit (C_write clientfd text))
       (andThen (emit (C_shutdown clientfd))
         (emit (C_close clientfd)))))"

section \<open>The main loop\<close>

definition RunnerDied :: "(world, bool) prog" where
  "RunnerDied = bind (sys C_getppid) (\<lambda>r.
     bind (gets (\<lambda>w. runner_pid (app w))) (\<lambda>pid. ret (r_ret r \<noteq> pid)))"

text \<open>One pass through the body of the loop.\<close>

definition monitoring_iteration :: "int64 \<Rightarrow> (world, unit) prog" where
  "monitoring_iteration bladepsgi_start_time =
     bind RunnerDied (\<lambda>died.
     if died then
       bind (on_shmem SetShouldExitImmediately) (\<lambda>first.
       andThen (if first then Log LS_FATAL
         ''monitoring process noticed that the parent process has died; terminating all processes''
         else ret ())
       (halt (Exited 1)))
     else
       bind (gets (\<lambda>w. (stats_sockfd (app w), nworkers (app w)))) (\<lambda>(listen_sockfd, n).
       bind (sys (C_select (listen_sockfd + 1) 1)) (\<lambda>r.
       if r_ret r = 0 then ret ()
       else if r_ret r = -1 then
         (if r_errno r \<noteq> EINTR then throw_errno ''select'' (r_errno r) else ret ())
       else if r_ret r = 1 then
         bind (on_shmem (GetAllWorkerStatuses n)) (\<lambda>statuses.
         HandleClient listen_sockfd bladepsgi_start_time statuses)
       else throw_fmt ''select'' (''unexpected return value '' @ string_of_int (r_ret r)))))"

lemma HandleClient_script: "HandleClient fd t cs w = (Ret u, w') \<Longrightarrow> length (script w') < length (script w)"
  by (auto simp: HandleClient_def ret_def throw_def andThen_def emit_def modify_def Let_def
      elim!: bind_eq_RetE dest!: sys_shrinks on_shmem_script split: if_splits)

lemma monitoring_iteration_shrinks:
  "monitoring_iteration t w = (Ret u, w') \<Longrightarrow> length (script w') < length (script w)"
  by (auto simp: monitoring_iteration_def RunnerDied_def ret_def throw_def andThen_def gets_def
      halt_def elim!: bind_eq_RetE dest!: sys_shrinks on_shmem_script HandleClient_script
      split: if_splits)

function monitoring_loop :: "int64 \<Rightarrow> (world, int) prog" where
  "monitoring_loop t w = bind (monitoring_iteration t) (\<lambda>_ w1. monitoring_loop t w1) w"
  by pat_completeness auto
termination
  by (relation "measure (\<lambda>(t, w). length (script w))") (auto dest: monitoring_iteration_shrinks)

declare monitoring_loop.simps [simp del]

definition monitoring_Run :: "(world, int) prog" where
  "monitoring_Run =
     andThen (SubprocessInit ''monitoring'' SUBP_NO_DEATHSIG)
     (andThen (SetSignalHandler SIGINT SIG_DFL)
     (andThen (SetSignalHandler SIGTERM SIG_DFL)
     (andThen (SetSignalHandler SIGQUIT Monitoring_sigquit_handler)
     (andThen UnblockSignals
     (bind (sys C_time) (\<lambda>r. monitoring_loop (of_int (r_ret r))))))))"

end
