(* ===== verification/Bpsgi_Spawn.thy ===== *)
theory Bpsgi_Spawn
  imports Bpsgi_Sockets Bpsgi_Worker Bpsgi_Auxiliary Bpsgi_Monitoring
begin

text \<open>
  Creating the processes: \<^verbatim>\<open>SpawnAuxiliaryProcess\<close>, \<^verbatim>\<open>RunWorker\<close>,
  \<^verbatim>\<open>SpawnWorkersAndAuxiliaryProcesses\<close>, \<^verbatim>\<open>SpawnMonitoringProcess\<close>
  and \<^verbatim>\<open>RunMonitoringProcess\<close> of \<^verbatim>\<open>src/bladepsgi.cpp\<close>. The answer
  to \<^verbatim>\<open>fork\<close> says which process the model follows from there on: 0 the child, a
  positive number the parent.
\<close>

definition SpawnAuxiliaryProcess :: "nat \<Rightarrow> (world, unit) prog" where
  "SpawnAuxiliaryProcess k =
     bind (sys C_fork) (\<lambda>r.
     let pid = r_ret r in
     if pid = -1 then throw_errno ''fork'' (r_errno r)
     else if pid = 0 then
       bind (sys C_getpid) (\<lambda>r.
       andThen (SetPID k (r_ret r))
       (bind (auxiliary_Run k) (\<lambda>_. halt Aborted)))
     else if 0 < pid then
       andThen (SetPID k pid)
         (modify (\<lambda>w. w\<lparr>app := (app w)\<lparr>auxiliary_pids := auxiliary_pids (app w) @ [pid]\<rparr>\<rparr>))
     else throw_fmt ''fork'' (''unexpected return value '' @ string_of_int pid))"

text \<open>
  \<open>unwinding interp m\<close>: the scope of the interpreter object. An exception that
  \<^verbatim>\<open>main\<close> catches unwinds the stack, so the object's destructor runs; for any
  other exception there is no handler, and the process is terminated without unwinding. A
  \<^verbatim>\<open>std::logic_error\<close> is the only \<^verbatim>\<open>std::exception\<close> here.
\<close>

definition unwinding :: "BPSGIPerlInterpreter \<Rightarrow> (world, 'a) prog \<Rightarrow> (world, 'a) prog" where
  "unwinding interp m = catch m (\<lambda>e. case e of
       SyscallExn _ \<Rightarrow> andThen (Interpreter_destructor interp) (throw e)
     | RuntimeExn _ \<Rightarrow> andThen (Interpreter_destructor interp) (throw e)
     | _ \<Rightarrow> throw e)"

definition RunWorker :: "nat \<Rightarrow> BPSGIPerlInterpreter \<Rightarrow> nat \<Rightarrow> (world, unit) prog" where
  "RunWorker workerno interpreter main_callback =
     unwinding interpreter
       (andThen (WorkerInitialize workerno)
       (bind (catch (worker_Run workerno main_callback)
          (\<lambda>e. case e of LogicError _ \<Rightarrow> halt Aborted | _ \<Rightarrow> throw e)) (\<lambda>r.
        halt (Exited r))))"

fun spawn_auxiliary_loop :: "nat list \<Rightarrow> (world, unit) prog" where
  "spawn_auxiliary_loop [] = ret ()"
| "spawn_auxiliary_loop (k # ks) = andThen (SpawnAuxiliaryProcess k) (spawn_auxiliary_loop ks)"

definition spawn_worker :: "BPSGIPerlInterpreter \<Rightarrow> nat \<Rightarrow> nat \<Rightarrow> (world, unit) prog" where
  "spawn_worker interpreter main_callback workerno =
     bind (sys C_fork) (\<lambda>r.
     let pid = r_ret r in
     if pid = -1 then throw_errno ''fork'' (r_errno r)
     else if pid = 0 then
       andThen (RunWorker workerno interpreter main_callback) (halt Aborted)
     else if 0 < pid then
       andThen (modify (\<lambda>w. w\<lparr>app := (app w)\<lparr>worker_pids := worker_pids (app w) @ [pid]\<rparr>\<rparr>))
       (bind (gets (\<lambda>w. worker_pids (app w))) (\<lambda>pids.
        Assert (workerno < length pids \<and> pids ! workerno = pid)))
     else throw_fmt ''fork'' (''unexpected return value '' @ string_of_int pid))"

fun spawn_workers_loop ::
  "BPSGIPerlInterpreter \<Rightarrow> nat \<Rightarrow> nat list \<Rightarrow> (world, unit) prog" where
  "spawn_workers_loop interpreter main_callback [] = ret ()"
| "spawn_workers_loop interpreter main_callback (n # ns) =
     andThen (spawn_worker interpreter main_callback n)
       (spawn_workers_loop interpreter main_callback ns)"

text \<open>The handlers of \<^verbatim>\<open>PerlInterpreterException\<close>: a line in the log, then
  the process ends.\<close>

definition perl_or_exit :: "string \<Rightarrow> (world, 'a) prog \<Rightarrow> (world, 'a) prog" where
  "perl_or_exit what m = catch m (\<lambda>e. case e of
       PerlInterpreterExn msg \<Rightarrow> andThen (Log LS_ERROR (what @ '': '' @ msg)) (halt (Exited 1))
     | _ \<Rightarrow> throw e)"

text \<open>The Perl code of \<^verbatim>\<open>fastcgi_wrapper_loader.cpp\<close> is handed to the
  interpreter as a string, whatever it is; the argument \<open>wrapper\<close> stands for it. What the
  code does is modelled in \<open>Bpsgi_FastCGI\<close>.\<close>

definition SpawnWorkersAndAuxiliaryProcesses :: "string \<Rightarrow> (world, unit) prog" where
  "SpawnWorkersAndAuxiliaryProcesses wrapper =
     bind (perl_or_exit ''Could not initialize Perl interpreter'' InitializePerlInterpreter)
     (\<lambda>interpreter.
     bind (unwinding interpreter
       (bind (perl_or_exit ''Could not initialize PSGI application''
                (LoadCallbackFromCString wrapper)) (\<lambda>wrapper_loader_callback.
        bind (perl_or_exit ''Could not initialize PSGI loader or callback''
                (CallAndReceiveCallback wrapper_loader_callback)) (\<lambda>main_callback.
        andThen (on_shmem LockAllocations)
        (bind (gets (\<lambda>w. length (auxiliary_processes (app w)))) (\<lambda>naux.
         andThen (spawn_auxiliary_loop [0..<naux])
         (bind (gets (\<lambda>w. nworkers (app w))) (\<lambda>n.
          andThen (spawn_workers_loop interpreter main_callback [0..<nat n])
            (Interpreter_Destroy interpreter)))))))))
     Interpreter_destructor)"

definition RunMonitoringProcess :: "(world, unit) prog" where
  "RunMonitoringProcess =
     bind (catch monitoring_Run
       (\<lambda>e. case e of
          LogicError what \<Rightarrow>
            bind app_SetShouldExitImmediately (\<lambda>first.
            andThen (if first then Log LS_FATAL (''monitoring process crashed: '' @ what) else ret ())
            (andThen (KillProcessGroup SIGQUIT) (halt (Exited 1))))
        | _ \<Rightarrow> throw e)) (\<lambda>r.
     halt (Exited r))"

definition SpawnMonitoringProcess :: "(world, unit) prog" where
  "SpawnMonitoringProcess =
     andThen (bind (sys C_fork) (\<lambda>r.
       let pid = r_ret r in
       if pid = -1 then throw_errno ''fork'' (r_errno r)
       else if pid = 0 then RunMonitoringProcess
       else if 0 < pid then
         modify (\<lambda>w. w\<lparr>app := (app w)\<lparr>monitoring_process_pid := pid\<rparr>\<rparr>)
       else throw_fmt ''fork'' (''unexpected return value '' @ string_of_int pid)))
     (bind (gets (\<lambda>w. stats_sockfd (app w))) (\<lambda>fd. emit (C_close fd)))"

end
