(* ===== verification/Bpsgi_Overseer.thy ===== *)
theory Bpsgi_Overseer
  imports Bpsgi_Spawn
begin

text \<open>
  The overseer: \<^verbatim>\<open>HandleUnexpectedChildProcessDeath\<close>,
  \<^verbatim>\<open>HandleChildProcessDeath\<close> and \<^verbatim>\<open>Run\<close> of
  \<^verbatim>\<open>src/bladepsgi.cpp\<close>: start-up with all signals blocked, then the loop that waits
  for the self-pipe, acts on shutdown requests and reaps children.
\<close>

text \<open>The calls \<^verbatim>\<open>KillProcessGroup\<close> makes.\<close>

definition group_kills :: "int \<Rightarrow> mainapp \<Rightarrow> call list" where
  "group_kills sig a = map (\<lambda>pid. C_kill pid sig) (worker_pids a)
     @ (if monitoring_process_pid a \<noteq> -1 then [C_kill (monitoring_process_pid a) sig] else [])"

section \<open>Dead children\<close>

text \<open>The status word of \<^verbatim>\<open>waitpid\<close>.\<close>

definition WTERMSIG :: "int \<Rightarrow> int" where
  "WTERMSIG status = status AND 127"

definition WEXITSTATUS :: "int \<Rightarrow> int" where
  "WEXITSTATUS status = drop_bit 8 (status AND 65280)"

definition WIFSIGNALED :: "int \<Rightarrow> bool" where
  "WIFSIGNALED status \<longleftrightarrow> 0 < WTERMSIG status \<and> WTERMSIG status < 127"

definition death_message :: "string \<Rightarrow> int \<Rightarrow> int \<Rightarrow> string" where
  "death_message process pid status =
     (if WIFSIGNALED status
      then process @ '' (pid '' @ string_of_int pid @ '') died to signal ''
             @ string_of_int (WTERMSIG status)
      else process @ '' (pid '' @ string_of_int pid @ '') exited with code ''
             @ string_of_int (WEXITSTATUS status))"

definition HandleUnexpectedChildProcessDeath :: "string \<Rightarrow> int \<Rightarrow> int \<Rightarrow> (world, unit) prog" where
  "HandleUnexpectedChildProcessDeath process pid status =
     bind (on_shmem SetShouldExitImmediately) (\<lambda>first.
     andThen (if first then Log LS_PANIC (death_message process pid status) else ret ())
     (andThen (KillProcessGroup SIGQUIT) (halt (Exited 1))))"

definition HandleChildProcessDeath :: "int \<Rightarrow> int \<Rightarrow> (world, unit) prog" where
  "HandleChildProcessDeath pid status =
     bind (gets (\<lambda>w. (app w, mainapp_shutdown w))) (\<lambda>(a, shutdown).
     if pid \<in> set (worker_pids a) then
       andThen (if \<not> shutdown then HandleUnexpectedChildProcessDeath ''worker process'' pid status
                else ret ())
         (modify (\<lambda>w. w\<lparr>app := (app w)\<lparr>worker_pids := remove1 pid (worker_pids (app w))\<rparr>\<rparr>))
     else if pid \<in> set (auxiliary_pids a) then
       andThen
         (if \<not> shutdown then
            (case find (\<lambda>p. aux_pid p = pid) (auxiliary_processes a) of
               None \<Rightarrow> halt Aborted
             | Some p \<Rightarrow>
                 HandleUnexpectedChildProcessDeath (''auxiliary process '' @ aux_name p) pid status)
          else ret ())
         (modify (\<lambda>w. w\<lparr>app := (app w)\<lparr>auxiliary_pids := remove1 pid (auxiliary_pids (app w))\<rparr>\<rparr>))
     else if pid = monitoring_process_pid a then
       andThen (if \<not> shutdown then HandleUnexpectedChildProcessDeath ''monitoring process'' pid status
                else ret ())
         (modify (\<lambda>w. w\<lparr>app := (app w)\<lparr>monitoring_process_pid := -1\<rparr>\<rparr>))
     else
       bind (on_shmem SetShouldExitImmediately) (\<lambda>_.
       andThen (Log LS_FATAL (''unknown child process '' @ string_of_int pid @ '' exited with code ''
                  @ string_of_int (WEXITSTATUS status)))
         (halt (Exited 1))))"

section \<open>The main loop\<close>

text \<open>The loop around \<^verbatim>\<open>waitagain\<close>; the answer to \<^verbatim>\<open>waitpid\<close>
  comes with the status. It returns when there is no child to reap at the moment.\<close>

lemma HandleChildProcessDeath_script:
  assumes "HandleChildProcessDeath pid status w = (Ret u, w')"
  shows "length (script w') \<le> length (script w)"
  using assms
  by (auto simp: HandleChildProcessDeath_def HandleUnexpectedChildProcessDeath_def andThen_def
      gets_def halt_def ret_def modify_def elim!: bind_eq_RetE split: if_splits option.splits)

function wait_loop :: "(world, unit) prog" where
  "wait_loop w =
     bind (sys C_waitpid) (\<lambda>r w1.
       if r_ret r = -1 then
         (if r_errno r = ECHILD then
            andThen (Log LS_LOG ''BladePSGI shutting down'') (halt (Exited 0)) w1
          else if r_errno r \<noteq> EINTR then throw_errno ''waitpid'' (r_errno r) w1
          else wait_loop w1)
       else if r_ret r = 0 then ret () w1
       else bind (HandleChildProcessDeath (r_ret r) (out r 0)) (\<lambda>_ w2. wait_loop w2) w1) w"
  by pat_completeness auto
termination
  by (relation "measure (\<lambda>w. length (script w))")
    (auto dest!: sys_shrinks HandleChildProcessDeath_script)

declare wait_loop.simps [simp del]

definition wait_select :: "(world, unit) prog" where
  "wait_select =
     bind (gets (\<lambda>w. fst (overseer_self_pipe w))) (\<lambda>fd.
     bind (sys (C_select (fd + 1) 3)) (\<lambda>r.
     if r_ret r = 0 then ret ()
     else if r_ret r = -1 then
       (if r_errno r \<noteq> EINTR then throw_errno ''select'' (r_errno r) else ret ())
     else if r_ret r = 1 then DrainSelfPipe
     else throw_fmt ''select'' (''unexpected return value '' @ string_of_int (r_ret r))))"

definition handle_shutdown_requests :: "(world, unit) prog" where
  "handle_shutdown_requests =
     bind (gets (\<lambda>w. (mainapp_fast_shutdown w, mainapp_smart_shutdown w))) (\<lambda>(fast, smart).
     if fast then
       andThen (Log LS_LOG ''received fast shutdown request'')
       (andThen (KillProcessGroup SIGQUIT)
         (modify (\<lambda>w. w\<lparr>mainapp_fast_shutdown := False\<rparr>)))
     else if smart then
       bind (gets mainapp_force_fast_shutdown) (\<lambda>force_fast.
       if force_fast then
         andThen (Log LS_LOG ''received second smart shutdown request; shutting down quickly'')
         (andThen (KillProcessGroup SIGQUIT)
           (modify (\<lambda>w. w\<lparr>mainapp_smart_shutdown := False\<rparr>)))
       else
         andThen (Log LS_LOG ''received smart shutdown request'')
         (andThen (KillProcessGroup SIGTERM)
         (andThen (modify (\<lambda>w. w\<lparr>mainapp_smart_shutdown := False\<rparr>))
           (modify (\<lambda>w. w\<lparr>mainapp_force_fast_shutdown := True\<rparr>)))))
     else ret ())"

definition overseer_iteration :: "(world, unit) prog" where
  "overseer_iteration = andThen wait_select (andThen handle_shutdown_requests wait_loop)"

lemma KillProcessGroup_eq:
  "sig = SIGQUIT \<or> sig = SIGTERM \<Longrightarrow> KillProcessGroup sig w =
     (Ret (), w\<lparr>trace := trace w @ group_kills sig (app w)\<rparr>)"
  by (auto simp: KillProcessGroup_def group_kills_def andThen_def bind_def gets_def ret_def Assert_def
      emit_all_eq emit_def modify_def)

lemma Log_shrinks: "Log s m w = (Ret u, w') \<Longrightarrow> length (script w') < length (script w)"
  by (auto simp: Log_def emit_def modify_def throw_def elim!: bind_eq_RetE dest!: sys_shrinks
      split: if_splits)

lemma DrainSelfPipe_shrinks:
  "DrainSelfPipe w = (Ret u, w') \<Longrightarrow> length (script w') < length (script w)"
proof (induction w rule: DrainSelfPipe.induct)
  case (1 w)
  then obtain r w1 where s: "sys (C_read (fst (overseer_self_pipe w)) 10) w = (Ret r, w1)"
    and k: "(0 < r_ret r \<or> r_ret r = -1 \<and> r_errno r = EINTR) \<and> DrainSelfPipe w1 = (Ret u, w')
      \<or> w' = w1"
    by (subst (asm) DrainSelfPipe.simps)
      (auto simp: ret_def throw_def elim!: bind_eq_RetE split: if_splits)
  from k show ?case
    using sys_shrinks [OF s] "1.IH"(1) [OF s] "1.IH"(2) [OF s] by fastforce
qed

lemma keeps_ret_DrainSelfPipe:
  assumes "\<And>c. keeps_ret P (sys c)"
  shows "keeps_ret P DrainSelfPipe"
proof -
  have "P w \<Longrightarrow> DrainSelfPipe w = (Ret u, w') \<Longrightarrow> P w'" for w u w'
  proof (induction w rule: DrainSelfPipe.induct)
    case (1 w)
    from "1.prems"(2) obtain r w1 where s: "sys (C_read (fst (overseer_self_pipe w)) 10) w = (Ret r, w1)"
      and k: "(0 < r_ret r \<or> r_ret r = -1 \<and> r_errno r = EINTR) \<and> DrainSelfPipe w1 = (Ret u, w')
        \<or> w' = w1"
      by (subst (asm) DrainSelfPipe.simps)
        (auto simp: ret_def throw_def elim!: bind_eq_RetE split: if_splits)
    then show ?case
      using keeps_retD [OF assms "1.prems"(1) s] "1.IH"(1) [OF s] "1.IH"(2) [OF s] by fastforce
  qed
  then show ?thesis by (auto simp: keeps_ret_def)
qed

lemma handle_shutdown_requests_script:
  "handle_shutdown_requests w = (Ret u, w') \<Longrightarrow> length (script w') \<le> length (script w)"
  by (auto simp: handle_shutdown_requests_def andThen_def gets_def ret_def modify_def KillProcessGroup_eq
      elim!: bind_eq_RetE dest!: Log_shrinks split: if_splits)

lemma wait_select_shrinks: "wait_select w = (Ret u, w') \<Longrightarrow> length (script w') < length (script w)"
  by (auto simp: wait_select_def gets_def ret_def throw_def elim!: bind_eq_RetE
      dest!: sys_shrinks DrainSelfPipe_shrinks split: if_splits)

lemma wait_loop_RetE:
  assumes "wait_loop w = (Ret u, w')"
  obtains r w1 where "sys C_waitpid w = (Ret r, w1)"
    "w' = w1 \<or> r_ret r = -1 \<and> r_errno r = EINTR \<and> wait_loop w1 = (Ret u, w') \<or>
     r_ret r \<noteq> -1 \<and> r_ret r \<noteq> 0 \<and>
       (\<exists>w2. HandleChildProcessDeath (r_ret r) (out r 0) w1 = (Ret (), w2) \<and> wait_loop w2 = (Ret u, w'))"
  using assms
  by (subst (asm) (2) wait_loop.simps)
    (auto simp: ret_def throw_def andThen_def halt_def errno_defs elim!: bind_eq_RetE split: if_splits)

lemma wait_loop_shrinks: "wait_loop w = (Ret u, w') \<Longrightarrow> length (script w') < length (script w)"
proof (induction w rule: wait_loop.induct)
  case (1 w)
  from "1.prems" show ?case
  proof (rule wait_loop_RetE)
    fix r w1
    assume s: "sys C_waitpid w = (Ret r, w1)" and
      "w' = w1 \<or> r_ret r = -1 \<and> r_errno r = EINTR \<and> wait_loop w1 = (Ret u, w') \<or>
       r_ret r \<noteq> -1 \<and> r_ret r \<noteq> 0 \<and>
         (\<exists>w2. HandleChildProcessDeath (r_ret r) (out r 0) w1 = (Ret (), w2) \<and> wait_loop w2 = (Ret u, w'))"
    then show ?thesis
      using sys_shrinks [OF s] "1.IH"(1) [OF s] "1.IH"(2) [OF s] HandleChildProcessDeath_script
      by (fastforce simp: errno_defs)
  qed
qed

text \<open>A predicate that waiting for a child and taking note of its death keep.\<close>

lemma keeps_ret_wait_loop:
  assumes "keeps_ret P (sys C_waitpid)" and "\<And>p st. keeps_ret P (HandleChildProcessDeath p st)"
  shows "keeps_ret P wait_loop"
proof -
  have "P w \<Longrightarrow> wait_loop w = (Ret u, w') \<Longrightarrow> P w'" for w u w'
  proof (induction w rule: wait_loop.induct)
    case (1 w)
    from "1.prems"(2) show ?case
    proof (rule wait_loop_RetE)
      fix r w1
      assume s: "sys C_waitpid w = (Ret r, w1)" and
        "w' = w1 \<or> r_ret r = -1 \<and> r_errno r = EINTR \<and> wait_loop w1 = (Ret u, w') \<or>
         r_ret r \<noteq> -1 \<and> r_ret r \<noteq> 0 \<and>
           (\<exists>w2. HandleChildProcessDeath (r_ret r) (out r 0) w1 = (Ret (), w2) \<and> wait_loop w2 = (Ret u, w'))"
      then show ?thesis
        using "1.IH"(1) [OF s] "1.IH"(2) [OF s] keeps_retD [OF assms(1) "1.prems"(1) s] keeps_retD [OF assms(2)]
        by (fastforce simp: errno_defs)
    qed
  qed
  then show ?thesis by (auto simp: keeps_ret_def)
qed

lemma overseer_iteration_shrinks:
  "overseer_iteration w = (Ret u, w') \<Longrightarrow> length (script w') < length (script w)"
  by (auto simp: overseer_iteration_def andThen_def elim!: bind_eq_RetE
      dest!: wait_select_shrinks handle_shutdown_requests_script wait_loop_shrinks)

function overseer_loop :: "(world, int) prog" where
  "overseer_loop w = bind overseer_iteration (\<lambda>_ w1. overseer_loop w1) w"
  by pat_completeness auto
termination
  by (relation "measure (\<lambda>w. length (script w))") (auto dest: overseer_iteration_shrinks)

declare overseer_loop.simps [simp del]

lemmas overseer_run_defs = overseer_iteration_def wait_select_def handle_shutdown_requests_def
  wait_loop.simps DrainSelfPipe.simps Log_def

section \<open>Start-up\<close>

definition startup :: "string \<Rightarrow> (world, unit) prog" where
  "startup wrapper =
     andThen BlockSignals
     (andThen (Log LS_LOG ''BladePSGI starting up'')
     (andThen InitializeSelfPipe
     (andThen InitializeSharedMemory
     (andThen InitializeMainFastCGISocket
     (andThen InitializeStatsSocket
     (andThen (Log LS_LOG ''starting up worker processes'')
     (andThen (SpawnWorkersAndAuxiliaryProcesses wrapper)
     (andThen SpawnMonitoringProcess
     (andThen (SetSignalHandler SIGCHLD Overseer_signal_handler)
     (andThen (SetSignalHandler SIGINT Overseer_signal_handler)
     (andThen (SetSignalHandler SIGTERM Overseer_signal_handler)
     (andThen (SetSignalHandler SIGQUIT Overseer_signal_handler)
     (andThen UnblockSignals
     (andThen (SetProcessTitle ''overseer'')
       (Log LS_LOG ''BladePSGI startup complete'')))))))))))))))"

definition Run :: "string \<Rightarrow> (world, int) prog" where
  "Run wrapper = andThen (startup wrapper) overseer_loop"

end
