(* ===== verification/Bpsgi_Invariants.thy ===== *)
theory Bpsgi_Invariants
  imports Bpsgi_Overseer
begin

text \<open>
  Invariants of whole runs. Every interaction of the program with its surroundings goes
  through the calls of \<open>Bpsgi_Process\<close>; a predicate on the state that survives the calls
  and the signal handlers, and does not look at the parts of the state the components work on
  privately, therefore holds throughout. The locales state, layer by layer, what such a
  predicate has to satisfy, and carry it through the code of that layer once and for all:
  \<open>call_invariant\<close> for code that only makes calls, \<open>reaping_invariant\<close> for the
  reaping of children, \<open>overseer_invariant\<close> for the overseer's main loop, and
  \<open>forking_invariant\<close> for the whole program, forks included. \<open>return_invariant\<close> and
  \<open>loop_invariant\<close> are for predicates that need to hold only where a run returns. The
  instances are in \<open>Bpsgi_Pids\<close>, \<open>Bpsgi_Shutdown\<close> and \<open>Bpsgi_Startup\<close>.
\<close>

fun is_kill :: "call \<Rightarrow> bool" where
  "is_kill (C_kill p s) = True"
| "is_kill _ = False"

fun is_read :: "call \<Rightarrow> bool" where
  "is_read (C_read fd n) = True"
| "is_read _ = False"

text \<open>The part of the state an invariant may look at.\<close>

definition view :: "world \<Rightarrow> int list \<times> int \<times> call list \<times> bool \<times> bool \<times> bool \<times> (int \<times> int)" where
  "view w = (worker_pids (app w), monitoring_process_pid (app w), trace w,
     mainapp_fast_shutdown w, mainapp_smart_shutdown w, mainapp_force_fast_shutdown w,
     overseer_self_pipe w)"

lemma keeps_run_handler:
  assumes "keeps P (KillProcessGroup SIGQUIT)" and "\<And>fd t. keeps P (emit (C_write fd t))"
    and "keeps P (modify (\<lambda>w. w\<lparr>mainapp_smart_shutdown := True, mainapp_shutdown := True\<rparr>))"
    and "keeps P (modify (\<lambda>w. w\<lparr>mainapp_fast_shutdown := True, mainapp_shutdown := True\<rparr>))"
    and "keeps P (modify (\<lambda>w. w\<lparr>worker_terminated := True\<rparr>))"
  shows "keeps P (run_handler h sig wr)"
proof -
  have "keeps P (HandleParentSignal sig wr)"
    unfolding HandleParentSignal_def
    by (intro keeps_andThen keeps_bind) (auto intro!: keeps_intros assms)
  with assms(5) show ?thesis
    by (cases h) (auto simp: overseer_signal_handler_def worker_sigterm_handler_def
        worker_sigquit_handler_def monitoring_sigquit_handler_def auxiliary_sigquit_handler_def)
qed

section \<open>Calls\<close>

locale call_invariant =
  fixes inv :: "world \<Rightarrow> bool" and ok :: "call \<Rightarrow> bool"
  assumes frame: "view w' = view w \<Longrightarrow> inv w \<Longrightarrow> inv w'"
    and ok_plain: "\<not> is_kill c \<Longrightarrow> \<not> is_read c \<Longrightarrow> ok c"
    and call: "inv w \<Longrightarrow> ok c \<Longrightarrow> inv (w\<lparr>trace := trace w @ [c]\<rparr>)"
    and handler: "keeps inv (run_handler h sig wr)"
begin

lemma keeps_same: "(\<And>w. view (snd (m w)) = view w) \<Longrightarrow> keeps inv m"
  by (rule keepsI) (metis frame)

lemma keeps_modify: "(\<And>w. view (f w) = view w) \<Longrightarrow> keeps inv (modify f)"
  by (rule keeps_same) (simp add: modify_def)

lemma keeps_memcpy_args: "keeps inv (memcpy_args a s)"
  by (rule keeps_same) (simp add: memcpy_args_def view_def)

lemma keeps_emit: "ok c \<Longrightarrow> keeps inv (emit c)"
  by (simp add: keeps_def emit_def modify_def call)

lemma keeps_deliver: "keeps inv (deliver sig wr)"
proof (rule keepsI)
  fix w assume "inv w"
  then show "inv (snd (deliver sig wr w))"
    using handler by (auto simp: deliver_def keeps_def view_def intro: frame [rotated])
qed

lemma keeps_answer: "ok c \<Longrightarrow> keeps inv (answer c es)"
proof (induction c es rule: answer.induct)
  case (1 c)
  then show ?case by (auto simp: keeps_def view_def intro: frame [rotated, OF call])
next
  case (2 c q es)
  show ?case
  proof (rule keepsI)
    fix w assume "inv w"
    with 2 have "inv (w\<lparr>trace := trace w @ [c]\<rparr>)" by (rule call [rotated])
    then have "inv (w\<lparr>trace := trace w @ recorded c q\<rparr>)"
      using call [of "w\<lparr>trace := trace w @ [c]\<rparr>" "C_forked (r_ret q)"]
      by (cases "c = C_fork") (simp_all add: ok_plain)
    then show "inv (snd (answer c (Resp q # es) w))"
      by (rule frame [rotated]) (simp add: view_def)
  qed
next
  case (3 c sig wr es)
  then show ?case
    by (auto simp: view_def intro!: keeps_andThen keeps_deliver keeps_modify)
next
  case (4 c x es)
  then have "keeps inv (answer c es)" .
  moreover have "inv w \<Longrightarrow> inv (peer x (w\<lparr>script := es\<rparr>))" for w
    by (erule frame [rotated]) (simp add: view_def peer_def)
  ultimately show ?case by (simp add: keeps_def)
qed

lemma keeps_sys: "ok c \<Longrightarrow> keeps inv (sys c)"
  using keeps_answer by (simp add: keeps_def sys_def)

lemma keeps_plain_sys: "\<not> is_kill c \<Longrightarrow> \<not> is_read c \<Longrightarrow> keeps inv (sys c)"
  by (rule keeps_sys) (rule ok_plain)

lemma keeps_plain_emit: "\<not> is_kill c \<Longrightarrow> \<not> is_read c \<Longrightarrow> keeps inv (emit c)"
  by (rule keeps_emit) (rule ok_plain)

lemma keeps_shmem: "keeps inv (on_shmem m)"
  by (rule keeps_same) (auto simp: on_shmem_def view_def split: option.splits prod.splits)

lemma keeps_Log: "keeps inv (Log s m)"
  unfolding Log_def by (auto intro!: keeps_bind keeps_plain_sys keeps_plain_emit)

lemma keeps_SetSignalHandler: "keeps inv (SetSignalHandler s h)"
  unfolding SetSignalHandler_def by (auto simp: view_def intro!: keeps_bind keeps_plain_sys keeps_modify)

lemma keeps_deliver_all: "keeps inv (deliver_all ps)"
  by (induction ps rule: deliver_all.induct) (auto intro: keeps_andThen keeps_deliver)

lemma keeps_UnblockSignals: "keeps inv UnblockSignals"
  unfolding UnblockSignals_def set_sigmask_def
  by (auto simp: view_def intro!: keeps_intros keeps_plain_emit keeps_modify keeps_deliver_all
      split: list.split)

lemma keeps_SetProcessTitle: "keeps inv (SetProcessTitle t)"
  unfolding SetProcessTitle_def Let_def
  by (auto intro!: keeps_intros keeps_plain_sys keeps_memcpy_args split: prod.split)

lemma keeps_SubprocessInit: "keeps inv (SubprocessInit t fl)"
  unfolding SubprocessInit_def
  by (auto intro!: keeps_intros keeps_plain_sys keeps_Log keeps_SetProcessTitle)

lemma keeps_app_SetShouldExitImmediately: "keeps inv app_SetShouldExitImmediately"
  unfolding app_SetShouldExitImmediately_def
  by (auto intro!: keeps_intros keeps_shmem split: option.split)

end

section \<open>Predicates of runs that return\<close>

text \<open>A predicate about the signals and the script need not survive a call that does not
  return. This is the part of the state it may look at besides what calls do.\<close>

definition bview ::
  "world \<Rightarrow> event list \<times> (int \<times> (int \<times> int)) list \<times> int set \<times> int set list \<times> bool \<times> bool" where
  "bview w = (script w, sigpending w, sigmask w, signal_mask_stack (app w), mainapp_fast_shutdown w,
     mainapp_smart_shutdown w)"

locale return_invariant =
  fixes inv :: "world \<Rightarrow> bool"
  assumes call: "keeps_ret inv (sys c)"
    and frame: "bview w' = bview w \<Longrightarrow> inv w \<Longrightarrow> inv w'"
begin

lemma returns_modify: "(\<And>w. bview (f w) = bview w) \<Longrightarrow> keeps_ret inv (modify f)"
  using frame by (auto simp: keeps_ret_def modify_def)

lemma returns_emit: "keeps_ret inv (emit c)"
  unfolding emit_def by (rule returns_modify) (simp add: bview_def)

lemma returns_shmem: "keeps_ret inv (on_shmem m)"
  unfolding keeps_ret_def
  by (auto simp: on_shmem_def bview_def intro: frame [rotated] split: option.splits prod.splits)

lemma returns_Log: "keeps_ret inv (Log s m)"
  unfolding Log_def by (auto intro!: keeps_ret_bind call returns_emit)

lemma returns_SetSignalHandler: "keeps_ret inv (SetSignalHandler s h)"
  unfolding SetSignalHandler_def by (auto simp: bview_def intro!: keeps_ret_bind call returns_modify)

end

text \<open>In the main loop the overseer also takes back requests.\<close>

locale loop_invariant = return_invariant +
  assumes taken_back: "inv w \<Longrightarrow> inv (w\<lparr>mainapp_fast_shutdown := False\<rparr>)"
    "inv w \<Longrightarrow> inv (w\<lparr>mainapp_smart_shutdown := False\<rparr>)"
begin

lemma returns_taken_back:
  "keeps_ret inv (modify (\<lambda>w. w\<lparr>mainapp_fast_shutdown := False\<rparr>))"
  "keeps_ret inv (modify (\<lambda>w. w\<lparr>mainapp_smart_shutdown := False\<rparr>))"
  by (simp_all add: keeps_ret_def modify_def taken_back)

lemma returns_KillProcessGroup: "keeps_ret inv (KillProcessGroup s)"
proof -
  have "keeps_ret inv (emit_all cs)" for cs
    by (induction cs) (auto intro!: keeps_ret_andThen returns_emit)
  then show ?thesis
    unfolding KillProcessGroup_def by (auto intro!: keeps_ret_intros returns_emit)
qed

lemma returns_HandleChildProcessDeath: "keeps_ret inv (HandleChildProcessDeath p s)"
  unfolding HandleChildProcessDeath_def HandleUnexpectedChildProcessDeath_def
  by (auto simp: bview_def intro!: keeps_ret_intros returns_shmem returns_Log returns_KillProcessGroup
      returns_modify split: option.split prod.split)

lemma returns_wait_loop: "keeps_ret inv wait_loop"
  by (intro keeps_ret_wait_loop call returns_HandleChildProcessDeath)

lemma returns_DrainSelfPipe: "keeps_ret inv DrainSelfPipe"
  by (intro keeps_ret_DrainSelfPipe call)

lemma returns_wait_select: "keeps_ret inv wait_select"
  unfolding wait_select_def by (auto intro!: keeps_ret_intros call returns_DrainSelfPipe)

lemma returns_handle_shutdown_requests: "keeps_ret inv handle_shutdown_requests"
  unfolding handle_shutdown_requests_def
  by (auto simp: bview_def intro!: keeps_ret_intros returns_Log returns_KillProcessGroup
      returns_taken_back returns_modify)

lemma returns_overseer_iteration: "keeps_ret inv overseer_iteration"
  unfolding overseer_iteration_def
  by (intro keeps_ret_andThen returns_wait_select returns_handle_shutdown_requests returns_wait_loop)

end

section \<open>Reaping children\<close>

locale reaping_invariant = call_invariant +
  assumes kill_group: "keeps inv (KillProcessGroup SIGQUIT)"
    and reap_worker:
      "inv w \<Longrightarrow> inv (w\<lparr>app := (app w)\<lparr>worker_pids := remove1 p (worker_pids (app w))\<rparr>\<rparr>)"
    and reap_monitoring: "inv w \<Longrightarrow> inv (w\<lparr>app := (app w)\<lparr>monitoring_process_pid := -1\<rparr>\<rparr>)"
begin

lemma keeps_HandleUnexpectedChildProcessDeath: "keeps inv (HandleUnexpectedChildProcessDeath n p s)"
  unfolding HandleUnexpectedChildProcessDeath_def
  by (auto intro!: keeps_intros keeps_shmem keeps_Log kill_group)

lemma keeps_HandleChildProcessDeath: "keeps inv (HandleChildProcessDeath p s)"
proof -
  have "keeps inv (modify (\<lambda>w. w\<lparr>app := (app w)\<lparr>worker_pids := remove1 p (worker_pids (app w))\<rparr>\<rparr>))"
    "keeps inv (modify (\<lambda>w. w\<lparr>app := (app w)\<lparr>monitoring_process_pid := -1\<rparr>\<rparr>))"
    "keeps inv (modify (\<lambda>w. w\<lparr>app := (app w)\<lparr>auxiliary_pids := remove1 p (auxiliary_pids (app w))\<rparr>\<rparr>))"
    by (auto simp: keeps_def modify_def view_def intro: reap_worker reap_monitoring frame [rotated])
  then show ?thesis
    unfolding HandleChildProcessDeath_def
    by (auto intro!: keeps_intros keeps_HandleUnexpectedChildProcessDeath keeps_shmem keeps_Log
        split: option.split prod.split)
qed

lemma keeps_wait_loop: "keeps inv wait_loop"
proof (rule keepsI)
  fix w assume "inv w"
  then show "inv (snd (wait_loop w))"
  proof (induction w rule: wait_loop.induct)
    case (1 w)
    obtain q w1 where s: "sys C_waitpid w = (q, w1)" by fastforce
    have w1: "inv w1" using keepsD [OF keeps_plain_sys "1.prems" s] by simp
    have lg: "inv (snd (andThen (Log LS_LOG m) (halt (Exited 0)) w1))" for m
      by (rule keepsD [OF keeps_andThen [OF keeps_Log keeps_pure(3)] w1 prod.collapse [symmetric]])
    have "inv (snd (bind (HandleChildProcessDeath p st) (\<lambda>_ w2. wait_loop w2) w1))"
      if "\<And>u w2. HandleChildProcessDeath p st w1 = (Ret u, w2) \<Longrightarrow> inv w2 \<Longrightarrow> inv (snd (wait_loop w2))"
      for p st
      using that keepsD [OF keeps_HandleChildProcessDeath w1]
      by (auto simp: bind_def split: prod.split outcome.split)
    with s w1 lg "1.IH" show ?case
      by (subst wait_loop.simps)
        (auto simp: bind_def [of "sys C_waitpid"] ret_def throw_def split: outcome.split)
  qed
qed

end

section \<open>The main loop of the overseer\<close>

locale overseer_invariant = reaping_invariant +
  assumes ok_read: "ok (C_read fd n)"
    and shutdown: "keeps inv handle_shutdown_requests"
begin

lemma keeps_DrainSelfPipe: "keeps inv DrainSelfPipe"
proof (rule keepsI)
  fix w assume "inv w"
  then show "inv (snd (DrainSelfPipe w))"
  proof (induction w rule: DrainSelfPipe.induct)
    case (1 w)
    obtain q w1 where s: "sys (C_read (fst (overseer_self_pipe w)) 10) w = (q, w1)" by fastforce
    have "inv w1" using keepsD [OF keeps_sys [OF ok_read] "1.prems" s] .
    then show ?case
      using s "1.IH" by (subst DrainSelfPipe.simps)
        (auto simp: bind_def ret_def throw_def split: outcome.split)
  qed
qed

lemma keeps_wait_select: "keeps inv wait_select"
  unfolding wait_select_def by (auto intro!: keeps_intros keeps_plain_sys keeps_DrainSelfPipe)

lemma keeps_overseer_iteration: "keeps inv overseer_iteration"
  unfolding overseer_iteration_def
  by (intro keeps_andThen keeps_wait_select shutdown keeps_wait_loop)

lemma keeps_overseer_loop: "keeps inv overseer_loop"
  by (rule keeps_loop [OF overseer_loop.simps keeps_overseer_iteration overseer_iteration_shrinks])

end

section \<open>The whole program\<close>

locale forking_invariant = overseer_invariant +
  assumes fork_worker: "inv w \<Longrightarrow> 0 < p \<Longrightarrow> C_forked p \<in> set (trace w) \<Longrightarrow>
        inv (w\<lparr>app := (app w)\<lparr>worker_pids := worker_pids (app w) @ [p]\<rparr>\<rparr>)"
    and fork_monitoring: "inv w \<Longrightarrow> 0 < p \<Longrightarrow> C_forked p \<in> set (trace w) \<Longrightarrow>
        inv (w\<lparr>app := (app w)\<lparr>monitoring_process_pid := p\<rparr>\<rparr>)"
    and new_self_pipe: "inv w \<Longrightarrow> inv (w\<lparr>overseer_self_pipe := q\<rparr>)"
begin

lemma keeps_xs_ops: "keeps inv (run_prog do_xs xs)"
proof (rule keepsI)
  fix w assume "inv w"
  moreover have "same_but_app w (snd (run_prog do_xs xs w))"
    by (rule xs_ops_same_but_app [OF prod.collapse [symmetric]])
  ultimately show "inv (snd (run_prog do_xs xs w))"
    by (elim same_but_appE) (auto simp: view_def intro: frame [rotated])
qed

lemma keeps_perl: "\<not> is_kill c \<Longrightarrow> \<not> is_read c \<Longrightarrow> keeps inv (perl c)"
  unfolding perl_def by (auto intro!: keeps_intros keeps_plain_sys keeps_xs_ops)

lemma keeps_Callback_Call: "keeps inv (Callback_Call sv)"
  unfolding Callback_Call_def bladepsgi_perl_callback_call_def
  by (auto intro!: keeps_intros keeps_perl split: option.split)

lemma keeps_CallAndReceiveCallback: "keeps inv (CallAndReceiveCallback sv)"
  unfolding CallAndReceiveCallback_def bladepsgi_perl_callback_call_and_receive_callback_def
  by (auto intro!: keeps_intros keeps_perl split: sum.split)

lemma keeps_LoadCallbackFromCString: "keeps inv (LoadCallbackFromCString code)"
  unfolding LoadCallbackFromCString_def bladepsgi_perl_callback_init_def
  by (auto intro!: keeps_intros keeps_perl keeps_plain_emit split: sum.split)

lemma keeps_eval_or_fail: "keeps inv k \<Longrightarrow> keeps inv (eval_or_fail code k)"
  unfolding eval_or_fail_def by (auto intro!: keeps_intros keeps_perl)

lemma keeps_eval_or_croak: "keeps inv k \<Longrightarrow> keeps inv (eval_or_croak code k)"
  unfolding eval_or_croak_def by (auto intro!: keeps_intros keeps_perl keeps_plain_emit)

lemma keeps_InitializePerlInterpreter: "keeps inv InitializePerlInterpreter"
  unfolding InitializePerlInterpreter_def BPSGIPerlInterpreter_new_def
    bladepsgi_perl_interpreter_init_def
  by (auto simp: view_def intro!: keeps_intros keeps_plain_sys keeps_eval_or_fail keeps_eval_or_croak keeps_modify split: option.split)

lemma keeps_Interpreter_destructor: "keeps inv (Interpreter_destructor i)"
  unfolding Interpreter_destructor_def by (auto simp: view_def intro!: keeps_intros keeps_plain_emit keeps_modify)

lemma keeps_Interpreter_Destroy: "keeps inv (Interpreter_Destroy i)"
  unfolding Interpreter_Destroy_def bladepsgi_perl_interpreter_destroy_def Let_def
  by (auto intro!: keeps_intros keeps_plain_emit split: option.split)

lemma keeps_unwinding: "keeps inv m \<Longrightarrow> keeps inv (unwinding i m)"
  unfolding unwinding_def by (auto intro!: keeps_intros keeps_Interpreter_destructor split: exn.split)

lemma keeps_MainLoopIteration: "keeps inv (MainLoopIteration n sv)"
  unfolding MainLoopIteration_def app_ShouldExitImmediately_def BPSGIWorker_SetWorkerStatus_def
    app_SetWorkerStatus_def
  by (auto intro!: keeps_intros keeps_shmem keeps_Callback_Call)

lemma keeps_worker_loop: "keeps inv (worker_loop n sv)"
  by (rule keeps_loop [OF worker_loop.simps keeps_MainLoopIteration MainLoopIteration_shrinks])

lemma keeps_worker_Run: "keeps inv (worker_Run n sv)"
  unfolding worker_Run_def
  by (auto intro!: keeps_intros keeps_SubprocessInit keeps_SetSignalHandler keeps_UnblockSignals
      keeps_worker_loop keeps_Log split: exn.split)

lemma keeps_auxiliary_Run: "keeps inv (auxiliary_Run k)"
  unfolding auxiliary_Run_def
  by (auto intro!: keeps_intros keeps_SubprocessInit keeps_SetSignalHandler keeps_UnblockSignals
      keeps_Callback_Call keeps_Log split: exn.split)

lemma keeps_HandleClient: "keeps inv (HandleClient fd t cs)"
  unfolding HandleClient_def Let_def by (auto intro!: keeps_intros keeps_plain_sys keeps_shmem keeps_plain_emit)

lemma keeps_monitoring_iteration: "keeps inv (monitoring_iteration t)"
  unfolding monitoring_iteration_def RunnerDied_def
  by (auto intro!: keeps_intros keeps_plain_sys keeps_shmem keeps_Log keeps_HandleClient split: prod.split)

lemma keeps_monitoring_loop: "keeps inv (monitoring_loop t)"
  by (rule keeps_loop [OF monitoring_loop.simps keeps_monitoring_iteration monitoring_iteration_shrinks])

lemma keeps_RunMonitoringProcess: "keeps inv RunMonitoringProcess"
  unfolding RunMonitoringProcess_def monitoring_Run_def
  by (auto intro!: keeps_intros keeps_SubprocessInit keeps_SetSignalHandler keeps_UnblockSignals
      keeps_plain_sys keeps_monitoring_loop keeps_app_SetShouldExitImmediately keeps_Log
      kill_group split: exn.split)

lemma keeps_SetPID: "keeps inv (SetPID k p)"
  unfolding SetPID_def by (auto simp: view_def intro!: keeps_intros keeps_modify)

lemma keeps_RunWorker: "keeps inv (RunWorker n i sv)"
  unfolding RunWorker_def WorkerInitialize_def
  by (intro keeps_unwinding)
    (auto simp: view_def intro!: keeps_intros keeps_modify keeps_worker_Run split: exn.split)

text \<open>What follows a fork may rely on the answer being in the trace.\<close>

lemma keeps_fork:
  assumes "\<And>r w. inv w \<Longrightarrow> C_forked (r_ret r) \<in> set (trace w) \<Longrightarrow> inv (snd (f r w))"
  shows "keeps inv (bind (sys C_fork) f)"
proof (rule keepsI)
  fix w assume w: "inv w"
  obtain q w1 where s: "sys C_fork w = (q, w1)" by fastforce
  have w1: "inv w1" using keepsD [OF keeps_plain_sys w s] by simp
  moreover have "inv (snd (f r w1))" if q: "q = Ret r" for r
  proof (rule assms [OF w1])
    obtain n where "trace w1 = trace w @ pipe_writes w n @ recorded C_fork r"
      using s [unfolded q] by (rule sys_trace)
    then show "C_forked (r_ret r) \<in> set (trace w1)" by simp
  qed
  ultimately show "inv (snd (bind (sys C_fork) f w))"
    using s by (cases q) (simp_all add: bind_def)
qed

lemma keeps_SpawnAuxiliaryProcess: "keeps inv (SpawnAuxiliaryProcess k)"
  unfolding SpawnAuxiliaryProcess_def Let_def
  by (auto simp: view_def intro!: keeps_intros keeps_plain_sys keeps_SetPID keeps_auxiliary_Run keeps_modify)

lemma keeps_spawn_worker: "keeps inv (spawn_worker i sv n)"
proof -
  have "inv w \<Longrightarrow> inv (snd (andThen (RunWorker n i sv) (halt Aborted) w))" for w
    using keeps_andThen [OF keeps_RunWorker keeps_pure(3)] unfolding keeps_def by blast
  then show ?thesis
    unfolding spawn_worker_def Let_def
    by (intro keeps_fork)
      (auto simp: throw_def andThen_def [of "modify _"] bind_def modify_def gets_def Assert_def ret_def
        halt_def intro: fork_worker)
qed

lemma keeps_spawn_loops:
  "keeps inv (spawn_auxiliary_loop ks)" "keeps inv (spawn_workers_loop i sv ns)"
  by (induction ks) (auto intro!: keeps_intros keeps_SpawnAuxiliaryProcess,
      induction ns, auto intro!: keeps_intros keeps_spawn_worker)

lemma keeps_perl_or_exit: "keeps inv m \<Longrightarrow> keeps inv (perl_or_exit s m)"
  unfolding perl_or_exit_def by (auto intro!: keeps_intros keeps_Log split: exn.split)

lemma keeps_SpawnWorkersAndAuxiliaryProcesses: "keeps inv (SpawnWorkersAndAuxiliaryProcesses t)"
  unfolding SpawnWorkersAndAuxiliaryProcesses_def
  by (intro keeps_bind keeps_perl_or_exit keeps_unwinding keeps_andThen
      keeps_InitializePerlInterpreter keeps_LoadCallbackFromCString keeps_CallAndReceiveCallback
      keeps_shmem keeps_pure keeps_spawn_loops keeps_Interpreter_Destroy keeps_Interpreter_destructor)

lemma keeps_SpawnMonitoringProcess: "keeps inv SpawnMonitoringProcess"
proof -
  have "inv w \<Longrightarrow> inv (snd (RunMonitoringProcess w))" for w
    using keeps_RunMonitoringProcess by (simp add: keeps_def)
  then have "keeps inv (bind (sys C_fork) (\<lambda>r.
      if r_ret r = -1 then throw_errno ''fork'' (r_errno r)
      else if r_ret r = 0 then RunMonitoringProcess
      else if 0 < r_ret r then modify (\<lambda>w. w\<lparr>app := (app w)\<lparr>monitoring_process_pid := r_ret r\<rparr>\<rparr>)
      else throw_fmt ''fork'' (''unexpected return value '' @ string_of_int (r_ret r))))"
    by (intro keeps_fork) (auto simp: throw_def modify_def intro: fork_monitoring)
  then show ?thesis
    unfolding SpawnMonitoringProcess_def Let_def
    by (rule keeps_andThen) (auto intro!: keeps_bind keeps_plain_emit)
qed

lemma keeps_BlockSignals: "keeps inv BlockSignals"
  unfolding BlockSignals_def by (auto simp: view_def intro!: keeps_intros keeps_plain_sys keeps_modify)

lemma keeps_InitializeSelfPipe: "keeps inv InitializeSelfPipe"
proof -
  have "keeps inv (modify (\<lambda>w. w\<lparr>overseer_self_pipe := q\<rparr>))" for q
    by (simp add: keeps_def modify_def new_self_pipe)
  then show ?thesis
    unfolding InitializeSelfPipe_def set_non_blocking_def by (auto intro!: keeps_intros keeps_plain_sys)
qed

lemma keeps_InitializeSharedMemory: "keeps inv InitializeSharedMemory"
  unfolding InitializeSharedMemory_def by (auto simp: view_def intro!: keeps_intros keeps_plain_sys keeps_modify)

lemma keeps_InitializeUNIXSocket: "keeps inv (InitializeUNIXSocket p n)"
  unfolding InitializeUNIXSocket_def Let_def by (auto intro!: keeps_intros keeps_plain_sys)

lemma keeps_sockets: "keeps inv InitializeMainFastCGISocket" "keeps inv InitializeStatsSocket"
  unfolding InitializeMainFastCGISocket_def InitializeStatsSocket_def
  by (intro keeps_bind keeps_InitializeUNIXSocket keeps_modify; simp add: view_def)+

lemma keeps_Run: "keeps inv (Run t)"
  unfolding Run_def startup_def
  by (intro keeps_andThen keeps_BlockSignals keeps_Log keeps_InitializeSelfPipe
      keeps_InitializeSharedMemory keeps_sockets keeps_SpawnWorkersAndAuxiliaryProcesses
      keeps_SpawnMonitoringProcess keeps_SetSignalHandler keeps_UnblockSignals keeps_SetProcessTitle
      keeps_overseer_loop)

end

end
