(* ===== verification/Bpsgi_Pids.thy ===== *)
theory Bpsgi_Pids
  imports Bpsgi_Invariants
begin

text \<open>
  Which processes the program signals. The overseer keeps the process ids of its children;
  \<^verbatim>\<open>KillProcessGroup\<close> is the only code that sends signals. Three
  invariants of whole runs: the targets of all signals, that they have been forked before, and how
  often a process gets SIGTERM.
\<close>

section \<open>The targets of signals\<close>

text \<open>The workers' ids are in \<open>W\<close>, that of the monitoring process in \<open>M\<close>,
  and every signal sent, beyond those of \<open>old\<close>, went to one of these.\<close>

definition kills_within :: "call set \<Rightarrow> int set \<Rightarrow> int set \<Rightarrow> world \<Rightarrow> bool" where
  "kills_within old W M w \<longleftrightarrow>
     set (worker_pids (app w)) \<subseteq> W
     \<and> (monitoring_process_pid (app w) = -1 \<or> monitoring_process_pid (app w) \<in> M)
     \<and> (\<forall>p s. C_kill p s \<in> set (trace w) \<longrightarrow>
          C_kill p s \<in> old \<or> p \<in> W \<union> M \<and> (s = SIGQUIT \<or> s = SIGTERM))"

lemma kills_within_group:
  "sig = SIGQUIT \<or> sig = SIGTERM \<Longrightarrow> keeps (kills_within old W M) (KillProcessGroup sig)"
  by (auto simp: keeps_def KillProcessGroup_eq kills_within_def group_kills_def)

lemma kills_within_call:
  "kills_within old W M w \<Longrightarrow> \<not> is_kill c \<Longrightarrow> kills_within old W M (w\<lparr>trace := trace w @ [c]\<rparr>)"
  by (auto simp: kills_within_def)

lemma kills_within_handler: "keeps (kills_within old W M) (run_handler h sig wr)"
  by (rule keeps_run_handler [OF kills_within_group])
    (auto simp: keeps_def emit_def modify_def kills_within_def)

lemma kills_within_shutdown_step:
  "keeps (kills_within old W M) (modify (\<lambda>w. w\<lparr>mainapp_fast_shutdown := b\<rparr>))"
  "keeps (kills_within old W M) (modify (\<lambda>w. w\<lparr>mainapp_smart_shutdown := b\<rparr>))"
  "keeps (kills_within old W M) (modify (\<lambda>w. w\<lparr>mainapp_force_fast_shutdown := b\<rparr>))"
  by (simp_all add: keeps_def modify_def kills_within_def)

interpretation own_children: reaping_invariant "kills_within old W M" "\<lambda>c. \<not> is_kill c" for old W M
proof unfold_locales
  fix w p
  show "kills_within old W M (w\<lparr>app := (app w)\<lparr>worker_pids := remove1 p (worker_pids (app w))\<rparr>\<rparr>)"
    if "kills_within old W M w"
    using that set_remove1_subset [of p "worker_pids (app w)"] by (auto simp: kills_within_def)
qed (auto intro!: kills_within_group kills_within_call kills_within_handler
    simp: kills_within_def view_def)

interpretation own_children: overseer_invariant "kills_within old W M" "\<lambda>c. \<not> is_kill c" for old W M
  by unfold_locales (auto simp: handle_shutdown_requests_def intro!: keeps_intros own_children.keeps_Log
      kills_within_group kills_within_shutdown_step)

text \<open>C7. From any state on, and whatever signals arrive and children die, the overseer's
  main loop sends signals only to its own worker processes and its monitoring process (so
  never to a process it did not fork, and never to an auxiliary process), and only SIGQUIT and
  SIGTERM; and it never adds an id to its list of workers.\<close>

theorem overseer_signals_only_its_children:
  "set (worker_pids (app (snd (overseer_loop w)))) \<subseteq> set (worker_pids (app w))
   \<and> (\<forall>p s. C_kill p s \<in> set (trace (snd (overseer_loop w))) \<longrightarrow>
        C_kill p s \<in> set (trace w)
        \<or> (p \<in> set (worker_pids (app w)) \<or> p = monitoring_process_pid (app w) \<and> p \<noteq> -1)
           \<and> (s = SIGQUIT \<or> s = SIGTERM))"
proof -
  let ?W = "set (worker_pids (app w))" and ?M = "{monitoring_process_pid (app w)} - {-1}"
  have "kills_within (set (trace w)) ?W ?M w"
    by (auto simp: kills_within_def)
  then have "kills_within (set (trace w)) ?W ?M (snd (overseer_loop w))"
    by (rule keepsD [OF own_children.keeps_overseer_loop _ prod.collapse [symmetric]])
  then show ?thesis
    by (auto simp: kills_within_def)
qed

text \<open>An overseer with two workers and a monitoring process; its first
  \<^verbatim>\<open>select\<close> is interrupted by SIGTERM.\<close>

definition fail_resp :: "int \<Rightarrow> event" where
  "fail_resp e = Resp \<lparr>r_ret = -1, r_errno = e, r_outs = [], r_text = [], r_xs = []\<rparr>"

definition demo_overseer :: "event list \<Rightarrow> world" where
  "demo_overseer es = (demo_world es)
     \<lparr>app := demo_app\<lparr>worker_pids := [11, 12], monitoring_process_pid := 13\<rparr>,
      overseer_self_pipe := (5, 6), handlers := (\<lambda>_. Overseer_signal_handler)\<rparr>"

definition demo_sigterm :: world where
  "demo_sigterm = demo_overseer [Sig SIGTERM (1, 0), fail_resp EINTR, ok_resp 0, ok_resp 0]"

lemma demo_sigterm_state:
  "worker_pids (app demo_sigterm) = [11, 12]" "monitoring_process_pid (app demo_sigterm) = 13"
  "trace demo_sigterm = []" "mainapp_force_fast_shutdown demo_sigterm = False"
  by (simp_all add: demo_sigterm_def demo_overseer_def demo_world_def demo_app_def)

lemma demo_sigterm_kills:
  "filter is_kill (trace (snd (overseer_loop demo_sigterm)))
     = [C_kill 11 SIGTERM, C_kill 12 SIGTERM, C_kill 13 SIGTERM]"
  by (simp add: run_defs signal_run_defs overseer_run_defs overseer_loop.simps demo_clock demo_sigterm_def
      demo_overseer_def demo_world_def demo_app_def ok_resp_def fail_resp_def)

text \<open>Whether a call is no signal at all or one to a process of the list.\<close>

fun kill_to :: "int list \<Rightarrow> call \<Rightarrow> bool" where
  "kill_to ps (C_kill p s) = (p \<in> set ps)"
| "kill_to ps _ = True"

theorem overseer_signals_only_its_children_witness:
  "C_kill 13 SIGTERM \<in> set (trace (snd (overseer_loop demo_sigterm)))
   \<and> list_all (kill_to [11, 12, 13]) (trace (snd (overseer_loop demo_sigterm)))"
proof -
  have "C_kill 13 SIGTERM \<in> set (filter is_kill (trace (snd (overseer_loop demo_sigterm))))"
    by (simp add: demo_sigterm_kills)
  moreover have "kill_to [11, 12, 13] c" if "c \<in> set (trace (snd (overseer_loop demo_sigterm)))" for c
    using overseer_signals_only_its_children [of demo_sigterm] that
    by (cases c) (auto simp: demo_sigterm_state)
  ultimately show ?thesis by (auto simp: list_all_iff)
qed

section \<open>Targets are processes the program has forked\<close>

text \<open>Every signal in a trace went to a process that an earlier fork has returned.\<close>

definition kills_follow_forks :: "call list \<Rightarrow> bool" where
  "kills_follow_forks t \<longleftrightarrow> (\<forall>a p s b. t = a @ C_kill p s # b \<longrightarrow>
     0 < p \<and> C_forked p \<in> set a \<and> (s = SIGQUIT \<or> s = SIGTERM))"

definition own_forks :: "world \<Rightarrow> bool" where
  "own_forks w \<longleftrightarrow> kills_follow_forks (trace w)
     \<and> (\<forall>p \<in> set (worker_pids (app w)). 0 < p \<and> C_forked p \<in> set (trace w))
     \<and> (monitoring_process_pid (app w) = -1
         \<or> 0 < monitoring_process_pid (app w) \<and> C_forked (monitoring_process_pid (app w)) \<in> set (trace w))"

lemma kills_follow_forks_snoc:
  assumes "kills_follow_forks t"
    and "\<And>p s. c = C_kill p s \<Longrightarrow> 0 < p \<and> C_forked p \<in> set t \<and> (s = SIGQUIT \<or> s = SIGTERM)"
  shows "kills_follow_forks (t @ [c])"
  unfolding kills_follow_forks_def
proof (intro allI impI)
  fix a p s b assume "t @ [c] = a @ C_kill p s # b"
  with assms show "0 < p \<and> C_forked p \<in> set a \<and> (s = SIGQUIT \<or> s = SIGTERM)"
    by (cases b rule: rev_cases) (auto simp: kills_follow_forks_def)
qed

lemma kills_follow_forks_append:
  assumes "kills_follow_forks t"
    and "\<And>p s. C_kill p s \<in> set cs \<Longrightarrow> 0 < p \<and> C_forked p \<in> set t \<and> (s = SIGQUIT \<or> s = SIGTERM)"
  shows "kills_follow_forks (t @ cs)"
  using assms(2)
proof (induction cs rule: rev_induct)
  case (snoc c cs)
  then have "kills_follow_forks ((t @ cs) @ [c])"
    by (intro kills_follow_forks_snoc snoc.IH) auto
  then show ?case by simp
qed (simp add: assms(1))

lemma own_forks_group:
  assumes "sig = SIGQUIT \<or> sig = SIGTERM"
  shows "keeps own_forks (KillProcessGroup sig)"
proof (rule keepsI)
  fix w assume w: "own_forks w"
  then have "kills_follow_forks (trace w @ group_kills sig (app w))"
    using assms by (intro kills_follow_forks_append) (auto simp: own_forks_def group_kills_def split: if_splits)
  with w assms show "own_forks (snd (KillProcessGroup sig w))"
    by (auto simp: KillProcessGroup_eq own_forks_def)
qed

lemma own_forks_call: "own_forks w \<Longrightarrow> \<not> is_kill c \<Longrightarrow> own_forks (w\<lparr>trace := trace w @ [c]\<rparr>)"
  by (auto simp: own_forks_def intro: kills_follow_forks_snoc)

lemma own_forks_handler: "keeps own_forks (run_handler h sig wr)"
  by (rule keeps_run_handler [OF own_forks_group])
    (auto simp: keeps_def emit_def modify_def own_forks_def intro: kills_follow_forks_snoc)

lemma own_forks_shutdown_step:
  "keeps own_forks (modify (\<lambda>w. w\<lparr>mainapp_fast_shutdown := b\<rparr>))"
  "keeps own_forks (modify (\<lambda>w. w\<lparr>mainapp_smart_shutdown := b\<rparr>))"
  "keeps own_forks (modify (\<lambda>w. w\<lparr>mainapp_force_fast_shutdown := b\<rparr>))"
  by (simp_all add: keeps_def modify_def own_forks_def)

interpretation forked: reaping_invariant own_forks "\<lambda>c. \<not> is_kill c"
proof unfold_locales
  fix w p
  show "own_forks (w\<lparr>app := (app w)\<lparr>worker_pids := remove1 p (worker_pids (app w))\<rparr>\<rparr>)"
    if "own_forks w"
    using that set_remove1_subset [of p "worker_pids (app w)"] by (auto simp: own_forks_def)
next
  show "own_forks w \<Longrightarrow> \<not> is_kill c \<Longrightarrow> own_forks (w\<lparr>trace := trace w @ [c]\<rparr>)" for w c
    by (rule own_forks_call)
qed (auto intro!: own_forks_group own_forks_handler simp: own_forks_def view_def)

interpretation forked: overseer_invariant own_forks "\<lambda>c. \<not> is_kill c"
  by unfold_locales (auto simp: handle_shutdown_requests_def intro!: keeps_intros forked.keeps_Log
      own_forks_group own_forks_shutdown_step)

interpretation forked: forking_invariant own_forks "\<lambda>c. \<not> is_kill c"
  by unfold_locales (auto simp: own_forks_def)

section \<open>How often a process gets SIGTERM\<close>

text \<open>Before the first smart shutdown request nobody has got SIGTERM, after it nobody has
  got it twice.\<close>

definition one_sigterm :: "world \<Rightarrow> bool" where
  "one_sigterm w \<longleftrightarrow> distinct (worker_pids (app w))
     \<and> monitoring_process_pid (app w) \<notin> set (worker_pids (app w)) - {-1}
     \<and> (\<forall>p. count_list (trace w) (C_kill p SIGTERM) \<le> (if mainapp_force_fast_shutdown w then 1 else 0))"

lemma count_kills_distinct:
  "distinct ps \<Longrightarrow> count_list (map (\<lambda>p. C_kill p s) ps) (C_kill q s) = (if q \<in> set ps then 1 else 0)"
  by (induction ps) auto

lemma count_group_SIGQUIT: "count_list (group_kills SIGQUIT a) (C_kill p SIGTERM) = 0"
  by (auto simp: group_kills_def signal_defs count_list_0_iff)

lemma count_group_SIGTERM:
  assumes "distinct (worker_pids a)" and "monitoring_process_pid a \<notin> set (worker_pids a) - {-1}"
  shows "count_list (group_kills SIGTERM a) (C_kill p SIGTERM) \<le> 1"
  using assms count_kills_distinct [of "worker_pids a" SIGTERM p]
  by (auto simp: group_kills_def)

lemma one_sigterm_group: "keeps one_sigterm (KillProcessGroup SIGQUIT)"
  by (simp add: keeps_def KillProcessGroup_eq one_sigterm_def count_group_SIGQUIT)

lemma one_sigterm_call: "one_sigterm w \<Longrightarrow> \<not> is_kill c \<Longrightarrow> one_sigterm (w\<lparr>trace := trace w @ [c]\<rparr>)"
  by (auto simp: one_sigterm_def)

lemma one_sigterm_handler: "keeps one_sigterm (run_handler h sig wr)"
  by (rule keeps_run_handler [OF one_sigterm_group])
    (auto simp: keeps_def emit_def modify_def one_sigterm_def)

interpretation sigterm_once: reaping_invariant one_sigterm "\<lambda>c. \<not> is_kill c"
proof unfold_locales
  show "view w' = view w \<Longrightarrow> one_sigterm w \<Longrightarrow> one_sigterm w'" for w w'
    by (simp add: one_sigterm_def view_def)
  show "one_sigterm w \<Longrightarrow> one_sigterm (w\<lparr>app := (app w)\<lparr>worker_pids := remove1 p (worker_pids (app w))\<rparr>\<rparr>)"
    for w p
    using set_remove1_subset [of p "worker_pids (app w)"] by (auto simp: one_sigterm_def)
qed (auto intro!: one_sigterm_group one_sigterm_call one_sigterm_handler simp: one_sigterm_def)

lemma one_sigterm_smart:
  "one_sigterm w \<Longrightarrow> \<not> mainapp_force_fast_shutdown w \<Longrightarrow>
   one_sigterm (w\<lparr>trace := trace w @ group_kills SIGTERM (app w), mainapp_smart_shutdown := b,
     mainapp_force_fast_shutdown := True\<rparr>)"
  using count_group_SIGTERM [of "app w"] by (auto simp: one_sigterm_def)

lemma one_sigterm_shutdown: "keeps one_sigterm handle_shutdown_requests"
proof (rule keepsI)
  fix w assume w: "one_sigterm w"
  have lg: "one_sigterm w1" "q = Ret () \<Longrightarrow> mainapp_force_fast_shutdown w1 = mainapp_force_fast_shutdown w"
    if "Log LS_LOG m w = (q, w1)" for m q w1
    using keepsD [OF sigterm_once.keeps_Log w that] Log_Ret_static [of LS_LOG m w "()" w1] that
    by (auto simp: same_static_def)
  have flags: "one_sigterm (w\<lparr>mainapp_fast_shutdown := b\<rparr>) = one_sigterm w"
      "one_sigterm (w\<lparr>mainapp_smart_shutdown := b\<rparr>) = one_sigterm w" for w b
    by (simp_all add: one_sigterm_def)
  have kill: "one_sigterm w1 \<Longrightarrow> one_sigterm (w1\<lparr>trace := trace w1 @ group_kills SIGQUIT (app w1)\<rparr>)" for w1
    using one_sigterm_group by (simp add: keeps_def KillProcessGroup_eq)
  show "one_sigterm (snd (handle_shutdown_requests w))"
    using w lg one_sigterm_smart kill flags
    by (auto simp: handle_shutdown_requests_def andThen_def bind_def gets_def modify_def ret_def
        KillProcessGroup_eq split: prod.split outcome.split)
qed

interpretation sigterm_once: overseer_invariant one_sigterm "\<lambda>c. \<not> is_kill c"
  by unfold_locales (auto intro: one_sigterm_shutdown)

text \<open>C6. In the whole life of an overseer each of its processes gets SIGTERM at most once:
  the first smart shutdown request sends it to the group, every later request escalates. This
  holds for every sequence of signals, deaths and failing calls.\<close>

theorem SIGTERM_at_most_once:
  assumes "distinct (worker_pids (app w))"
    and "monitoring_process_pid (app w) \<notin> set (worker_pids (app w))"
    and "\<not> mainapp_force_fast_shutdown w" and "\<forall>p. C_kill p SIGTERM \<notin> set (trace w)"
  shows "count_list (trace (snd (overseer_loop w))) (C_kill p SIGTERM) \<le> 1"
proof -
  have "one_sigterm w"
    using assms by (simp add: one_sigterm_def count_list_0_iff)
  then have "one_sigterm (snd (overseer_loop w))"
    by (rule keepsD [OF sigterm_once.keeps_overseer_loop _ prod.collapse [symmetric]])
  then show ?thesis by (auto simp: one_sigterm_def intro: le_trans)
qed

theorem SIGTERM_at_most_once_witness:
  "count_list (trace (snd (overseer_loop demo_sigterm))) (C_kill 11 SIGTERM) = 1"
proof -
  have "C_kill 11 SIGTERM \<in> set (filter is_kill (trace (snd (overseer_loop demo_sigterm))))"
    by (simp add: demo_sigterm_kills)
  then have "count_list (trace (snd (overseer_loop demo_sigterm))) (C_kill 11 SIGTERM) \<noteq> 0"
    by (auto simp: count_list_0_iff)
  moreover have "count_list (trace (snd (overseer_loop demo_sigterm))) (C_kill 11 SIGTERM) \<le> 1"
    by (rule SIGTERM_at_most_once) (simp_all add: demo_sigterm_state)
  ultimately show ?thesis by simp
qed

end
