(* ===== verification/Bpsgi_Shutdown.thy ===== *)
theory Bpsgi_Shutdown
  imports Bpsgi_Pids "HOL-Library.Sublist"
begin

text \<open>
  How the overseer reacts: to the death of a child, to shutdown requests, and when it leaves.
  The theorems also show that a shutdown request a handler noted cannot be overlooked while the
  overseer sleeps in \<^verbatim>\<open>select\<close>.
\<close>

section \<open>Answers of the clock\<close>

text \<open>\<open>clock_ok g\<close>: an answer to \<^verbatim>\<open>gettimeofday\<close> with which a line can
  be logged.\<close>

definition clock_ok :: "resp \<Rightarrow> bool" where
  "clock_ok g \<longleftrightarrow> r_ret g = 0 \<and> length (log_timestamp g) < 40"

definition log_calls :: "resp \<Rightarrow> LogSeverity \<Rightarrow> string \<Rightarrow> call list" where
  "log_calls g severity msg =
     [C_gettimeofday, C_write 2 (log_timestamp g @ severity_prefix severity
        @ vsnprintf_buf 2048 msg @ [CHR 0x0A])]"

lemma Log_ok:
  assumes "script w = Resp g # es" and "clock_ok g"
  shows "Log severity msg w =
    (Ret (), w\<lparr>script := es, trace := trace w @ log_calls g severity msg\<rparr>)"
  using assms
  by (simp add: Log_def bind_def sys_def clock_ok_def log_calls_def emit_def modify_def)

section \<open>Unexpected deaths\<close>

text \<open>How the log calls the process with an id.\<close>

definition child_name :: "mainapp \<Rightarrow> int \<Rightarrow> string option" where
  "child_name a pid =
     (if pid \<in> set (worker_pids a) then Some ''worker process''
      else if pid \<in> set (auxiliary_pids a) then
        map_option (\<lambda>p. ''auxiliary process '' @ aux_name p)
          (find (\<lambda>p. aux_pid p = pid) (auxiliary_processes a))
      else if pid = monitoring_process_pid a then Some ''monitoring process'' else None)"

lemma HandleUnexpected_run:
  assumes s: "shmem (app w) = Some s" "0 < shmem_size s"
    and g: "script w = Resp g # es" "clock_ok g"
  shows "\<exists>w'. HandleUnexpectedChildProcessDeath name pid status w = (Halt (Exited 1), w')
     \<and> trace w' = trace w
         @ (if segment s 0 = 0 then log_calls g LS_PANIC (death_message name pid status) else [])
         @ group_kills SIGQUIT (app w)
     \<and> (\<exists>s'. shmem (app w') = Some s' \<and> segment s' 0 = 1)"
proof -
  let ?s = "s\<lparr>segment := (segment s)(0 := 1)\<rparr>"
  let ?w1 = "w\<lparr>app := (app w)\<lparr>shmem := Some ?s\<rparr>\<rparr>"
  have set: "on_shmem SetShouldExitImmediately w = (Ret (segment s 0 = 0), ?w1)"
    using s by (simp add: on_shmem_def SetShouldExitImmediately_def bind_def exchange_int8_def
        ret_def layout_defs)
  have gk: "group_kills SIGQUIT ((app w)\<lparr>shmem := x\<rparr>) = group_kills SIGQUIT (app w)" for x
    by (simp add: group_kills_def)
  have "Log LS_PANIC m ?w1 =
      (Ret (), ?w1\<lparr>script := es, trace := trace w @ log_calls g LS_PANIC m\<rparr>)" for m
    using Log_ok [of ?w1 g es] g by simp
  then show ?thesis
    using set by (auto simp: HandleUnexpectedChildProcessDeath_def andThen_def bind_def ret_def
        halt_def KillProcessGroup_eq gk)
qed

text \<open>C1. When a child of the overseer dies and nobody asked for a shutdown, the whole
  program goes down at once: the death is logged, with severity PANIC, the kind of process, its
  id and its signal or exit code, unless another process has announced the exit before; every
  worker and the monitoring process get SIGQUIT; the flag that tells all processes to exit is
  set; and the overseer exits with code 1.\<close>

theorem unexpected_death_stops_everything:
  assumes "\<not> mainapp_shutdown w" and "child_name (app w) pid = Some name"
    and "shmem (app w) = Some s" and "0 < shmem_size s"
    and "script w = Resp g # es" and "clock_ok g"
  shows "\<exists>w'. HandleChildProcessDeath pid status w = (Halt (Exited 1), w')
     \<and> trace w' = trace w
         @ (if segment s 0 = 0 then log_calls g LS_PANIC (death_message name pid status) else [])
         @ group_kills SIGQUIT (app w)
     \<and> (\<exists>s'. shmem (app w') = Some s' \<and> segment s' 0 = 1)"
proof -
  obtain w' where w': "HandleUnexpectedChildProcessDeath name pid status w = (Halt (Exited 1), w')"
    and rest: "trace w' = trace w
         @ (if segment s 0 = 0 then log_calls g LS_PANIC (death_message name pid status) else [])
         @ group_kills SIGQUIT (app w)"
      "\<exists>s'. shmem (app w') = Some s' \<and> segment s' 0 = 1"
    using HandleUnexpected_run [OF assms(3-6)] by blast
  have "HandleChildProcessDeath pid status w = (Halt (Exited 1), w')"
    using assms(1,2) w'
    by (auto simp: HandleChildProcessDeath_def child_name_def andThen_def bind_def gets_def
        split: if_splits)
  with rest show ?thesis by blast
qed

definition demo_death :: world where
  "demo_death = (demo_overseer [ok_resp 0])\<lparr>app := (app (demo_overseer []))
     \<lparr>shmem := Some (BPSGISharedMemory_new 4096)\<rparr>\<rparr>"

theorem unexpected_death_stops_everything_witness:
  "\<exists>w'. HandleChildProcessDeath 12 11 demo_death = (Halt (Exited 1), w')
     \<and> trace w' = log_calls \<lparr>r_ret = 0, r_errno = 0, r_outs = [], r_text = [], r_xs = []\<rparr> LS_PANIC
            ''worker process (pid 12) died to signal 11''
         @ [C_kill 11 SIGQUIT, C_kill 12 SIGQUIT, C_kill 13 SIGQUIT]"
proof -
  let ?g = "\<lparr>r_ret = 0, r_errno = 0, r_outs = [], r_text = [], r_xs = []\<rparr>"
  have 1: "\<not> mainapp_shutdown demo_death" "child_name (app demo_death) 12 = Some ''worker process''"
      "shmem (app demo_death) = Some (BPSGISharedMemory_new 4096)" "script demo_death = [Resp ?g]"
    by (simp_all add: demo_death_def demo_overseer_def demo_world_def demo_app_def child_name_def
        ok_resp_def)
  moreover have "0 < shmem_size (BPSGISharedMemory_new 4096)"
    by (simp add: BPSGISharedMemory_new_def)
  moreover have "clock_ok ?g" by (simp add: clock_ok_def demo_clock)
  ultimately obtain w' where "HandleChildProcessDeath 12 11 demo_death = (Halt (Exited 1), w')"
      "trace w' = trace demo_death @ (if segment (BPSGISharedMemory_new 4096) 0 = 0
          then log_calls ?g LS_PANIC (death_message ''worker process'' 12 11) else [])
        @ group_kills SIGQUIT (app demo_death)"
    using unexpected_death_stops_everything by blast
  moreover have "death_message ''worker process'' 12 11 = ''worker process (pid 12) died to signal 11''"
    by code_simp
  ultimately show ?thesis
    by (auto simp: BPSGISharedMemory_new_def group_kills_def demo_death_def demo_overseer_def
        demo_world_def demo_app_def)
qed

section \<open>Leaving\<close>

text \<open>A program that never ends with exit code 0.\<close>

definition no_exit0 :: "('s, 'a) prog \<Rightarrow> bool" where
  "no_exit0 m \<longleftrightarrow> (\<forall>s t. m s \<noteq> (Halt (Exited 0), t))"

lemma no_exit0_pure [simp]: "no_exit0 (ret a)" "no_exit0 (throw e)" "no_exit0 (gets f)"
  "no_exit0 (modify g)" "no_exit0 (Assert b)" "no_exit0 (emit c)" "h \<noteq> Exited 0 \<Longrightarrow> no_exit0 (halt h)"
  by (simp_all add: no_exit0_def prog_defs emit_def)

lemma no_exit0_bind: "no_exit0 m \<Longrightarrow> (\<And>a. no_exit0 (f a)) \<Longrightarrow> no_exit0 (bind m f)"
  by (auto simp: no_exit0_def bind_def split: prod.splits outcome.splits)

lemma no_exit0_andThen: "no_exit0 m \<Longrightarrow> no_exit0 n \<Longrightarrow> no_exit0 (andThen m n)"
  unfolding andThen_def by (rule no_exit0_bind)

lemmas no_exit0_intros = no_exit0_bind no_exit0_andThen

lemma no_exit0_KillProcessGroup: "no_exit0 (KillProcessGroup sig)"
  by (auto simp: no_exit0_def KillProcessGroup_def andThen_def bind_def Assert_def halt_def ret_def
      gets_def emit_all_eq emit_def modify_def)

lemma no_exit0_deliver: "no_exit0 (deliver sig wr)"
proof -
  have "no_exit0 (HandleParentSignal sig wr)"
    unfolding HandleParentSignal_def
    by (intro no_exit0_intros) (auto intro!: no_exit0_intros no_exit0_KillProcessGroup)
  then have "no_exit0 (run_handler h sig wr)" for h
    by (cases h) (auto simp: overseer_signal_handler_def worker_sigterm_handler_def
        worker_sigquit_handler_def monitoring_sigquit_handler_def auxiliary_sigquit_handler_def)
  then show ?thesis by (auto simp: no_exit0_def deliver_def)
qed

lemma no_exit0_answer: "no_exit0 (answer c es)"
proof (induction c es rule: answer.induct)
  case (3 c sig wr es)
  then show ?case by (auto intro!: no_exit0_intros no_exit0_deliver)
qed (simp_all add: no_exit0_def)

lemma no_exit0_sys [simp]: "no_exit0 (sys c)"
  using no_exit0_answer by (simp add: no_exit0_def sys_def)

lemma no_exit0_Log [simp]: "no_exit0 (Log s m)"
  unfolding Log_def by (auto intro!: no_exit0_intros)

lemma no_exit0_SetShouldExit [simp]: "no_exit0 (on_shmem SetShouldExitImmediately)"
  by (auto simp: no_exit0_def on_shmem_def SetShouldExitImmediately_def bind_def exchange_int8_def
      ret_def split: option.splits)

lemma no_exit0_HandleChildProcessDeath: "no_exit0 (HandleChildProcessDeath p s)"
  unfolding HandleChildProcessDeath_def HandleUnexpectedChildProcessDeath_def
  by (auto intro!: no_exit0_intros no_exit0_KillProcessGroup split: option.split prod.split)

lemma no_exit0_DrainSelfPipe: "no_exit0 DrainSelfPipe"
proof -
  have "DrainSelfPipe w \<noteq> (Halt (Exited 0), t)" for w t
  proof (induction w rule: DrainSelfPipe.induct)
    case (1 w)
    then show ?case
      using no_exit0_sys [of "C_read (fst (overseer_self_pipe w)) 10"]
      by (subst DrainSelfPipe.simps)
        (auto simp: no_exit0_def bind_def ret_def throw_def split: prod.splits outcome.splits if_splits)
  qed
  then show ?thesis by (simp add: no_exit0_def)
qed

lemma no_exit0_requests: "no_exit0 wait_select" "no_exit0 handle_shutdown_requests"
  unfolding wait_select_def handle_shutdown_requests_def
  by (auto intro!: no_exit0_intros no_exit0_DrainSelfPipe no_exit0_KillProcessGroup split: prod.split)

text \<open>The script is used up from its front.\<close>

interpretation consumed: loop_invariant "\<lambda>w. suffix (script w) es" for es
proof unfold_locales
  show "keeps_ret (\<lambda>w. suffix (script w) es) (sys c)" for c
    unfolding keeps_ret_def by (auto elim!: sys_script simp: suffix_def)
qed (simp_all add: bview_def)

text \<open>The last steps of an overseer that exits with code 0, with \<open>es\<close> the script it started
  with: of the answers it got, the last but one was the answer of waitpid that there is no child,
  the last one that of the clock for the line in the log.\<close>

definition clean_exit :: "event list \<Rightarrow> world \<Rightarrow> bool" where
  "clean_exit es w' \<longleftrightarrow> (\<exists>pre r ss g t n.
     es = pre @ Resp r # ss @ Resp g # script w' \<and> list_all interlude ss
     \<and> r_ret r = -1 \<and> r_errno r = ECHILD \<and> clock_ok g
     \<and> trace w' = t @ C_waitpid # pipe_writes w' n @ log_calls g LS_LOG ''BladePSGI shutting down'')"

lemma clean_exit_suffix:
  assumes "clean_exit es w'" and "suffix es es'"
  shows "clean_exit es' w'"
proof -
  obtain ys where "es' = ys @ es" using assms(2) by (auto simp: suffix_def)
  with assms(1) show ?thesis unfolding clean_exit_def by (metis append.assoc)
qed

lemma Log_trace:
  assumes "Log s m w = (Ret u, w')"
  obtains g ss n where "script w = ss @ Resp g # script w'" "list_all interlude ss" "clock_ok g"
    "trace w' = trace w @ pipe_writes w' n @ log_calls g s m"
proof -
  obtain g w1 where 1: "sys C_gettimeofday w = (Ret g, w1)" and g: "clock_ok g"
    and w': "w' = w1\<lparr>trace := trace w1 @ [C_write 2 (log_timestamp g @ severity_prefix s
        @ vsnprintf_buf 2048 m @ [CHR 0x0A])]\<rparr>"
    using assms by (auto simp: Log_def throw_def emit_def modify_def clock_ok_def elim!: bind_eq_RetE
        split: if_splits)
  obtain ss where ss: "script w = ss @ Resp g # script w1" "list_all interlude ss"
    using 1 by (rule sys_script)
  obtain n where n: "trace w1 = trace w @ pipe_writes w n @ [C_gettimeofday]"
    using 1 by (elim sys_trace) simp
  have "pipe_writes w' n = pipe_writes w n"
    using sys_static [OF 1] w' by (simp add: same_static_def pipe_writes_def)
  with w' n have "trace w' = trace w @ pipe_writes w' n @ log_calls g s m" by (simp add: log_calls_def)
  with ss g w' show ?thesis by (intro that [of ss g n]) simp_all
qed

lemma reaped_clean_exit:
  assumes "sys C_waitpid w = (Ret r, w1)" and "r_ret r = -1" and "r_errno r = ECHILD"
    and "Log LS_LOG ''BladePSGI shutting down'' w1 = (Ret (), w')"
  shows "clean_exit (script w) w'"
proof -
  obtain g ss n where lg: "script w1 = ss @ Resp g # script w'" "list_all interlude ss" "clock_ok g"
      "trace w' = trace w1 @ pipe_writes w' n @ log_calls g LS_LOG ''BladePSGI shutting down''"
    using assms(4) by (rule Log_trace)
  obtain pre where "script w = pre @ Resp r # script w1" using assms(1) by (rule sys_script)
  moreover obtain k where "trace w1 = trace w @ pipe_writes w k @ [C_waitpid]"
    using assms(1) by (elim sys_trace) simp
  ultimately show ?thesis
    unfolding clean_exit_def using lg assms(2,3)
    by (intro exI [of _ pre] exI [of _ r] exI [of _ ss] exI [of _ g]
        exI [of _ "trace w @ pipe_writes w k"] exI [of _ n]) simp
qed

lemma bind_eq_HaltE:
  assumes "bind m f s = (Halt h, t)"
  obtains "m s = (Halt h, t)" | a s' where "m s = (Ret a, s')" "f a s' = (Halt h, t)"
  using assms by (auto simp: bind_def split: prod.splits outcome.splits)

lemma wait_loop_exit0:
  "wait_loop w = (Halt (Exited 0), w') \<Longrightarrow> clean_exit (script w) w'"
proof (induction w rule: wait_loop.induct)
  case (1 w)
  have no: "sys C_waitpid w \<noteq> (Halt (Exited 0), t)" "Log s m u \<noteq> (Halt (Exited 0), t)"
      "HandleChildProcessDeath p st u \<noteq> (Halt (Exited 0), t)" for s m u t p st
    using no_exit0_sys no_exit0_Log no_exit0_HandleChildProcessDeath by (auto simp: no_exit0_def)
  from "1.prems" no(1) obtain r w1 where s: "sys C_waitpid w = (Ret r, w1)" and
    k: "(if r_ret r = -1 then
         (if r_errno r = ECHILD then
            andThen (Log LS_LOG ''BladePSGI shutting down'') (halt (Exited 0)) w1
          else if r_errno r \<noteq> EINTR then throw_errno ''waitpid'' (r_errno r) w1
          else wait_loop w1)
       else if r_ret r = 0 then ret () w1
       else bind (HandleChildProcessDeath (r_ret r) (out r 0)) (\<lambda>_ w2. wait_loop w2) w1)
       = (Halt (Exited 0), w')"
    by (subst (asm) wait_loop.simps) (auto elim!: bind_eq_HaltE)
  have w1: "suffix (script w1) (script w)"
    using keeps_retD [OF consumed.call _ s] by simp
  show ?case
  proof (cases "r_ret r = -1 \<and> r_errno r = ECHILD")
    case True
    with k no(2) have "Log LS_LOG ''BladePSGI shutting down'' w1 = (Ret (), w')"
      by (auto simp: andThen_def halt_def elim!: bind_eq_HaltE)
    with True show ?thesis using reaped_clean_exit [OF s] by blast
  next
    case False
    then consider "wait_loop w1 = (Halt (Exited 0), w')" "r_ret r = -1" "r_errno r = EINTR" | w2 where "r_ret r \<noteq> -1" "r_ret r \<noteq> 0"
        "HandleChildProcessDeath (r_ret r) (out r 0) w1 = (Ret (), w2)" "wait_loop w2 = (Halt (Exited 0), w')"
      using k no(3) by (auto simp: throw_def ret_def elim!: bind_eq_HaltE split: if_splits)
    then show ?thesis
    proof cases
      case 1
      then show ?thesis
        using "1.IH"(1) [OF s] clean_exit_suffix [OF _ w1] by (simp add: errno_defs)
    next
      case (2 w2)
      have "suffix (script w2) (script w)"
        using keeps_retD [OF consumed.returns_HandleChildProcessDeath w1 2(3)] .
      then show ?thesis
        using "1.IH"(2) [OF s 2(1,2,3,4)] clean_exit_suffix by blast
    qed
  qed
qed

lemma overseer_iteration_exit0:
  assumes "overseer_iteration w = (Halt (Exited 0), w')"
  shows "clean_exit (script w) w'"
proof -
  obtain w1 w2 where 1: "wait_select w = (Ret (), w1)" "handle_shutdown_requests w1 = (Ret (), w2)"
      "wait_loop w2 = (Halt (Exited 0), w')"
    using assms no_exit0_requests
    by (auto simp: overseer_iteration_def no_exit0_def andThen_def elim!: bind_eq_HaltE)
  have "suffix (script w2) (script w)"
    using keeps_retD [OF consumed.returns_handle_shutdown_requests _ 1(2)]
      keeps_retD [OF consumed.returns_wait_select _ 1(1)] by blast
  then show ?thesis
    using wait_loop_exit0 [OF 1(3)] by (rule clean_exit_suffix [rotated])
qed

text \<open>C4. The overseer exits with code 0 in one way only. Whatever it has been through: of the
  answers the system gave it, in the order of the script it started with, the last but one is
  waitpid's answer that there is no child left, and the last one is the time for the line that
  says the program is shutting down; waitpid and the writing of that line are its last calls
  (but for wake-ups of signals that arrive in between). So as long as a single worker, auxiliary
  or monitoring process is alive it does not report a clean exit.\<close>

theorem exit_zero_only_without_children:
  assumes "overseer_loop w = (Halt (Exited 0), w')"
  shows "\<exists>pre r ss g t n. script w = pre @ Resp r # ss @ Resp g # script w' \<and> list_all interlude ss
     \<and> r_ret r = -1 \<and> r_errno r = ECHILD \<and> clock_ok g
     \<and> trace w' = t @ C_waitpid # pipe_writes w' n @ log_calls g LS_LOG ''BladePSGI shutting down''"
  unfolding clean_exit_def [symmetric]
  using assms
proof (induction w rule: overseer_loop.induct)
  case (1 w)
  from "1.prems" consider "overseer_iteration w = (Halt (Exited 0), w')"
    | w1 where "overseer_iteration w = (Ret (), w1)" "overseer_loop w1 = (Halt (Exited 0), w')"
    by (subst (asm) overseer_loop.simps) (auto elim!: bind_eq_HaltE)
  then show ?case
  proof cases
    case 1
    then show ?thesis by (rule overseer_iteration_exit0)
  next
    case (2 w1)
    have "suffix (script w1) (script w)"
      using keeps_retD [OF consumed.returns_overseer_iteration _ 2(1)] by blast
    with "1.IH" [OF 2] show ?thesis by (rule clean_exit_suffix)
  qed
qed

definition demo_last :: world where
  "demo_last = demo_overseer [fail_resp EINTR, fail_resp ECHILD, Sig SIGCHLD (1, 0), ok_resp 0]"

theorem exit_zero_only_without_children_witness:
  "fst (overseer_loop demo_last) = Halt (Exited 0)
   \<and> (\<exists>pre ss g. script demo_last = pre @ fail_resp ECHILD # ss @ Resp g # [] \<and> list_all interlude ss)"
proof -
  let ?w' = "snd (overseer_loop demo_last)"
  have run: "fst (overseer_loop demo_last) = Halt (Exited 0)" "script ?w' = []"
    by (simp_all add: run_defs signal_run_defs overseer_run_defs demo_clock overseer_loop.simps demo_last_def demo_overseer_def
        demo_world_def demo_app_def ok_resp_def fail_resp_def)
  obtain pre r ss g where s: "script demo_last = pre @ Resp r # ss @ Resp g # []" "list_all interlude ss"
      "r_ret r = -1" "r_errno r = ECHILD"
    using exit_zero_only_without_children [of demo_last ?w'] run by (metis prod.collapse)
  have "Resp r \<in> set (script demo_last)" using s(1) by simp
  then have "Resp r = fail_resp ECHILD"
    using s(3,4) by (auto simp: demo_last_def demo_overseer_def demo_world_def ok_resp_def fail_resp_def errno_defs)
  with s(1,2) run(1) show ?thesis by metis
qed

section \<open>Shutdown requests\<close>

text \<open>What a pass through the main loop does about the requests noted so far: the signal
  for the group, the line for the log, and the two flags of the next pass.\<close>

definition shutdown_signal :: "world \<Rightarrow> (int \<times> string) option" where
  "shutdown_signal w =
     (if mainapp_fast_shutdown w then Some (SIGQUIT, ''received fast shutdown request'')
      else if \<not> mainapp_smart_shutdown w then None
      else if mainapp_force_fast_shutdown w
      then Some (SIGQUIT, ''received second smart shutdown request; shutting down quickly'')
      else Some (SIGTERM, ''received smart shutdown request''))"

text \<open>C5. Shutdown requests, on every branch. A fast request (SIGINT), also when a smart
  one is waiting, sends SIGQUIT to the workers and the monitoring process; a first smart request
  (SIGTERM) sends them SIGTERM; a later smart request sends SIGQUIT. The request is logged
  first, then cleared, and after a smart request the next one will be a fast one. Without a
  request nothing happens.\<close>

theorem shutdown_requests_handled:
  assumes "script w = Resp g # es" and "clock_ok g"
  shows "handle_shutdown_requests w = (case shutdown_signal w of
      None \<Rightarrow> (Ret (), w)
    | Some (sig, msg) \<Rightarrow>
        (Ret (), w\<lparr>script := es, trace := trace w @ log_calls g LS_LOG msg @ group_kills sig (app w),
           mainapp_smart_shutdown := mainapp_smart_shutdown w \<and> mainapp_fast_shutdown w,
           mainapp_fast_shutdown := False,
           mainapp_force_fast_shutdown := mainapp_force_fast_shutdown w \<or> sig = SIGTERM\<rparr>))"
  using Log_ok [OF assms]
  by (auto simp: handle_shutdown_requests_def shutdown_signal_def andThen_def bind_def gets_def ret_def
      modify_def KillProcessGroup_eq signal_defs)

theorem shutdown_requests_handled_witness:
  "filter is_kill (trace (snd (handle_shutdown_requests
     ((demo_overseer [ok_resp 0])\<lparr>mainapp_smart_shutdown := True, mainapp_force_fast_shutdown := True\<rparr>))))
   = [C_kill 11 SIGQUIT, C_kill 12 SIGQUIT, C_kill 13 SIGQUIT]"
proof -
  let ?g = "\<lparr>r_ret = 0, r_errno = 0, r_outs = [], r_text = [], r_xs = []\<rparr>"
  let ?w = "(demo_overseer [Resp ?g])\<lparr>mainapp_smart_shutdown := True, mainapp_force_fast_shutdown := True\<rparr>"
  have "script ?w = [Resp ?g]" by (simp add: demo_overseer_def demo_world_def)
  moreover have "clock_ok ?g" by (simp add: clock_ok_def demo_clock)
  ultimately show ?thesis
    unfolding ok_resp_def by (subst shutdown_requests_handled)
      (auto simp: shutdown_signal_def log_calls_def group_kills_def demo_overseer_def demo_world_def demo_app_def)
qed

section \<open>No request is overlooked\<close>

text \<open>A wake-up is pending when a handler has written to the self-pipe since the pipe was
  last read (a write that fails with \<^verbatim>\<open>EAGAIN\<close> finds the pipe full): the next
  \<^verbatim>\<open>select\<close> returns at once.\<close>

definition wakeup_pending :: "world \<Rightarrow> bool" where
  "wakeup_pending w \<longleftrightarrow>
     C_write (snd (overseer_self_pipe w)) ''j'' \<in> set (takeWhile (\<lambda>c. \<not> is_read c) (rev (trace w)))"

text \<open>A flag is up only if a wake-up is pending or, where \<open>q\<close> gives calls, these calls
  have been made.\<close>

definition noted :: "(world \<Rightarrow> bool) \<Rightarrow> call list option \<Rightarrow> world \<Rightarrow> bool" where
  "noted flag q w \<longleftrightarrow> (flag w \<longrightarrow> wakeup_pending w
     \<or> (case q of None \<Rightarrow> False | Some cs \<Rightarrow> sublist cs (trace w)))"

lemma wakeup_pending_app:
  assumes "trace w' = trace w @ cs" and "overseer_self_pipe w' = overseer_self_pipe w"
    and "\<forall>c \<in> set cs. \<not> is_read c"
  shows "wakeup_pending w' \<longleftrightarrow> C_write (snd (overseer_self_pipe w)) ''j'' \<in> set cs \<or> wakeup_pending w"
  using assms by (auto simp: wakeup_pending_def takeWhile_append)

lemma noted_app:
  assumes "noted flag q w" and "trace w' = trace w @ cs" and "\<forall>c \<in> set cs. \<not> is_read c"
    and "overseer_self_pipe w' = overseer_self_pipe w"
    and "flag w' \<longrightarrow> flag w \<or> C_write (snd (overseer_self_pipe w)) ''j'' \<in> set cs"
  shows "noted flag q w'"
proof (cases "wakeup_pending w'")
  case False
  with assms(1,5) wakeup_pending_app [OF assms(2,4,3)] have "flag w' \<Longrightarrow>
      case q of None \<Rightarrow> False | Some cs \<Rightarrow> sublist cs (trace w)"
    by (auto simp: noted_def)
  with assms(2) show ?thesis
    by (auto simp: noted_def split: option.splits simp: sublist_def) (metis append.assoc)
qed (simp add: noted_def)

lemma run_handler_notes:
  "\<exists>cs. trace (snd (run_handler h sig wr w)) = trace w @ cs \<and> (\<forall>c \<in> set cs. \<not> is_read c)
    \<and> overseer_self_pipe (snd (run_handler h sig wr w)) = overseer_self_pipe w
    \<and> (mainapp_fast_shutdown (snd (run_handler h sig wr w)) \<longrightarrow> mainapp_fast_shutdown w
         \<or> C_write (snd (overseer_self_pipe w)) ''j'' \<in> set cs)
    \<and> (mainapp_smart_shutdown (snd (run_handler h sig wr w)) \<longrightarrow> mainapp_smart_shutdown w
         \<or> C_write (snd (overseer_self_pipe w)) ''j'' \<in> set cs)"
proof (cases h)
  case Overseer_signal_handler
  then show ?thesis
    by (auto simp: overseer_signal_handler_def HandleParentSignal_def andThen_def bind_def gets_def
        modify_def ret_def halt_def emit_def KillProcessGroup_eq group_kills_def)
qed (auto simp: worker_sigterm_handler_def worker_sigquit_handler_def monitoring_sigquit_handler_def
      auxiliary_sigquit_handler_def halt_def ret_def modify_def)

lemma noted_handler:
  assumes "flag = mainapp_fast_shutdown \<or> flag = mainapp_smart_shutdown"
  shows "keeps (noted flag q) (run_handler h sig wr)"
proof (rule keepsI)
  fix w assume "noted flag q w"
  with run_handler_notes [of h sig wr w] assms show "noted flag q (snd (run_handler h sig wr w))"
    by (auto elim!: noted_app)
qed

lemma noted_call: "noted flag q w \<Longrightarrow> flag w' \<longrightarrow> flag w \<Longrightarrow> \<not> is_read c \<Longrightarrow>
  trace w' = trace w @ [c] \<Longrightarrow> overseer_self_pipe w' = overseer_self_pipe w \<Longrightarrow> noted flag q w'"
  by (auto elim!: noted_app)

lemma noted_kills:
  assumes "noted flag q w" and "flag w' \<longrightarrow> flag w" and "trace w' = trace w @ group_kills s a"
    and "overseer_self_pipe w' = overseer_self_pipe w"
  shows "noted flag q w'"
proof -
  have "\<forall>c \<in> set (group_kills s a). \<not> is_read c" by (auto simp: group_kills_def)
  with assms show ?thesis by (auto elim!: noted_app)
qed

lemma noted_same:
  "trace w' = trace w \<Longrightarrow> overseer_self_pipe w' = overseer_self_pipe w \<Longrightarrow> flag w' = flag w \<Longrightarrow>
   noted flag q w \<Longrightarrow> noted flag q w'"
  by (cases q) (simp_all add: noted_def wakeup_pending_def)

text \<open>The two flags.\<close>

definition request_flag :: "bool \<Rightarrow> world \<Rightarrow> bool" where
  "request_flag fast = (if fast then mainapp_fast_shutdown else mainapp_smart_shutdown)"

lemma request_flag_upd [simp]:
  "request_flag fast (w\<lparr>trace := t\<rparr>) = request_flag fast w"
  "request_flag fast (w\<lparr>app := a\<rparr>) = request_flag fast w"
  by (simp_all add: request_flag_def)

interpretation request_noted: reaping_invariant "noted (request_flag fast) q" "\<lambda>c. \<not> is_read c" for fast q
proof unfold_locales
  fix w w' assume "view w' = view w" and "noted (request_flag fast) q w"
  then show "noted (request_flag fast) q w'"
    by (intro noted_same [of w' w "request_flag fast" q]) (simp_all add: view_def request_flag_def)
next
  fix w c assume "noted (request_flag fast) q w" and "\<not> is_read c"
  then show "noted (request_flag fast) q (w\<lparr>trace := trace w @ [c]\<rparr>)"
    by (auto elim!: noted_call)
next
  fix w p assume "noted (request_flag fast) q w"
  then show "noted (request_flag fast) q
      (w\<lparr>app := (app w)\<lparr>worker_pids := remove1 p (worker_pids (app w))\<rparr>\<rparr>)"
    by (rule noted_same [rotated 3]) simp_all
next
  fix w assume "noted (request_flag fast) q w"
  then show "noted (request_flag fast) q (w\<lparr>app := (app w)\<lparr>monitoring_process_pid := -1\<rparr>\<rparr>)"
    by (rule noted_same [rotated 3]) simp_all
next
  show "keeps (noted (request_flag fast) q) (run_handler h sig wr)" for h sig wr
    by (rule noted_handler) (simp add: request_flag_def)
next
  show "keeps (noted (request_flag fast) q) (KillProcessGroup SIGQUIT)"
    by (auto simp: keeps_def KillProcessGroup_eq elim!: noted_kills)
qed simp

lemma group_kills_static: "same_static w w' \<Longrightarrow> group_kills s (app w') = group_kills s (app w)"
  using same_app_sel(10,11) [of "app w" "app w'"] by (simp add: same_static_def group_kills_def)

lemma DrainSelfPipe_static: "DrainSelfPipe w = (Ret u, w') \<Longrightarrow> same_static w w'"
  by (rule keeps_retD [OF keeps_ret_DrainSelfPipe])
    (auto simp: keeps_ret_def intro: same_static_trans sys_static)

lemma wait_select_static: "wait_select w = (Ret u, w') \<Longrightarrow> same_static w w'"
  by (auto simp: wait_select_def gets_def ret_def throw_def elim!: bind_eq_RetE
      dest!: sys_static DrainSelfPipe_static intro: same_static_trans split: if_splits)

text \<open>Handling the requests establishes the invariants.\<close>

lemma requests_noted:
  assumes "handle_shutdown_requests w = (Ret u, w')"
  shows "noted (request_flag True) None w'
    \<and> noted (request_flag False) (Some (group_kills SIGQUIT (app w))) w'"
proof -
  have low: "\<not> request_flag fast t \<Longrightarrow> noted (request_flag fast) q t" for fast q t
    by (simp add: noted_def)
  have lg: "noted (request_flag True) None w1" if "Log LS_LOG m w = (Ret (), w1)" "\<not> mainapp_fast_shutdown w"
    for m w1
    using that by (intro keepsD [OF request_noted.keeps_Log low]) (simp_all add: request_flag_def)
  consider "mainapp_fast_shutdown w" | "\<not> mainapp_fast_shutdown w" "mainapp_smart_shutdown w"
    | "\<not> mainapp_fast_shutdown w" "\<not> mainapp_smart_shutdown w" by blast
  then show ?thesis
  proof cases
    case 1
    with assms obtain m w1 where "Log LS_LOG m w = (Ret (), w1)" and
        w': "w' = w1\<lparr>trace := trace w1 @ group_kills SIGQUIT (app w1), mainapp_fast_shutdown := False\<rparr>"
      by (auto simp: handle_shutdown_requests_def andThen_def gets_def modify_def KillProcessGroup_eq
          elim!: bind_eq_RetE)
    then have "group_kills SIGQUIT (app w1) = group_kills SIGQUIT (app w)"
      using Log_Ret_static group_kills_static by blast
    with w' show ?thesis by (simp add: noted_def request_flag_def)
  next
    case 2
    with assms obtain m w1 s where "Log LS_LOG m w = (Ret (), w1)" and
        w': "trace w' = trace w1 @ group_kills s (app w1)" "\<not> mainapp_smart_shutdown w'"
          "mainapp_fast_shutdown w' = mainapp_fast_shutdown w1"
          "overseer_self_pipe w' = overseer_self_pipe w1"
      by (auto simp: handle_shutdown_requests_def andThen_def gets_def modify_def KillProcessGroup_eq
          elim!: bind_eq_RetE split: if_splits)
    with lg 2(1) have "noted (request_flag True) None w1" by blast
    then have "noted (request_flag True) None w'"
      using w' by (auto simp: request_flag_def elim!: noted_kills)
    moreover have "noted (request_flag False) q w'" for q
      using w'(2) by (intro low) (simp add: request_flag_def)
    ultimately show ?thesis by blast
  next
    case 3
    with assms show ?thesis
      by (auto simp: handle_shutdown_requests_def bind_def gets_def ret_def request_flag_def noted_def)
  qed
qed

text \<open>C2. No shutdown request is slept over. Whenever a pass through the overseer's main loop
  ends and the next select is about to wait, a fast request that a handler has noted but the
  loop has not acted on has left its wake-up in the self-pipe; so has a smart request, unless
  the group has been sent SIGQUIT already. This includes requests that arrive while the pipe is
  drained, a line is logged or children are reaped.\<close>

theorem no_request_slept_over:
  assumes "overseer_iteration w = (Ret (), w')"
  shows "(mainapp_fast_shutdown w' \<longrightarrow> wakeup_pending w')
    \<and> (mainapp_smart_shutdown w' \<longrightarrow>
         wakeup_pending w' \<or> sublist (group_kills SIGQUIT (app w)) (trace w'))"
proof -
  obtain w1 w2 where 1: "wait_select w = (Ret (), w1)" and 2: "handle_shutdown_requests w1 = (Ret (), w2)"
    and 3: "wait_loop w2 = (Ret (), w')"
    using assms by (auto simp: overseer_iteration_def andThen_def elim!: bind_eq_RetE)
  have "group_kills SIGQUIT (app w1) = group_kills SIGQUIT (app w)"
    using wait_select_static [OF 1] by (rule group_kills_static)
  with requests_noted [OF 2] have "noted (request_flag True) None w2"
      "noted (request_flag False) (Some (group_kills SIGQUIT (app w))) w2" by simp_all
  from this [THEN keepsD [OF request_noted.keeps_wait_loop, OF _ 3]] show ?thesis
    by (simp add: noted_def request_flag_def)
qed

text \<open>A SIGINT that arrives while children are reaped is still to be acted on.\<close>

definition demo_late :: world where
  "demo_late = demo_overseer [fail_resp EINTR, Sig SIGINT (1, 0), ok_resp 0]"

theorem no_request_slept_over_witness:
  "mainapp_fast_shutdown (snd (overseer_iteration demo_late))
   \<and> wakeup_pending (snd (overseer_iteration demo_late))"
proof -
  have "fst (overseer_iteration demo_late) = Ret ()"
    by (simp add: run_defs signal_run_defs overseer_run_defs demo_clock demo_late_def demo_overseer_def
        demo_world_def demo_app_def ok_resp_def fail_resp_def)
  then have "overseer_iteration demo_late = (Ret (), snd (overseer_iteration demo_late))"
    by (metis prod.collapse)
  moreover have "mainapp_fast_shutdown (snd (overseer_iteration demo_late))"
    by (simp add: run_defs signal_run_defs overseer_run_defs demo_clock demo_late_def demo_overseer_def
        demo_world_def demo_app_def ok_resp_def fail_resp_def)
  ultimately show ?thesis using no_request_slept_over by blast
qed

end
