(* ===== verification/Bpsgi_Service.thy ===== *)
theory Bpsgi_Service
  imports Bpsgi_Shutdown
begin

text \<open>
  What the forked processes do for the outside world: a worker serves requests and leaves
  only between them, the monitoring process watches the overseer and publishes statistics.
\<close>

section \<open>Workers\<close>

lemma same_shmem: "shmem (app w) = Some s \<Longrightarrow> w\<lparr>app := (app w)\<lparr>shmem := Some s\<rparr>\<rparr> = w"
proof -
  assume "shmem (app w) = Some s"
  then have "(app w)\<lparr>shmem := Some s\<rparr> = app w" by (cases "app w") simp
  then show ?thesis by simp
qed

lemma read_exit_flag:
  "shmem (app w) = Some s \<Longrightarrow> 0 < shmem_size s \<Longrightarrow>
   app_ShouldExitImmediately w = (Ret (segment s 0 = 1), w)"
  by (simp add: app_ShouldExitImmediately_def on_shmem_def ShouldExitImmediately_def bind_def
      load_int8_def ret_def layout_defs same_shmem)

lemma no_exit0_catch: "no_exit0 m \<Longrightarrow> (\<And>e. no_exit0 (h e)) \<Longrightarrow> no_exit0 (catch m h)"
  by (auto simp: no_exit0_def catch_def split: prod.splits outcome.splits)

lemma no_exit0_on_shmem: "no_exit0 m \<Longrightarrow> no_exit0 (on_shmem m)"
  by (auto simp: no_exit0_def on_shmem_def split: option.splits prod.splits)

lemma no_exit0_accesses [simp]:
  "no_exit0 (load_int8 a)" "no_exit0 (exchange_int8 a b)" "no_exit0 (store_int8 a b)"
  "no_exit0 (load_int64 a)" "no_exit0 (store_int64 a v)" "no_exit0 (fetch_add_int64 a v)"
  "no_exit0 (memset_zero a n)" "no_exit0 (AllocateUserShmem z)"
  by (auto simp: no_exit0_def access_defs AllocateUserShmem_def Let_def split: if_splits)

lemma no_exit0_semaphores [simp]:
  "no_exit0 (Acquire is sem)" "no_exit0 (TryAcquire is sem)" "no_exit0 (Release sem)"
proof -
  have w: "no_exit0 (libc_sem_wait b p)" "no_exit0 (libc_sem_trywait b p)" "no_exit0 (libc_sem_post p)" for b p
    by (auto simp: no_exit0_def libc_sem_defs split: option.splits if_splits)
  show "no_exit0 (Acquire is sem)"
    by (induction "is" sem rule: Acquire.induct) (auto intro!: no_exit0_intros w)
  show "no_exit0 (TryAcquire is sem)"
    by (induction "is" sem rule: TryAcquire.induct) (auto intro!: no_exit0_intros w)
  show "no_exit0 (Release sem)"
    unfolding Release_def by (auto intro!: no_exit0_intros w)
qed

lemma no_exit0_objects [simp]: "no_exit0 (NewSemaphore z i name v)" "no_exit0 (NewAtomicInt64 name v)"
  unfolding NewSemaphore_def NewAtomicInt64_def BPSGIAtomicInt64_new_def Let_def
  by (auto intro!: no_exit0_intros)

lemma no_exit0_the_ctx [simp]: "no_exit0 the_ctx"
  unfolding the_ctx_def by (auto intro!: no_exit0_intros split: option.split)

lemma no_exit0_strerror [simp]: "no_exit0 (SyscallException_strerror f e)"
  unfolding SyscallException_strerror_def by (auto intro!: no_exit0_intros split: option.split)

lemma no_exit0_xs: "no_exit0 (do_xs x)"
  by (cases x)
    (auto simp: xs_defs SetWorkerStatus_def
      RequestAuxiliaryProcess_def
      intro!: no_exit0_intros no_exit0_catch no_exit0_on_shmem
      split: option.split sum.split exn.split prod.split)

lemma no_exit0_run_prog: "(\<And>x. no_exit0 (f x)) \<Longrightarrow> no_exit0 (run_prog f xs)"
  by (induction xs) (auto intro!: no_exit0_intros)

lemma no_exit0_Callback_Call: "no_exit0 (Callback_Call sv)"
  unfolding Callback_Call_def bladepsgi_perl_callback_call_def perl_def
  by (auto intro!: no_exit0_intros no_exit0_run_prog no_exit0_xs split: option.split)

lemma MainLoopIteration_exit0:
  assumes "MainLoopIteration n sv w = (Halt (Exited 0), w')"
  shows "worker_terminated w'"
proof -
  have "no_exit0 app_ShouldExitImmediately" "no_exit0 (on_shmem IncreaseRequestCounter)"
      "no_exit0 (BPSGIWorker_SetWorkerStatus n c)" for c
    unfolding app_ShouldExitImmediately_def ShouldExitImmediately_def IncreaseRequestCounter_def
      BPSGIWorker_SetWorkerStatus_def app_SetWorkerStatus_def SetWorkerStatus_def
    by (auto intro!: no_exit0_on_shmem no_exit0_intros)
  then show ?thesis
    using assms no_exit0_Callback_Call
    by (auto simp: MainLoopIteration_def andThen_def gets_def halt_def ret_def no_exit0_def
        elim!: bind_eq_HaltE split: if_splits)
qed

lemma worker_loop_exit0: "worker_loop n sv w = (Halt (Exited 0), w') \<Longrightarrow> worker_terminated w'"
proof (induction n sv w rule: worker_loop.induct)
  case (1 n sv w)
  then show ?case
    by (subst (asm) worker_loop.simps) (auto elim!: bind_eq_HaltE dest: MainLoopIteration_exit0)
qed

lemma worker_loop_leaves:
  assumes "shmem (app w) = Some s" and "0 < shmem_size s"
  shows "segment s 0 = 1 \<Longrightarrow> worker_loop n sv w = (Halt (Exited 1), w)"
    and "segment s 0 \<noteq> 1 \<Longrightarrow> worker_terminated w \<Longrightarrow> worker_loop n sv w = (Halt (Exited 0), w)"
  by (subst worker_loop.simps, simp add: MainLoopIteration_def bind_def read_exit_flag [OF assms]
      halt_def gets_def)+

text \<open>C14. A worker leaves only between two requests. Once the shared exit flag is set it
  exits with code 1 before it takes another request, and once SIGTERM has arrived it exits with
  code 0; conversely it exits with code 0 only if SIGTERM has arrived.\<close>

theorem worker_leaves_between_requests:
  assumes "shmem (app w) = Some s" and "0 < shmem_size s"
  shows "(segment s 0 = 1 \<longrightarrow> worker_loop n sv w = (Halt (Exited 1), w))
    \<and> (segment s 0 \<noteq> 1 \<and> worker_terminated w \<longrightarrow> worker_loop n sv w = (Halt (Exited 0), w))
    \<and> (worker_loop n sv w = (Halt (Exited 0), w') \<longrightarrow> worker_terminated w')"
  using worker_loop_leaves [OF assms] worker_loop_exit0 by blast

definition demo_worker :: "event list \<Rightarrow> world" where
  "demo_worker es = (demo_world es)\<lparr>app := demo_app\<lparr>shmem := Some (BPSGISharedMemory_new 4096)\<rparr>,
     handlers := (\<lambda>_. SIG_DFL)(SIGTERM := Worker_sigterm_handler, SIGQUIT := Worker_sigquit_handler)\<rparr>"

theorem worker_leaves_between_requests_witness:
  "worker_loop 0 7 ((demo_worker [])\<lparr>worker_terminated := True\<rparr>)
     = (Halt (Exited 0), (demo_worker [])\<lparr>worker_terminated := True\<rparr>)"
  by (rule worker_leaves_between_requests [THEN conjunct2, THEN conjunct1, rule_format,
        of _ "BPSGISharedMemory_new 4096"])
    (simp_all add: demo_worker_def BPSGISharedMemory_new_def)

text \<open>C13. A worker finishes the request it is working on: when SIGTERM arrives while the
  application runs, the call goes on to its end, the request is counted, and only then the worker
  exits, with code 0 and without accepting another request.\<close>

theorem worker_finishes_request:
  assumes s: "shmem (app w) = Some s" "shmem_size s = 4096" "segment s 0 = 0" and n: "n < 2048"
    and w: "\<not> worker_terminated w" "script w = Sig SIGTERM wr # Resp r # es"
      "SIGTERM \<notin> sigmask w" "handlers w SIGTERM = Worker_sigterm_handler"
    and r: "r_ret r = 0" "r_xs r = []"
  shows "\<exists>w' s'. worker_loop n sv w = (Halt (Exited 0), w') \<and> trace w' = trace w @ [C_perl_call sv]
    \<and> shmem (app w') = Some s' \<and> load64 (segment s') 8 = load64 (segment s) 8 + 1
    \<and> segment s' (2048 + n) = char_byte CHR ''_'' \<and> segment s' 0 = 0"
proof -
  let ?s1 = "s\<lparr>segment := (segment s)(2048 + n := char_byte CHR ''_'')\<rparr>"
  let ?s2 = "?s1\<lparr>segment := store64 (segment ?s1) 8 (load64 (segment s) 8 + 1)\<rparr>"
  let ?w1 = "w\<lparr>app := (app w)\<lparr>shmem := Some ?s1\<rparr>\<rparr>"
  let ?w2 = "?w1\<lparr>worker_terminated := True, script := es, trace := trace w @ [C_perl_call sv]\<rparr>"
  let ?w3 = "?w2\<lparr>app := (app w)\<lparr>shmem := Some ?s2\<rparr>\<rparr>"
  have 1: "BPSGIWorker_SetWorkerStatus n CHR ''_'' w = (Ret (), ?w1)"
    using s n by (simp add: BPSGIWorker_SetWorkerStatus_def app_SetWorkerStatus_def on_shmem_def
        SetWorkerStatus_def store_int8_def WorkerArraySegment_def layout_defs)
  have "sys (C_perl_call sv) ?w1 = (Ret r, ?w2)"
    using w by (simp add: sys_def andThen_def bind_def modify_def deliver_def worker_sigterm_handler_def
        signal_defs)
  then have 2: "Callback_Call sv ?w1 = (Ret (), ?w2)"
    using r by (simp add: Callback_Call_def bladepsgi_perl_callback_call_def perl_def bind_def ret_def)
  have 3: "on_shmem IncreaseRequestCounter ?w2 = (Ret (load64 (segment s) 8), ?w3)"
    using s by (simp add: on_shmem_def IncreaseRequestCounter_def fetch_add_int64_def layout_defs
        mem_simps)
  have "0 < shmem_size s" "segment s 0 \<noteq> 1" using s by simp_all
  with 1 2 3 w(1) read_exit_flag [OF s(1)] have "MainLoopIteration n sv w = (Ret (), ?w3)"
    by (simp add: MainLoopIteration_def andThen_def bind_def gets_def ret_def)
  moreover have "worker_loop n sv ?w3 = (Halt (Exited 0), ?w3)"
    using s by (intro worker_loop_leaves(2) [of _ ?s2]) (simp_all add: mem_simps)
  ultimately have "worker_loop n sv w = (Halt (Exited 0), ?w3)"
    by (subst worker_loop.simps) (simp add: bind_def)
  moreover have "segment ?s2 (2048 + n) = char_byte CHR ''_''" "segment ?s2 0 = 0"
    using s(3) by (simp_all add: mem_simps)
  ultimately show ?thesis by (intro exI [of _ ?w3] exI [of _ ?s2]) (simp add: mem_simps)
qed

theorem worker_finishes_request_witness:
  "\<exists>w'. worker_loop 3 7 (demo_worker [Sig SIGTERM (1, 0), ok_resp 0]) = (Halt (Exited 0), w')
     \<and> trace w' = [C_perl_call 7]"
proof -
  let ?r = "\<lparr>r_ret = 0, r_errno = 0, r_outs = [], r_text = [], r_xs = []\<rparr>"
  let ?w = "demo_worker [Sig SIGTERM (1, 0), Resp ?r]"
  have "\<exists>w' s'. worker_loop 3 7 ?w = (Halt (Exited 0), w') \<and> trace w' = trace ?w @ [C_perl_call 7]
      \<and> shmem (app w') = Some s'
      \<and> load64 (segment s') 8 = load64 (segment (BPSGISharedMemory_new 4096)) 8 + 1
      \<and> segment s' (2048 + 3) = char_byte CHR ''_'' \<and> segment s' 0 = 0"
    by (rule worker_finishes_request [where r = ?r and es = "[]" and wr = "(1, 0)"])
      (simp_all add: demo_worker_def demo_world_def BPSGISharedMemory_new_def signal_defs)
  then show ?thesis unfolding ok_resp_def by (auto simp: demo_worker_def demo_world_def)
qed

section \<open>The monitoring process\<close>

definition overseer_died_message :: string where
  "overseer_died_message =
     ''monitoring process noticed that the parent process has died; terminating all processes''"

text \<open>C17. The monitoring process notices that the overseer has died (its parent is no longer
  the process that started it): it sets the flag that makes every worker exit before its next
  request, logs the fact if nobody else announced the exit, and exits with code 1.\<close>

theorem monitoring_notices_dead_overseer:
  assumes s: "shmem (app w) = Some s" "0 < shmem_size s"
    and r: "script w = Resp r # Resp g # es" "r_ret r \<noteq> runner_pid (app w)" and g: "clock_ok g"
  shows "\<exists>w' s'. monitoring_loop t w = (Halt (Exited 1), w')
    \<and> trace w' = trace w @ [C_getppid]
        @ (if segment s 0 = 0 then log_calls g LS_FATAL overseer_died_message else [])
    \<and> shmem (app w') = Some s' \<and> segment s' 0 = 1"
proof -
  let ?s = "s\<lparr>segment := (segment s)(0 := 1)\<rparr>"
  let ?w1 = "w\<lparr>script := Resp g # es, trace := trace w @ [C_getppid]\<rparr>"
  let ?w2 = "?w1\<lparr>app := (app w)\<lparr>shmem := Some ?s\<rparr>\<rparr>"
  have 1: "RunnerDied w = (Ret True, ?w1)"
    using r by (simp add: RunnerDied_def bind_def sys_def gets_def ret_def)
  have 2: "on_shmem SetShouldExitImmediately ?w1 = (Ret (segment s 0 = 0), ?w2)"
    using s by (simp add: on_shmem_def SetShouldExitImmediately_def bind_def exchange_int8_def
        ret_def layout_defs)
  have 3: "Log LS_FATAL overseer_died_message ?w2 = (Ret (),
      ?w2\<lparr>script := es, trace := trace w @ [C_getppid] @ log_calls g LS_FATAL overseer_died_message\<rparr>)"
    using Log_ok [of ?w2 g es] g by simp
  let ?w3 = "if segment s 0 = 0
    then ?w2\<lparr>script := es, trace := trace w @ [C_getppid] @ log_calls g LS_FATAL overseer_died_message\<rparr>
    else ?w2"
  have "monitoring_iteration t w = (Halt (Exited 1), ?w3)"
    using 1 2 3 by (simp add: monitoring_iteration_def bind_def andThen_def ret_def halt_def
        overseer_died_message_def [symmetric])
  then have "monitoring_loop t w = (Halt (Exited 1), ?w3)"
    by (subst monitoring_loop.simps) (simp add: bind_def)
  then show ?thesis by (intro exI [of _ ?w3] exI [of _ ?s]) simp
qed

theorem monitoring_notices_dead_overseer_witness:
  "\<exists>w' s'. monitoring_loop 0 (demo_worker [ok_resp 1, ok_resp 0]) = (Halt (Exited 1), w')
     \<and> shmem (app w') = Some s' \<and> segment s' 0 = 1"
proof -
  let ?r = "\<lambda>n. \<lparr>r_ret = n, r_errno = 0, r_outs = [], r_text = [], r_xs = []\<rparr>"
  let ?w = "demo_worker [Resp (?r 1), Resp (?r 0)]"
  have "clock_ok (?r 0)" by (simp add: clock_ok_def demo_clock)
  then have "\<exists>w' s'. monitoring_loop 0 ?w = (Halt (Exited 1), w')
    \<and> trace w' = trace ?w @ [C_getppid]
        @ (if segment (BPSGISharedMemory_new 4096) 0 = 0
           then log_calls (?r 0) LS_FATAL overseer_died_message else [])
    \<and> shmem (app w') = Some s' \<and> segment s' 0 = 1"
    by (intro monitoring_notices_dead_overseer [where r = "?r 1" and es = "[]"])
      (simp_all add: demo_worker_def demo_world_def demo_app_def BPSGISharedMemory_new_def)
  then show ?thesis unfolding ok_resp_def by blast
qed

section \<open>The statistics\<close>

text \<open>A client reads the statistics: lines, integers, and entries of a kind, a name and a
  value; the name is everything up to the last colon and space.\<close>

function split_lines :: "string \<Rightarrow> string list" where
  "split_lines s =
     (if s = [] then []
      else takeWhile (\<lambda>c. c \<noteq> CHR 0x0A) s # split_lines (tl (dropWhile (\<lambda>c. c \<noteq> CHR 0x0A) s)))"
  by pat_completeness auto
termination
proof (relation "measure length", simp, clarsimp)
  fix s :: string assume "s \<noteq> []"
  then show "length (dropWhile (\<lambda>c. c \<noteq> CHR 0x0A) s) - Suc 0 < length s"
    using length_dropWhile_le [of "\<lambda>c. c \<noteq> CHR 0x0A" s] by (cases s) (auto simp: less_Suc_eq_le)
qed

declare split_lines.simps [simp del]

definition read_int :: "string \<Rightarrow> int" where
  "read_int s = (case s of
      [] \<Rightarrow> 0
    | c # cs \<Rightarrow> if c = CHR ''-'' then - int (nat_of_digits cs) else int (nat_of_digits s))"

definition read_entry :: "string \<Rightarrow> string \<Rightarrow> (string \<times> int) option" where
  "read_entry kind line =
     (if take (length kind + 1) line = kind @ '' '' then
        let r = rev (drop (length kind + 1) line)
        in Some (rev (drop 2 (dropWhile (\<lambda>c. c \<noteq> CHR '' '') r)),
                 read_int (rev (takeWhile (\<lambda>c. c \<noteq> CHR '' '') r)))
      else None)"

definition read_stats ::
  "string \<Rightarrow> int \<times> string \<times> int \<times> (string \<times> int) list \<times> (string \<times> int) list" where
  "read_stats text =
     (let ls = split_lines text in
      (read_int (ls ! 0), ls ! 1, read_int (ls ! 2),
       List.map_filter (read_entry ''sem'') (drop 4 ls),
       List.map_filter (read_entry ''atomic'') (drop 4 ls)))"

lemma split_lines_Cons:
  "CHR 0x0A \<notin> set l \<Longrightarrow> split_lines (l @ CHR 0x0A # t) = l # split_lines t"
  by (subst split_lines.simps) (auto simp: takeWhile_append dropWhile_append)

lemma split_lines_Nil [simp]: "split_lines [] = []"
  by (subst split_lines.simps) simp

lemma string_of_int_chars: "c \<in> set (string_of_int i) \<Longrightarrow> is_digit c \<or> c = CHR ''-''"
  using string_of_nat_digits by (auto simp: string_of_int_def list_all_iff split: if_splits)

lemma string_of_int_no_sep [simp]:
  "CHR 0x0A \<notin> set (string_of_int i)" "CHR '' '' \<notin> set (string_of_int i)"
  by (auto dest!: string_of_int_chars simp: is_digit_def)

lemma read_int_string_of_int [simp]: "read_int (string_of_int i) = i"
proof (cases "i < 0")
  case False
  obtain c cs where c: "string_of_nat (nat i) = c # cs"
    using string_of_nat_nonempty by (metis neq_Nil_conv)
  then have "c \<noteq> CHR ''-''" using string_of_nat_digits [of "nat i"] by (auto simp: is_digit_def)
  with False c nat_of_digits_string_of_nat [of "nat i"] show ?thesis
    by (simp add: read_int_def string_of_int_def)
qed (simp add: read_int_def string_of_int_def)

text \<open>A line of the statistics without its newline.\<close>

definition entry :: "string \<Rightarrow> string \<Rightarrow> int \<Rightarrow> string" where
  "entry kind name v = kind @ '' '' @ name @ '': '' @ string_of_int v"

lemma stat_line_entry: "stat_line kind name v @ t = entry kind name (sint v) @ CHR 0x0A # t"
  by (simp add: stat_line_def entry_def int64_to_string_def)

lemma entry_no_newline:
  "CHR 0x0A \<notin> set kind \<Longrightarrow> CHR 0x0A \<notin> set name \<Longrightarrow> CHR 0x0A \<notin> set (entry kind name v)"
  by (simp add: entry_def)

lemma read_entry_same [simp]: "read_entry kind (entry kind name v) = Some (name, v)"
proof -
  let ?v = "rev (string_of_int v)"
  have sp: "CHR '' '' \<notin> set ?v" by simp
  have "takeWhile (\<lambda>c. c \<noteq> CHR '' '') (?v @ CHR '' '' # t) = ?v"
    "dropWhile (\<lambda>c. c \<noteq> CHR '' '') (?v @ CHR '' '' # t) = CHR '' '' # t" for t
    using sp by (auto simp: takeWhile_append dropWhile_append)
  then show ?thesis by (simp add: read_entry_def entry_def Let_def)
qed

lemma read_entry_other [simp]:
  "read_entry ''sem'' (entry ''atomic'' name v) = None"
  "read_entry ''atomic'' (entry ''sem'' name v) = None"
  by (auto simp: read_entry_def entry_def)

definition stat_entries :: "string \<Rightarrow> ('a \<Rightarrow> string) \<Rightarrow> ('a \<Rightarrow> int64) \<Rightarrow> 'a list \<Rightarrow> string" where
  "stat_entries kind name val xs = concat (map (\<lambda>x. stat_line kind (name x) (val x)) xs)"

lemma split_lines_entries:
  assumes "\<forall>x \<in> set xs. CHR 0x0A \<notin> set (name x)" and "CHR 0x0A \<notin> set kind"
  shows "split_lines (stat_entries kind name val xs @ t)
    = map (\<lambda>x. entry kind (name x) (sint (val x))) xs @ split_lines t"
  using assms(1)
proof (induction xs)
  case (Cons x xs)
  have "split_lines (entry kind (name x) (sint (val x)) @ CHR 0x0A # u)
      = entry kind (name x) (sint (val x)) # split_lines u" for u
    using Cons.prems assms(2) by (intro split_lines_Cons entry_no_newline) auto
  with Cons show ?case by (simp add: stat_entries_def stat_line_entry)
qed (simp add: stat_entries_def)

lemma sem_lines_eq:
  "\<forall>x \<in> set xs. sem_vals s (sem_ptr x) \<noteq> None \<Longrightarrow> sem_lines xs s =
    (Ret (stat_entries ''sem'' sem_name (\<lambda>x. of_nat (the (sem_vals s (sem_ptr x)))) xs), s)"
  by (induction xs) (auto simp: stat_entries_def ret_def bind_def BPSGISemaphore_Read_def
      libc_sem_getvalue_def)

lemma atomic_lines_eq:
  "\<forall>x \<in> set xs. atm_ptr x + 8 \<le> shmem_size s \<Longrightarrow> atomic_lines xs s =
    (Ret (stat_entries ''atomic'' atm_name (\<lambda>x. load64 (segment s) (atm_ptr x)) xs), s)"
  by (induction xs) (auto simp: stat_entries_def ret_def bind_def BPSGIAtomicInt64_Read_def
      load_int64_def)

lemma map_filter_entries:
  "List.map_filter (read_entry k) (map (\<lambda>x. entry k (name x) (val x)) xs) = map (\<lambda>x. (name x, val x)) xs"
  "List.map_filter (read_entry ''sem'') (map (\<lambda>x. entry ''atomic'' (name x) (val x)) xs) = []"
  "List.map_filter (read_entry ''atomic'') (map (\<lambda>x. entry ''sem'' (name x) (val x)) xs) = []"
  by (induction xs) (simp_all add: List.map_filter_simps)

lemma map_filter_append: "List.map_filter f (xs @ ys) = List.map_filter f xs @ List.map_filter f ys"
  by (simp add: List.map_filter_def)

text \<open>The text the monitoring process builds on a well-formed segment.\<close>

definition stats_text :: "int64 \<Rightarrow> byte list \<Rightarrow> shm \<Rightarrow> string" where
  "stats_text t cs s = string_of_int (sint t) @ CHR 0x0A # map byte_char cs @ CHR 0x0A
     # string_of_int (sint (load64 (segment s) 8)) @ CHR 0x0A # [] @ CHR 0x0A
     # stat_entries ''sem'' sem_name (\<lambda>x. of_nat (the (sem_vals s (sem_ptr x)))) (semaphores s)
     @ stat_entries ''atomic'' atm_name (\<lambda>x. load64 (segment s) (atm_ptr x)) (atomics s) @ []"

lemma statdata_eq:
  assumes wf: "shm_wf ssz s"
  shows "statdata t cs s = (Ret (stats_text t cs s), s)"
proof -
  have "sem_lines (semaphores s) s = (Ret (stat_entries ''sem'' sem_name
      (\<lambda>x. of_nat (the (sem_vals s (sem_ptr x)))) (semaphores s)), s)"
    using wf by (intro sem_lines_eq) (auto simp: shm_wf_def list_all_iff)
  moreover have "atomic_lines (atomics s) s = (Ret (stat_entries ''atomic'' atm_name
      (\<lambda>x. load64 (segment s) (atm_ptr x)) (atomics s)), s)"
  proof (rule atomic_lines_eq, rule ballI)
    fix x assume "x \<in> set (atomics s)"
    from atomic_region [OF wf this] show "atm_ptr x + 8 \<le> shmem_size s" by simp
  qed
  moreover have "shmem_size s = 4096" using wf by (simp add: shm_wf_def)
  ultimately show ?thesis
    by (simp add: statdata_def stats_text_def bind_def ReadRequestCounter_def load_int64_def
        layout_defs gets_def ret_def int64_to_string_def)
qed

lemma split_lines_stats:
  assumes "CHR 0x0A \<notin> set (map byte_char cs)"
    and "\<forall>x \<in> set (semaphores s). CHR 0x0A \<notin> set (sem_name x)"
    and "\<forall>x \<in> set (atomics s). CHR 0x0A \<notin> set (atm_name x)"
  shows "split_lines (stats_text t cs s) = string_of_int (sint t) # map byte_char cs
      # string_of_int (sint (load64 (segment s) 8)) # []
      # map (\<lambda>x. entry ''sem'' (sem_name x) (sint (of_nat (the (sem_vals s (sem_ptr x))) :: int64))) (semaphores s)
      @ map (\<lambda>x. entry ''atomic'' (atm_name x) (sint (load64 (segment s) (atm_ptr x)))) (atomics s)"
  using assms split_lines_Cons [of "[]"]
    split_lines_entries [of "semaphores s" sem_name "''sem''"
      "\<lambda>x. of_nat (the (sem_vals s (sem_ptr x)))"
      "stat_entries ''atomic'' atm_name (\<lambda>x. load64 (segment s) (atm_ptr x)) (atomics s) @ []"]
    split_lines_entries [of "atomics s" atm_name "''atomic''"
      "\<lambda>x. load64 (segment s) (atm_ptr x)" "[]"]
  by (simp add: stats_text_def split_lines_Cons)

text \<open>C18. The statistics can be read back. On every well-formed segment the monitoring process
  produces a text from which a client recovers the start time, the status character of each
  worker, the number of requests and the name and value of every semaphore and every atomic
  integer, in the order of their creation, whatever characters except newlines the names and
  statuses contain.\<close>

theorem statistics_read_back:
  assumes wf: "shm_wf ssz s"
    and nl: "CHR 0x0A \<notin> set (map byte_char cs)"
      "\<forall>x \<in> set (semaphores s). CHR 0x0A \<notin> set (sem_name x)"
      "\<forall>x \<in> set (atomics s). CHR 0x0A \<notin> set (atm_name x)"
  shows "\<exists>text. statdata t cs s = (Ret text, s) \<and> read_stats text =
    (sint t, map byte_char cs, sint (load64 (segment s) 8),
     map (\<lambda>x. (sem_name x, sint (of_nat (the (sem_vals s (sem_ptr x))) :: int64))) (semaphores s),
     map (\<lambda>x. (atm_name x, sint (load64 (segment s) (atm_ptr x)))) (atomics s))"
  using statdata_eq [OF wf] split_lines_stats [OF nl]
  by (intro exI [of _ "stats_text t cs s"]) (simp add: read_stats_def map_filter_append map_filter_entries)

theorem statistics_read_back_witness:
  "\<exists>text. statdata 5 [95, 119] demo_shm = (Ret text, demo_shm)
     \<and> fst (read_stats text) = 5 \<and> fst (snd (read_stats text)) = ''_w''
     \<and> map fst (snd (snd (snd (snd (read_stats text))))) = [''hits'']"
proof -
  have "shm_wf 32 demo_shm"
    using loaded_inv [OF demo_loaded] by (simp add: shared_inv_def)
  moreover have "map byte_char [95, 119] = ''_w''" by code_simp
  moreover have "semaphores demo_shm = []" by code_simp
  ultimately show ?thesis
    using statistics_read_back [of 32 demo_shm "[95, 119]" 5]
    by (auto simp: demo_shm_atomics demo_atomic_def)
qed

section \<open>Clients of the statistics socket\<close>

text \<open>C19. A client of the statistics socket is served completely: with a live overseer and a
  connection waiting, one pass of the monitoring process accepts it, writes the statistics with
  the current status of all workers, shuts the connection down and closes it, so no descriptor
  is leaked; it touches nothing else and goes on.\<close>

theorem client_gets_statistics:
  assumes s: "shmem (app w) = Some s" "shm_wf ssz s" and n: "nworkers (app w) \<le> 2048"
    and e: "script w = Resp p # Resp q # Resp c # es" "r_ret p = runner_pid (app w)" "r_ret q = 1"
      "r_ret c \<noteq> -1"
  shows "\<exists>text. statdata t (map (\<lambda>i. segment s (2048 + i)) [0..<nat (nworkers (app w))]) s = (Ret text, s)
    \<and> monitoring_iteration t w = (Ret (), w\<lparr>script := es, trace := trace w
        @ [C_getppid, C_select (stats_sockfd (app w) + 1) 1, C_accept (stats_sockfd (app w)),
           C_write (r_ret c) text, C_shutdown (r_ret c), C_close (r_ret c)]\<rparr>)"
proof -
  let ?fd = "stats_sockfd (app w)" and ?n = "nat (nworkers (app w))"
  let ?cs = "map (\<lambda>i. segment s (2048 + i)) [0..<?n]"
  let ?w1 = "w\<lparr>script := Resp q # Resp c # es, trace := trace w @ [C_getppid]\<rparr>"
  let ?w2 = "w\<lparr>script := Resp c # es, trace := trace w @ [C_getppid, C_select (?fd + 1) 1]\<rparr>"
  obtain txt_out where st: "statdata t ?cs s = (Ret txt_out, s)"
    using statdata_eq [OF s(2)] by blast
  have sz: "shmem_size s = 4096" using s(2) by (simp add: shm_wf_def)
  have "GetAllWorkerStatuses_loop 2048 ?n s = (Ret (map (segment s) [2048..<2048 + ?n]), s)"
    using n sz by (intro GetAllWorkerStatuses_loop_ok) auto
  moreover have "map (segment s) [2048..<2048 + ?n] = ?cs"
    by (rule nth_equalityI) simp_all
  ultimately have 2: "on_shmem (GetAllWorkerStatuses (nworkers (app w))) ?w2 = (Ret ?cs, ?w2)"
    using s(1) same_shmem [of ?w2 s]
    by (simp add: on_shmem_def GetAllWorkerStatuses_def WorkerArraySegment_def layout_defs)
  have 1: "RunnerDied w = (Ret False, ?w1)"
    using e by (simp add: RunnerDied_def bind_def sys_def gets_def ret_def)
  have 3: "on_shmem (statdata t ?cs) (w\<lparr>script := es, trace := tr\<rparr>) = (Ret txt_out, w\<lparr>script := es, trace := tr\<rparr>)" for tr
    using s(1) same_shmem [of "w\<lparr>script := es, trace := tr\<rparr>" s] st by (simp add: on_shmem_def)
  have "sys (C_select (?fd + 1) 1) ?w1 = (Ret q, ?w2)" by (simp add: sys_def)
  with 1 2 e(3) have "monitoring_iteration t w = HandleClient ?fd t ?cs ?w2"
    by (simp add: monitoring_iteration_def bind_def gets_def)
  also have "\<dots> = (Ret (), w\<lparr>script := es, trace := trace w
      @ [C_getppid, C_select (?fd + 1) 1, C_accept ?fd, C_write (r_ret c) txt_out,
         C_shutdown (r_ret c), C_close (r_ret c)]\<rparr>)"
    using e(4) 3 by (simp add: HandleClient_def Let_def bind_def sys_def andThen_def emit_def modify_def)
  finally show ?thesis using st by blast
qed

definition demo_monitoring :: "event list \<Rightarrow> world" where
  "demo_monitoring es = (demo_world es)\<lparr>app := demo_app\<lparr>shmem := Some demo_shm, stats_sockfd := 9\<rparr>\<rparr>"

theorem client_gets_statistics_witness:
  "\<exists>text. trace (snd (monitoring_iteration 5 (demo_monitoring [ok_resp 100, ok_resp 1, ok_resp 4])))
     = [C_getppid, C_select 10 1, C_accept 9, C_write 4 text, C_shutdown 4, C_close 4]"
proof -
  let ?r = "\<lambda>n. \<lparr>r_ret = n, r_errno = 0, r_outs = [], r_text = [], r_xs = []\<rparr>"
  let ?w = "demo_monitoring [Resp (?r 100), Resp (?r 1), Resp (?r 4)]"
  have "shm_wf 32 demo_shm"
    using loaded_inv [OF demo_loaded] by (simp add: shared_inv_def)
  moreover have "shmem (app ?w) = Some demo_shm" "nworkers (app ?w) \<le> 2048" "runner_pid (app ?w) = 100"
      "script ?w = [Resp (?r 100), Resp (?r 1), Resp (?r 4)]" "stats_sockfd (app ?w) = 9" "trace ?w = []"
    by (simp_all add: demo_monitoring_def demo_world_def demo_app_def)
  ultimately obtain txt_out where "monitoring_iteration 5 ?w = (Ret (), ?w\<lparr>script := [], trace := trace ?w
      @ [C_getppid, C_select (stats_sockfd (app ?w) + 1) 1, C_accept (stats_sockfd (app ?w)),
         C_write (r_ret (?r 4)) txt_out, C_shutdown (r_ret (?r 4)), C_close (r_ret (?r 4))]\<rparr>)"
    using client_gets_statistics [of ?w demo_shm 32 "?r 100" "?r 1" "?r 4" "[]" 5] by auto
  with \<open>stats_sockfd (app ?w) = 9\<close> \<open>trace ?w = []\<close> show ?thesis
    unfolding ok_resp_def by (intro exI [of _ txt_out]) simp
qed

end
