(* ===== verification/Bpsgi_Children.thy ===== *)
theory Bpsgi_Children
  imports Bpsgi_Shutdown
begin

text \<open>
  The forked processes, as their parent sees them. A child never gets back into the code of the
  overseer, and an overseer that has forked knows the ids of all its children.
\<close>

section \<open>Children do not return\<close>

lemma worker_loop_never: "worker_loop n sv w \<noteq> (Ret a, t)"
  by (rule never_returning_loop [OF worker_loop.simps MainLoopIteration_shrinks])

lemma monitoring_loop_never: "monitoring_loop t w \<noteq> (Ret a, u)"
  by (rule never_returning_loop [OF monitoring_loop.simps monitoring_iteration_shrinks])

lemma never_worker_Run: "never_returns (worker_Run n sv)"
  unfolding worker_Run_def
  by (auto intro!: never_returns_intros split: exn.split)
    (simp add: never_returns_def worker_loop_never)

lemma never_auxiliary_Run: "never_returns (auxiliary_Run k)"
  unfolding auxiliary_Run_def by (auto intro!: never_returns_bind never_returns_andThen)

lemma never_monitoring_Run: "never_returns monitoring_Run"
  unfolding monitoring_Run_def
  by (auto intro!: never_returns_bind never_returns_andThen)
    (simp add: never_returns_def monitoring_loop_never)

lemma never_RunMonitoringProcess: "never_returns RunMonitoringProcess"
  unfolding RunMonitoringProcess_def by (auto intro!: never_returns_bind)

lemma never_RunWorker: "never_returns (RunWorker n i sv)"
  unfolding RunWorker_def unwinding_def
  by (intro never_returns_catch never_returns_andThen)
    (auto intro!: never_returns_bind never_returns_andThen split: exn.split)

text \<open>Which exceptions can leave a worker: not those \<^verbatim>\<open>main\<close> would catch, as the
  destructor of the interpreter ends the process first.\<close>

lemma unwinding_Throw:
  assumes "\<not> destroyed i" and "unwinding i m w = (Throw e, w')"
  shows "\<not> (\<exists>x. e = SyscallExn x) \<and> \<not> (\<exists>x. e = RuntimeExn x)"
  using assms
  by (auto simp: unwinding_def catch_def andThen_def bind_def throw_def halt_def emit_def modify_def
      Interpreter_destructor_def split: prod.splits outcome.splits exn.splits)

text \<open>C11. A forked worker never gets back into the code of its parent: RunWorker does not
  return, and no exception that main would handle (and answer by signalling the whole group)
  leaves it, whatever fails in the worker. The same holds for a monitoring process as far as
  returning is concerned.\<close>

theorem children_never_return:
  "RunWorker n \<lparr>destroyed = False\<rparr> sv w \<noteq> (Ret u, w')
   \<and> RunWorker n \<lparr>destroyed = False\<rparr> sv w \<noteq> (Throw (SyscallExn x), w')
   \<and> RunWorker n \<lparr>destroyed = False\<rparr> sv w \<noteq> (Throw (RuntimeExn msg), w')
   \<and> RunMonitoringProcess w \<noteq> (Ret u, w')"
proof -
  have "RunWorker n \<lparr>destroyed = False\<rparr> sv w \<noteq> (Throw e, w')"
    if "e = SyscallExn x \<or> e = RuntimeExn msg" for e
    using unwinding_Throw [of "\<lparr>destroyed = False\<rparr>" _ w e w'] that
    by (auto simp: RunWorker_def)
  then show ?thesis
    using never_RunWorker never_RunMonitoringProcess by (auto simp: never_returns_def)
qed

section \<open>The books after spawning\<close>

text \<open>Until the first fork only the list of requested auxiliary processes grows.\<close>

definition loading :: "mainapp \<Rightarrow> world \<Rightarrow> bool" where
  "loading a w \<longleftrightarrow> worker_pids (app w) = worker_pids a \<and> auxiliary_pids (app w) = auxiliary_pids a
     \<and> nworkers (app w) = nworkers a
     \<and> (\<exists>ps. auxiliary_processes (app w) = auxiliary_processes a @ ps \<and> (\<forall>p \<in> set ps. aux_pid p = -1))"

lemma loading_same_app: "same_app (app w) (app w') \<Longrightarrow> loading a w \<Longrightarrow> loading a w'"
  by (simp add: loading_def same_app_sel)

lemma loading_refl: "loading (app w) w"
  by (simp add: loading_def)

lemma keeps_loading_sys: "keeps (loading a) (sys c)"
  using sys_static_all(1) loading_same_app by (fastforce simp: keeps_def same_static_def)

lemma keeps_loading_modify: "(\<And>w. app (f w) = app w) \<Longrightarrow> keeps (loading a) (modify f)"
  by (simp add: keeps_def modify_def loading_def)

lemma keeps_loading_emit: "keeps (loading a) (emit c)"
  unfolding emit_def by (rule keeps_loading_modify) simp

lemma keeps_loading_shmem: "keeps (loading a) (on_shmem m)"
  by (rule keepsI) (auto simp: on_shmem_def loading_def split: option.splits prod.splits)

lemma keeps_loading_Request: "keeps (loading a) (RequestAuxiliaryProcess name cb)"
  by (rule keepsI) (auto simp: RequestAuxiliaryProcess_def modify_def loading_def)

lemma keeps_loading_xs: "keeps (loading a) (do_xs x)"
  by (cases x)
    (auto simp: xs_defs
      intro!: keeps_intros keeps_loading_shmem keeps_loading_Request
      split: option.split sum.split exn.split prod.split)

lemma keeps_loading_perl: "keeps (loading a) (perl c)"
  unfolding perl_def
  by (intro keeps_bind keeps_loading_sys keeps_run_prog keeps_loading_xs keeps_pure)

lemma keeps_loading_eval:
  "keeps (loading a) k \<Longrightarrow> keeps (loading a) (eval_or_fail code k)"
  "keeps (loading a) k \<Longrightarrow> keeps (loading a) (eval_or_croak code k)"
  unfolding eval_or_fail_def eval_or_croak_def
  by (auto intro!: keeps_intros keeps_loading_perl keeps_loading_emit)

lemma keeps_loading_interpreter: "keeps (loading a) InitializePerlInterpreter"
  unfolding InitializePerlInterpreter_def BPSGIPerlInterpreter_new_def
    bladepsgi_perl_interpreter_init_def
  by (auto intro!: keeps_intros keeps_loading_sys keeps_loading_eval keeps_loading_modify
      split: option.split)

lemma keeps_loading_callbacks: "keeps (loading a) (LoadCallbackFromCString code)"
  "keeps (loading a) (CallAndReceiveCallback sv)"
  unfolding LoadCallbackFromCString_def bladepsgi_perl_callback_init_def CallAndReceiveCallback_def
    bladepsgi_perl_callback_call_and_receive_callback_def
  by (auto intro!: keeps_intros keeps_loading_perl keeps_loading_emit split: sum.split)

text \<open>Forks. A child does not return, so a return tells of a positive answer.\<close>

lemma SpawnAuxiliaryProcess_Ret:
  assumes "SpawnAuxiliaryProcess k w = (Ret u, w')" and "k < length (auxiliary_processes (app w))"
  shows "\<exists>pid > 0. auxiliary_pids (app w') = auxiliary_pids (app w) @ [pid]
    \<and> auxiliary_processes (app w') =
        (auxiliary_processes (app w))[k := (auxiliary_processes (app w) ! k)\<lparr>aux_pid := pid\<rparr>]
    \<and> worker_pids (app w') = worker_pids (app w) \<and> nworkers (app w') = nworkers (app w)
    \<and> map_option locked (shmem (app w')) = map_option locked (shmem (app w))"
proof -
  obtain r w1 where s: "sys C_fork w = (Ret r, w1)"
    and k: "0 < r_ret r" "andThen (SetPID k (r_ret r)) (modify (\<lambda>w. w\<lparr>app := (app w)
      \<lparr>auxiliary_pids := auxiliary_pids (app w) @ [r_ret r]\<rparr>\<rparr>)) w1 = (Ret u, w')"
    using assms(1) never_auxiliary_Run
    by (auto simp: SpawnAuxiliaryProcess_def Let_def throw_def andThen_def halt_def never_returns_def
        elim!: bind_eq_RetE split: if_splits)
  have sa: "same_app (app w) (app w1)" using sys_static [OF s] by (simp add: same_static_def)
  then have "map_option locked (shmem (app w1)) = map_option locked (shmem (app w))"
    by (auto simp: same_app_def peers_ext_def elim!: option.rel_cases)
  with k same_app_sel [OF sa] show ?thesis
    by (auto simp: SetPID_def andThen_def gets_def modify_def throw_def Assert_def ret_def
        elim!: bind_eq_RetE split: if_splits)
qed

lemma spawn_worker_Ret:
  assumes "spawn_worker i sv n w = (Ret u, w')"
  shows "\<exists>pid > 0. worker_pids (app w') = worker_pids (app w) @ [pid]
    \<and> auxiliary_pids (app w') = auxiliary_pids (app w)
    \<and> auxiliary_processes (app w') = auxiliary_processes (app w) \<and> nworkers (app w') = nworkers (app w)
    \<and> map_option locked (shmem (app w')) = map_option locked (shmem (app w))"
proof -
  obtain r w1 where s: "sys C_fork w = (Ret r, w1)"
    and k: "0 < r_ret r" "w' = w1\<lparr>app := (app w1)\<lparr>worker_pids := worker_pids (app w1) @ [r_ret r]\<rparr>\<rparr>"
    using assms never_RunWorker
    by (auto simp: spawn_worker_def Let_def throw_def andThen_def halt_def never_returns_def
        modify_def gets_def Assert_def ret_def elim!: bind_eq_RetE split: if_splits)
  have sa: "same_app (app w) (app w1)" using sys_static [OF s] by (simp add: same_static_def)
  then have "map_option locked (shmem (app w1)) = map_option locked (shmem (app w))"
    by (auto simp: same_app_def peers_ext_def elim!: option.rel_cases)
  with k same_app_sel [OF sa] show ?thesis by auto
qed

lemma spawn_workers_loop_Ret:
  assumes "spawn_workers_loop i sv ns w = (Ret u, w')"
  shows "\<exists>ps. worker_pids (app w') = worker_pids (app w) @ ps \<and> length ps = length ns
    \<and> (\<forall>p \<in> set ps. 0 < p) \<and> auxiliary_pids (app w') = auxiliary_pids (app w)
    \<and> auxiliary_processes (app w') = auxiliary_processes (app w)
    \<and> map_option locked (shmem (app w')) = map_option locked (shmem (app w))"
  using assms
proof (induction ns arbitrary: w)
  case Nil
  then show ?case by (simp add: ret_def)
next
  case (Cons n ns)
  then obtain w1 where 1: "spawn_worker i sv n w = (Ret (), w1)" "spawn_workers_loop i sv ns w1 = (Ret u, w')"
    by (auto simp: andThen_def elim!: bind_eq_RetE)
  obtain pid where "0 < pid" "worker_pids (app w1) = worker_pids (app w) @ [pid]"
      "auxiliary_pids (app w1) = auxiliary_pids (app w)"
      "auxiliary_processes (app w1) = auxiliary_processes (app w)"
      "map_option locked (shmem (app w1)) = map_option locked (shmem (app w))"
    using spawn_worker_Ret [OF 1(1)] by blast
  moreover obtain ps where "worker_pids (app w') = worker_pids (app w1) @ ps" "length ps = length ns"
      "\<forall>p \<in> set ps. 0 < p" "auxiliary_pids (app w') = auxiliary_pids (app w1)"
      "auxiliary_processes (app w') = auxiliary_processes (app w1)"
      "map_option locked (shmem (app w')) = map_option locked (shmem (app w1))"
    using Cons.IH [OF 1(2)] by blast
  ultimately show ?case by (intro exI [of _ "pid # ps"]) simp
qed

text \<open>The ids of auxiliary processes are known in two places, which agree.\<close>

lemma spawn_auxiliary_loop_Ret:
  assumes "spawn_auxiliary_loop [k..<n] w = (Ret u, w')" and "n = length (auxiliary_processes (app w))"
    and "k \<le> n" and "auxiliary_pids (app w) = map aux_pid (take k (auxiliary_processes (app w)))"
    and "\<forall>p \<in> set (take k (auxiliary_processes (app w))). 0 < aux_pid p"
  shows "auxiliary_pids (app w') = map aux_pid (auxiliary_processes (app w'))
    \<and> (\<forall>p \<in> set (auxiliary_processes (app w')). 0 < aux_pid p)
    \<and> worker_pids (app w') = worker_pids (app w) \<and> nworkers (app w') = nworkers (app w)
    \<and> map aux_name (auxiliary_processes (app w')) = map aux_name (auxiliary_processes (app w))
    \<and> map_option locked (shmem (app w')) = map_option locked (shmem (app w))"
  using assms
proof (induction "n - k" arbitrary: k w)
  case 0
  then show ?case by (simp add: ret_def)
next
  case (Suc d)
  then have k: "k < n" "[k..<n] = k # [Suc k..<n]" by (simp_all add: upt_conv_Cons)
  let ?ps = "auxiliary_processes (app w)"
  obtain w1 where 1: "SpawnAuxiliaryProcess k w = (Ret (), w1)"
      "spawn_auxiliary_loop [Suc k..<n] w1 = (Ret u, w')"
    using Suc.prems(1) k(2) by (auto simp: andThen_def elim!: bind_eq_RetE)
  obtain pid where p: "0 < pid" "auxiliary_pids (app w1) = auxiliary_pids (app w) @ [pid]"
      "auxiliary_processes (app w1) = ?ps[k := (?ps ! k)\<lparr>aux_pid := pid\<rparr>]"
      "worker_pids (app w1) = worker_pids (app w)" "nworkers (app w1) = nworkers (app w)"
      "map_option locked (shmem (app w1)) = map_option locked (shmem (app w))"
    using SpawnAuxiliaryProcess_Ret [OF 1(1)] k(1) Suc.prems(2) by blast
  have tk: "take (Suc k) (auxiliary_processes (app w1)) = take k ?ps @ [(?ps ! k)\<lparr>aux_pid := pid\<rparr>]"
    using p(3) k(1) Suc.prems(2) by (simp add: take_Suc_conv_app_nth)
  have "map aux_name (auxiliary_processes (app w1)) = map aux_name ?ps"
    using p(3) k(1) Suc.prems(2) by (auto intro!: nth_equalityI simp: nth_list_update)
  then show ?case
    using Suc.hyps(1) [OF _ 1(2)] Suc.hyps(2) Suc.prems p tk k(1) by simp
qed

lemma perl_or_exit_Ret: "perl_or_exit what m w = (Ret a, w') \<Longrightarrow> m w = (Ret a, w')"
  by (auto simp: perl_or_exit_def catch_def andThen_def throw_def halt_def elim!: bind_eq_RetE
      split: prod.splits outcome.splits exn.splits)

lemma unwinding_Ret: "unwinding i m w = (Ret a, w') \<Longrightarrow> m w = (Ret a, w')"
  by (auto simp: unwinding_def catch_def andThen_def throw_def elim!: bind_eq_RetE
      split: prod.splits outcome.splits exn.splits)

lemma LockAllocations_Ret:
  "on_shmem LockAllocations w = (Ret u, w') \<Longrightarrow> map_option locked (shmem (app w')) = Some True
     \<and> loading (app w) w'"
  using keeps_loading_shmem [of "app w" LockAllocations] loading_refl [of w]
  by (auto simp: on_shmem_def LockAllocations_def keeps_def split: option.splits prod.splits if_splits)

lemma child_name_known:
  assumes "auxiliary_pids a = map aux_pid (auxiliary_processes a)"
    and "p \<in> set (worker_pids a @ auxiliary_pids a)"
  shows "child_name a p \<noteq> None"
proof (cases "p \<in> set (worker_pids a)")
  case False
  with assms have "\<exists>x \<in> set (auxiliary_processes a). aux_pid x = p" by auto
  then have "find (\<lambda>x. aux_pid x = p) (auxiliary_processes a) \<noteq> None"
    by (auto simp: find_None_iff)
  with False assms(2) show ?thesis by (simp add: child_name_def)
qed (simp add: child_name_def)

text \<open>C12. The overseer knows its children. When spawning returns to the overseer there is a
  positive id for each worker, in the order of their numbers, and for each auxiliary process the
  application has requested; the ids by which dead auxiliary processes are looked up are those
  kept in the list of running ones, so every child can be named when it dies; allocations in the
  shared segment were locked before.\<close>

theorem spawning_keeps_books:
  assumes run: "SpawnWorkersAndAuxiliaryProcesses wrapper w = (Ret (), w')"
    and init: "worker_pids (app w) = []" "auxiliary_pids (app w) = []" "auxiliary_processes (app w) = []"
  shows "length (worker_pids (app w')) = nat (nworkers (app w))
    \<and> list_all (\<lambda>p. 0 < p) (worker_pids (app w'))
    \<and> auxiliary_pids (app w') = map aux_pid (auxiliary_processes (app w'))
    \<and> list_all (\<lambda>p. 0 < p) (auxiliary_pids (app w'))
    \<and> list_all (\<lambda>p. child_name (app w') p \<noteq> None) (worker_pids (app w') @ auxiliary_pids (app w'))
    \<and> map_option locked (shmem (app w')) = Some True"
proof -
  obtain i w1 sv1 w2 sv2 w3 w4 w5 w6 i' w7 where
      1: "InitializePerlInterpreter w = (Ret i, w1)"
    and 2: "LoadCallbackFromCString wrapper w1 = (Ret sv1, w2)"
    and 3: "CallAndReceiveCallback sv1 w2 = (Ret sv2, w3)"
    and 4: "on_shmem LockAllocations w3 = (Ret (), w4)"
    and 5: "spawn_auxiliary_loop [0..<length (auxiliary_processes (app w4))] w4 = (Ret (), w5)"
    and 6: "spawn_workers_loop i sv2 [0..<nat (nworkers (app w5))] w5 = (Ret (), w6)"
    and 7: "Interpreter_Destroy i w6 = (Ret i', w7)" "Interpreter_destructor i' w7 = (Ret (), w')"
    using run by (auto simp: SpawnWorkersAndAuxiliaryProcesses_def andThen_def gets_def
        elim!: bind_eq_RetE dest!: perl_or_exit_Ret unwinding_Ret)
  have "loading (app w) w3"
    using keepsD [OF keeps_loading_interpreter loading_refl 1]
      keepsD [OF keeps_loading_callbacks(1) _ 2] keepsD [OF keeps_loading_callbacks(2) _ 3] by blast
  with LockAllocations_Ret [OF 4] init have w4: "worker_pids (app w4) = []" "auxiliary_pids (app w4) = []"
      "nworkers (app w4) = nworkers (app w)" "map_option locked (shmem (app w4)) = Some True"
    by (auto simp: loading_def)
  have w5: "auxiliary_pids (app w5) = map aux_pid (auxiliary_processes (app w5))"
      "\<forall>p \<in> set (auxiliary_processes (app w5)). 0 < aux_pid p" "worker_pids (app w5) = []"
      "nworkers (app w5) = nworkers (app w)" "map_option locked (shmem (app w5)) = Some True"
    using spawn_auxiliary_loop_Ret [OF 5 refl] w4 by simp_all
  have "app w' = app w6"
    using 7 by (auto simp: Interpreter_Destroy_def bladepsgi_perl_interpreter_destroy_def Let_def
        Interpreter_destructor_def andThen_def emit_def modify_def ret_def halt_def
        elim!: bind_eq_RetE split: if_splits)
  with spawn_workers_loop_Ret [OF 6] w5 have w': "length (worker_pids (app w')) = nat (nworkers (app w))"
      "\<forall>p \<in> set (worker_pids (app w')). 0 < p"
      "auxiliary_pids (app w') = map aux_pid (auxiliary_processes (app w'))"
      "\<forall>p \<in> set (auxiliary_processes (app w')). 0 < aux_pid p"
      "map_option locked (shmem (app w')) = Some True"
    by auto
  with child_name_known [OF w'(3)] show ?thesis by (auto simp: list_all_iff)
qed

text \<open>A start with two workers and one requested auxiliary process.\<close>

definition perl_resp :: "int \<Rightarrow> int list \<Rightarrow> xs_op list \<Rightarrow> event" where
  "perl_resp n outs xs = Resp \<lparr>r_ret = n, r_errno = 0, r_outs = outs, r_text = [], r_xs = xs\<rparr>"

definition demo_spawn :: world where
  "demo_spawn =
     (let w = demo_world
        [perl_resp 1 [] [], perl_resp 0 [] [], perl_resp 0 [] [], perl_resp 0 [] [],
         perl_resp 0 [] [], perl_resp 0 [] [], perl_resp 0 [7, 1] [],
         perl_resp 0 [8, 1] [XS_request_auxiliary_process ''cron'' 5],
         ok_resp 21, ok_resp 11, ok_resp 12]
      in w\<lparr>app := (app w)\<lparr>shmem := Some (BPSGISharedMemory_new 4096)\<rparr>\<rparr>)"

lemmas perl_run_defs = InitializePerlInterpreter_def BPSGIPerlInterpreter_new_def
  bladepsgi_perl_interpreter_init_def eval_or_fail_def eval_or_croak_def perl_def perl_or_exit_def
  LoadCallbackFromCString_def bladepsgi_perl_callback_init_def CallAndReceiveCallback_def
  bladepsgi_perl_callback_call_and_receive_callback_def the_ctx_def cb_request_auxiliary_process_def
  RequestAuxiliaryProcess_def Interpreter_Destroy_def bladepsgi_perl_interpreter_destroy_def
  Interpreter_destructor_def

lemmas spawn_run_defs = SpawnWorkersAndAuxiliaryProcesses_def unwinding_def LockAllocations_def
  BPSGISharedMemory_new_def spawn_worker_def SpawnAuxiliaryProcess_def SetPID_def upt_conv_Cons

lemma demo_spawn_returns: "fst (SpawnWorkersAndAuxiliaryProcesses ''sub { }'' demo_spawn) = Ret ()"
  by (simp add: run_defs perl_run_defs spawn_run_defs demo_spawn_def demo_world_def demo_app_def
      perl_resp_def ok_resp_def)

theorem spawning_keeps_books_witness:
  "length (worker_pids (app (snd (SpawnWorkersAndAuxiliaryProcesses ''sub { }'' demo_spawn)))) = 2"
proof -
  have "SpawnWorkersAndAuxiliaryProcesses ''sub { }'' demo_spawn
      = (Ret (), snd (SpawnWorkersAndAuxiliaryProcesses ''sub { }'' demo_spawn))"
    using demo_spawn_returns by (metis prod.collapse)
  moreover have "worker_pids (app demo_spawn) = []" "auxiliary_pids (app demo_spawn) = []"
      "auxiliary_processes (app demo_spawn) = []" "nworkers (app demo_spawn) = 2"
    by (simp_all add: demo_spawn_def demo_world_def demo_app_def)
  ultimately show ?thesis
    using spawning_keeps_books [of "''sub { }''" demo_spawn] by simp
qed

end
