(* ===== verification/Bpsgi_Startup.thy ===== *)
theory Bpsgi_Startup
  imports Bpsgi_Children
begin

text \<open>
  Start-up: from \<^verbatim>\<open>BlockSignals\<close> to the message that start-up is complete. Any
  \<open>return_invariant\<close> is carried through everything the overseer does while signals are blocked,
  forks included, whose children do not come back. Its instance shows that no shutdown request gets lost meanwhile. The last sections are about the self-pipe
  and the listening sockets start-up creates.
\<close>

section \<open>Predicates through start-up\<close>

context return_invariant
begin

lemma boot_InitializeSelfPipe: "keeps_ret inv InitializeSelfPipe"
  unfolding InitializeSelfPipe_def set_non_blocking_def
  by (auto simp: bview_def intro!: keeps_ret_intros call returns_modify)

lemma boot_InitializeSharedMemory: "keeps_ret inv InitializeSharedMemory"
  unfolding InitializeSharedMemory_def
  by (auto simp: bview_def intro!: keeps_ret_intros call returns_modify)

lemma boot_InitializeUNIXSocket: "keeps_ret inv (InitializeUNIXSocket p n)"
  unfolding InitializeUNIXSocket_def Let_def by (auto intro!: keeps_ret_intros call)

lemma boot_sockets: "keeps_ret inv InitializeMainFastCGISocket" "keeps_ret inv InitializeStatsSocket"
  unfolding InitializeMainFastCGISocket_def InitializeStatsSocket_def
  by (intro keeps_ret_bind keeps_ret_pure boot_InitializeUNIXSocket returns_modify; simp add: bview_def)+

lemma boot_perl: "keeps_ret inv (perl c)"
  unfolding keeps_ret_def
  by (auto elim!: perl_Ret same_but_appE dest: keeps_retD [OF call] simp: bview_def intro: frame [rotated])

lemma boot_eval:
  "keeps_ret inv k \<Longrightarrow> keeps_ret inv (eval_or_fail code k)"
  "keeps_ret inv k \<Longrightarrow> keeps_ret inv (eval_or_croak code k)"
  unfolding eval_or_fail_def eval_or_croak_def
  by (auto intro!: keeps_ret_intros boot_perl returns_emit)

lemma boot_InitializePerlInterpreter: "keeps_ret inv InitializePerlInterpreter"
  unfolding InitializePerlInterpreter_def BPSGIPerlInterpreter_new_def
    bladepsgi_perl_interpreter_init_def
  by (auto simp: bview_def intro!: keeps_ret_intros call boot_eval returns_modify split: option.split)

lemma boot_callbacks:
  "keeps_ret inv (LoadCallbackFromCString code)" "keeps_ret inv (CallAndReceiveCallback sv)"
  unfolding LoadCallbackFromCString_def bladepsgi_perl_callback_init_def CallAndReceiveCallback_def
    bladepsgi_perl_callback_call_and_receive_callback_def
  by (auto intro!: keeps_ret_intros boot_perl returns_emit split: sum.split)

lemma boot_Interpreter:
  "keeps_ret inv (Interpreter_Destroy i)" "keeps_ret inv (Interpreter_destructor i)"
  unfolding Interpreter_Destroy_def bladepsgi_perl_interpreter_destroy_def Interpreter_destructor_def Let_def
  by (auto simp: bview_def intro!: keeps_ret_intros returns_emit returns_modify split: option.split)

lemma boot_scope:
  "keeps_ret inv m \<Longrightarrow> keeps_ret inv (unwinding i m)" "keeps_ret inv n \<Longrightarrow> keeps_ret inv (perl_or_exit s n)"
  unfolding keeps_ret_def by (blast dest: unwinding_Ret perl_or_exit_Ret)+

lemma boot_SetPID: "keeps_ret inv (SetPID k p)"
  unfolding SetPID_def by (auto simp: bview_def intro!: keeps_ret_intros returns_modify)

lemma boot_children: "keeps_ret inv (auxiliary_Run k)" "keeps_ret inv (RunWorker n i sv)"
  "keeps_ret inv RunMonitoringProcess"
  by (simp_all add: keeps_ret_never never_auxiliary_Run never_RunWorker never_RunMonitoringProcess)

lemma boot_SpawnAuxiliaryProcess: "keeps_ret inv (SpawnAuxiliaryProcess k)"
  unfolding SpawnAuxiliaryProcess_def Let_def
  by (auto simp: bview_def intro!: keeps_ret_intros call boot_SetPID boot_children returns_modify)

lemma boot_spawn_worker: "keeps_ret inv (spawn_worker i sv n)"
  unfolding spawn_worker_def Let_def
  by (auto simp: bview_def intro!: keeps_ret_intros call boot_children returns_modify)

lemma boot_spawn_loops:
  "keeps_ret inv (spawn_auxiliary_loop ks)" "keeps_ret inv (spawn_workers_loop i sv ns)"
  by (induction ks) (auto intro!: keeps_ret_andThen boot_SpawnAuxiliaryProcess,
      induction ns, auto intro!: keeps_ret_andThen boot_spawn_worker)

lemma boot_SpawnWorkersAndAuxiliaryProcesses: "keeps_ret inv (SpawnWorkersAndAuxiliaryProcesses t)"
  unfolding SpawnWorkersAndAuxiliaryProcesses_def
  by (intro keeps_ret_bind keeps_ret_andThen boot_scope boot_InitializePerlInterpreter boot_callbacks
      returns_shmem keeps_ret_pure boot_spawn_loops boot_Interpreter)

lemma boot_SpawnMonitoringProcess: "keeps_ret inv SpawnMonitoringProcess"
  unfolding SpawnMonitoringProcess_def Let_def
  by (auto simp: bview_def intro!: keeps_ret_intros call returns_emit returns_modify boot_children)

end

section \<open>No shutdown request gets lost\<close>

text \<open>The signal of a request, and its arrival in the script with \<open>post\<close> behind it.\<close>

definition request_signal :: "bool \<Rightarrow> int" where
  "request_signal fast = (if fast then SIGINT else SIGTERM)"

definition still_to_come :: "bool \<Rightarrow> event list \<Rightarrow> event list \<Rightarrow> bool" where
  "still_to_come fast post es \<longleftrightarrow> (\<exists>pre wr. es = pre @ Sig (request_signal fast) wr # post)"

lemma still_to_come_Cons:
  "still_to_come fast post (e # es) \<longleftrightarrow>
     (\<exists>wr. e = Sig (request_signal fast) wr) \<and> es = post \<or> still_to_come fast post es"
  unfolding still_to_come_def by (auto simp: Cons_eq_append_conv)

text \<open>While signals are blocked: the request is to come or pending.\<close>

definition blocked_request :: "bool \<Rightarrow> event list \<Rightarrow> int set \<Rightarrow> world \<Rightarrow> bool" where
  "blocked_request fast post m w \<longleftrightarrow> sigmask w = UNIV \<and> signal_mask_stack (app w) = [m]
     \<and> (request_signal fast \<in> fst ` set (sigpending w) \<or> still_to_come fast post (script w))"

lemma answer_blocked_request:
  assumes "answer c es w = (Ret r, w')" and "sigmask w = UNIV" and "signal_mask_stack (app w) = [m]"
    and "request_signal fast \<in> fst ` set (sigpending w) \<or> still_to_come fast post es"
  shows "blocked_request fast post m w'"
  using assms
proof (induction c es arbitrary: w rule: answer.induct)
  case (2 c q es)
  then show ?case by (auto simp: blocked_request_def still_to_come_Cons)
next
  case (3 c sig wr es)
  then obtain w1 where d: "deliver sig wr (w\<lparr>script := es\<rparr>) = (Ret (), w1)"
    and a: "answer c es w1 = (Ret r, w')"
    by (auto simp: andThen_def modify_def elim!: bind_eq_RetE)
  have "set (sigpending w) \<subseteq> set (sigpending w1)"
    and "sig = request_signal fast \<Longrightarrow> sig \<in> fst ` set (sigpending w1)"
    using d "3.prems"(2) by (auto simp: deliver_def request_signal_def signal_defs split: if_splits)
  with "3.prems"(4) have "request_signal fast \<in> fst ` set (sigpending w1) \<or> still_to_come fast post es"
    unfolding still_to_come_Cons event.inject by blast
  moreover have "sigmask w1 = UNIV" "signal_mask_stack (app w1) = [m]"
    using d "3.prems"(2,3) by (auto simp: deliver_def split: if_splits)
  ultimately show ?case by (intro "3.IH" [OF a])
next
  case (4 c x es)
  then show ?case
    by (intro "4.IH" [of "peer x (w\<lparr>script := es\<rparr>)"]) (auto simp: peer_def still_to_come_Cons)
qed simp

interpretation blocked: return_invariant "blocked_request fast post m" for fast post m
proof unfold_locales
  show "keeps_ret (blocked_request fast post m) (sys c)" for c
    unfolding keeps_ret_def sys_def
  proof (intro allI impI)
    fix w r w' assume "blocked_request fast post m w" and run: "answer c (script w) w = (Ret r, w')"
    then show "blocked_request fast post m w'"
      by (intro answer_blocked_request [OF run]) (auto simp: blocked_request_def)
  qed
qed (simp add: blocked_request_def bview_def)

text \<open>Once signals are handled again: the request is to come or noted.\<close>

definition handled_request :: "bool \<Rightarrow> event list \<Rightarrow> world \<Rightarrow> bool" where
  "handled_request fast post w \<longleftrightarrow> request_signal fast \<notin> sigmask w
     \<and> handlers w (request_signal fast) = Overseer_signal_handler
     \<and> (request_flag fast w \<or> still_to_come fast post (script w))"

lemma request_flag_raised: "flags_raised w w' \<Longrightarrow> request_flag fast w \<Longrightarrow> request_flag fast w'"
  by (auto simp: flags_raised_def request_flag_def split: if_splits)

lemma deliver_request:
  assumes "deliver (request_signal fast) wr w = (Ret u, w')" and "request_signal fast \<notin> sigmask w"
    and "handlers w (request_signal fast) = Overseer_signal_handler"
  shows "request_flag fast w'"
  using assms
  by (cases fast) (auto simp: deliver_def request_signal_def request_flag_def signal_defs
      overseer_signal_handler_def HandleParentSignal_def andThen_def modify_def gets_def emit_def ret_def
      halt_def elim!: bind_eq_RetE split: if_splits)

lemma deliver_all_Ret:
  assumes "deliver_all ps w = (Ret u, w')"
  shows "signal_ext w w' \<and> script w' = script w"
  using assms
proof (induction ps arbitrary: w)
  case (Cons p ps)
  then obtain w1 where 1: "deliver (fst p) (snd p) w = (Ret (), w1)" "deliver_all ps w1 = (Ret u, w')"
    by (cases p) (auto simp: andThen_def elim!: bind_eq_RetE)
  then show ?case
    using deliver_Ret [OF 1(1)] Cons.IH [OF 1(2)] signal_ext_trans by auto
qed (simp add: ret_def)

lemma deliver_all_request:
  assumes "deliver_all ps w = (Ret u, w')" and "request_signal fast \<in> fst ` set ps"
    and "request_signal fast \<notin> sigmask w" and "handlers w (request_signal fast) = Overseer_signal_handler"
  shows "request_flag fast w'"
  using assms
proof (induction ps arbitrary: w)
  case (Cons p ps)
  then obtain w1 where 1: "deliver (fst p) (snd p) w = (Ret (), w1)" "deliver_all ps w1 = (Ret u, w')"
    by (cases p) (auto simp: andThen_def elim!: bind_eq_RetE)
  have w1: "same_static w w1" using deliver_Ret [OF 1(1)] by (simp add: signal_ext_def)
  show ?case
  proof (cases "fst p = request_signal fast")
    case True
    then have "request_flag fast w1" using 1(1) Cons.prems(3,4) by (auto intro: deliver_request)
    then show ?thesis
      using deliver_all_Ret [OF 1(2)] by (auto simp: signal_ext_def intro: request_flag_raised)
  next
    case False
    with Cons.prems w1 show ?thesis
      by (intro Cons.IH [OF 1(2)]) (auto simp: same_static_def)
  qed
qed simp

lemma UnblockSignals_request:
  assumes "UnblockSignals w = (Ret u, w')" and "blocked_request fast post m w"
    and "request_signal fast \<notin> m" and "handlers w (request_signal fast) = Overseer_signal_handler"
  shows "handled_request fast post w'"
proof -
  let ?w1 = "w\<lparr>app := (app w)\<lparr>signal_mask_stack := []\<rparr>, trace := trace w @ [C_sigprocmask m],
    sigmask := m, sigpending := []\<rparr>"
  have d: "deliver_all (sigpending w) ?w1 = (Ret u, w')"
    using assms(1,2) by (simp add: UnblockSignals_def set_sigmask_def blocked_request_def andThen_def
        bind_def gets_def modify_def emit_def)
  have "same_static ?w1 w'" "script w' = script w"
    using deliver_all_Ret [OF d] by (auto simp: signal_ext_def)
  moreover have "request_signal fast \<in> fst ` set (sigpending w) \<Longrightarrow> request_flag fast w'"
    using deliver_all_request [OF d] assms(3,4) by simp
  ultimately show ?thesis
    using assms(2-4) by (auto simp: handled_request_def blocked_request_def same_static_def)
qed

lemma answer_handled_request:
  assumes "answer c es w = (Ret r, w')" and "request_signal fast \<notin> sigmask w"
    and "handlers w (request_signal fast) = Overseer_signal_handler"
    and "request_flag fast w \<or> still_to_come fast post es"
  shows "handled_request fast post w'"
  using assms
proof (induction c es arbitrary: w rule: answer.induct)
  case (2 c q es)
  then show ?case by (auto simp: handled_request_def still_to_come_Cons request_flag_def)
next
  case (3 c sig wr es)
  then obtain w1 where d: "deliver sig wr (w\<lparr>script := es\<rparr>) = (Ret (), w1)"
    and a: "answer c es w1 = (Ret r, w')"
    by (auto simp: andThen_def modify_def elim!: bind_eq_RetE)
  have st: "same_static w w1" "flags_raised w w1"
    using deliver_Ret [OF d] by (simp_all add: frame_defs)
  have "sig = request_signal fast \<Longrightarrow> request_flag fast w1"
    using d "3.prems"(2,3) by (auto intro: deliver_request)
  then show ?case
    using "3.prems"(2-4) st by (intro "3.IH" [OF a])
      (auto simp: same_static_def still_to_come_Cons intro: request_flag_raised)
next
  case (4 c x es)
  then show ?case
    by (intro "4.IH" [of "peer x (w\<lparr>script := es\<rparr>)"])
      (auto simp: peer_def still_to_come_Cons request_flag_def)
qed simp

lemma handled_request_sys: "keeps_ret (handled_request fast post) (sys c)"
  unfolding keeps_ret_def sys_def
proof (intro allI impI)
  fix w r w' assume "handled_request fast post w" and run: "answer c (script w) w = (Ret r, w')"
  then show "handled_request fast post w'"
    by (intro answer_handled_request [OF run]) (auto simp: handled_request_def)
qed

lemma handled_request_quiet:
  "keeps_ret (handled_request fast post) (emit c)" "keeps_ret (handled_request fast post) (memcpy_args a s)"
  by (simp_all add: keeps_ret_def emit_def modify_def memcpy_args_def handled_request_def request_flag_def)

lemma handled_request_settles:
  "keeps_ret (handled_request fast post) (Log s m)" "keeps_ret (handled_request fast post) (SetProcessTitle t)"
  unfolding Log_def SetProcessTitle_def Let_def
  by (auto intro!: keeps_ret_intros handled_request_sys handled_request_quiet
      split: prod.split)

lemma SetSignalHandler_Ret:
  "SetSignalHandler s h w = (Ret u, w') \<Longrightarrow> handlers w' = (handlers w)(s := h)"
  by (auto simp: SetSignalHandler_def modify_def throw_def same_static_def elim!: bind_eq_RetE dest!: sys_static
      split: if_splits)

text \<open>The three parts of start-up: with signals blocked, the handlers, and what follows
  after unblocking.\<close>

definition boot :: "string \<Rightarrow> (world, unit) prog" where
  "boot wrapper =
     andThen (Log LS_LOG ''BladePSGI starting up'') (andThen InitializeSelfPipe
     (andThen InitializeSharedMemory (andThen InitializeMainFastCGISocket
     (andThen InitializeStatsSocket (andThen (Log LS_LOG ''starting up worker processes'')
     (andThen (SpawnWorkersAndAuxiliaryProcesses wrapper) (andThen SpawnMonitoringProcess
       (SetSignalHandler SIGCHLD Overseer_signal_handler))))))))"

definition install_handlers :: "(world, unit) prog" where
  "install_handlers = andThen (SetSignalHandler SIGINT Overseer_signal_handler)
     (andThen (SetSignalHandler SIGTERM Overseer_signal_handler)
       (SetSignalHandler SIGQUIT Overseer_signal_handler))"

lemma andThen_assoc: "andThen (andThen a b) c = andThen a (andThen b c)"
  by (simp add: andThen_def bind_assoc)

lemma startup_parts: "startup wrapper = andThen BlockSignals (andThen (boot wrapper)
    (andThen install_handlers (andThen UnblockSignals (andThen (SetProcessTitle ''overseer'')
      (Log LS_LOG ''BladePSGI startup complete'')))))"
  by (simp add: startup_def boot_def install_handlers_def andThen_assoc)

lemma boot_blocked: "keeps_ret (blocked_request fast post m) (boot wrapper)"
  unfolding boot_def
  by (intro keeps_ret_andThen blocked.returns_Log blocked.boot_InitializeSelfPipe
      blocked.boot_InitializeSharedMemory blocked.boot_sockets
      blocked.boot_SpawnWorkersAndAuxiliaryProcesses blocked.boot_SpawnMonitoringProcess
      blocked.returns_SetSignalHandler)

lemma install_handlers_Ret:
  assumes "install_handlers w = (Ret u, w')" and "blocked_request fast post m w"
  shows "blocked_request fast post m w' \<and> handlers w' (request_signal fast) = Overseer_signal_handler"
proof -
  have "keeps_ret (blocked_request fast post m) install_handlers"
    unfolding install_handlers_def by (intro keeps_ret_andThen blocked.returns_SetSignalHandler)
  moreover have "handlers w' (request_signal fast) = Overseer_signal_handler"
    using assms(1) by (auto simp: install_handlers_def andThen_def request_signal_def signal_defs
        elim!: bind_eq_RetE dest!: SetSignalHandler_Ret)
  ultimately show ?thesis using assms by (auto dest: keeps_retD)
qed

lemma BlockSignals_request:
  assumes "BlockSignals w = (Ret u, w')" and "script w = Resp r # es" and "still_to_come fast post es"
    and "signal_mask_stack (app w) = []"
  shows "blocked_request fast post (sigmask w) w'"
  using assms
  by (auto simp: BlockSignals_def bind_def sys_def throw_def modify_def blocked_request_def split: if_splits)

text \<open>C3. Start-up loses no shutdown request. If SIGTERM or SIGINT arrives at any time after the
  overseer has blocked its signals, be it before the shared memory exists, between two forks or
  while the handlers are being installed, then start-up has not returned before the request is
  noted for the main loop, even though no handler was installed when the signal came; it is not
  the default action that is taken.\<close>

theorem startup_loses_no_request:
  assumes "startup wrapper w = (Ret u, w')"
    and "script w = Resp r # pre @ Sig (request_signal fast) wr # post"
    and "length (script w') \<le> length post"
    and "request_signal fast \<notin> sigmask w" and "signal_mask_stack (app w) = []"
  shows "request_flag fast w'"
proof -
  obtain w1 w2 w3 w4 w5 where run: "BlockSignals w = (Ret (), w1)" "boot wrapper w1 = (Ret (), w2)"
      "install_handlers w2 = (Ret (), w3)" "UnblockSignals w3 = (Ret (), w4)"
      "SetProcessTitle ''overseer'' w4 = (Ret (), w5)"
      "Log LS_LOG ''BladePSGI startup complete'' w5 = (Ret u, w')"
    using assms(1) unfolding startup_parts andThen_def by (auto elim!: bind_eq_RetE)
  have "still_to_come fast post (pre @ Sig (request_signal fast) wr # post)"
    by (auto simp: still_to_come_def)
  then have "blocked_request fast post (sigmask w) w2"
    using keeps_retD [OF boot_blocked _ run(2)] BlockSignals_request [OF run(1) assms(2)] assms(5) by blast
  then have "handled_request fast post w4"
    using install_handlers_Ret [OF run(3)] UnblockSignals_request [OF run(4)] assms(4) by blast
  then have "handled_request fast post w'"
    using keeps_retD [OF handled_request_settles(2) _ run(5)] keeps_retD [OF handled_request_settles(1) _ run(6)]
    by blast
  then show ?thesis
    using assms(3) by (auto simp: handled_request_def still_to_come_def)
qed

text \<open>A start with two workers during which SIGTERM arrives before the first fork.\<close>

definition demo_before :: "event list" where
  "demo_before =
     [ok_resp 0, perl_resp 0 [3, 4] [], ok_resp 0, ok_resp 0, ok_resp 0, ok_resp 0, ok_resp 1,
      ok_resp 5, fail_resp 2, ok_resp 0, ok_resp 0, ok_resp 6, fail_resp 2, ok_resp 0, ok_resp 0, ok_resp 0,
      ok_resp 1, ok_resp 0, ok_resp 0, ok_resp 0, ok_resp 0, ok_resp 0,
      perl_resp 0 [7, 1] [], perl_resp 0 [8, 1] []]"

definition demo_after :: "event list" where
  "demo_after = [ok_resp 11, ok_resp 12, ok_resp 13, ok_resp 0, ok_resp 0, ok_resp 0, ok_resp 0,
     ok_resp 0, ok_resp 0]"

definition demo_startup :: world where
  "demo_startup = demo_world (ok_resp 0 # demo_before @ Sig SIGTERM (1, 0) # demo_after)"

lemmas boot_run_defs = BlockSignals_def UnblockSignals_def set_sigmask_def SetSignalHandler_def Log_def
  InitializeSelfPipe_def set_non_blocking_def InitializeSharedMemory_def MAP_FAILED_def
  InitializeMainFastCGISocket_def InitializeStatsSocket_def InitializeUNIXSocket_def
  SpawnMonitoringProcess_def SetProcessTitle_def title_layout_def strlen_def c_str_def memcpy_args_def
  resize_def Let_def

lemma demo_startup_returns:
  "case startup ''sub { }'' demo_startup of (r, w') \<Rightarrow> r = Ret () \<and> script w' = []"
  by (simp add: startup_def run_defs signal_run_defs perl_run_defs spawn_run_defs boot_run_defs demo_clock
      demo_startup_def demo_before_def demo_after_def demo_world_def demo_app_def perl_resp_def ok_resp_def fail_resp_def)

theorem startup_loses_no_request_witness:
  "request_flag False (snd (startup ''sub { }'' demo_startup))"
proof -
  let ?w' = "snd (startup ''sub { }'' demo_startup)"
  have run: "startup ''sub { }'' demo_startup = (Ret (), ?w')"
    using demo_startup_returns by (auto split: prod.splits)
  have s: "signal_mask_stack (app demo_startup) = []" "request_signal False \<notin> sigmask demo_startup"
    by (simp_all add: demo_startup_def demo_world_def demo_app_def)
  have "script demo_startup = ok_resp 0 # demo_before @ Sig (request_signal False) (1, 0) # demo_after"
    by (simp add: demo_startup_def demo_world_def request_signal_def)
  then show ?thesis
    using demo_startup_returns
    by (intro startup_loses_no_request [OF run _ _ s(2,1)]) (auto simp: ok_resp_def split: prod.splits)
qed

section \<open>The targets of all signals\<close>

text \<open>C8. From the start of the program on, in the overseer as well as in every process it forks:
  whenever a signal is sent, its target is a positive process id that an earlier fork has
  returned to the overseer, and the signal is SIGQUIT or SIGTERM. So no signal ever goes to a
  process of somebody else, nor to process id 0, -1 or another negative number, which would reach
  whole process groups or every process of the user.\<close>

theorem Run_never_broadcasts:
  assumes "worker_pids (app w) = []" and "monitoring_process_pid (app w) = -1" and "trace w = []"
    and "trace (snd (Run wrapper w)) = before @ C_kill p s # behind"
  shows "0 < p \<and> C_forked p \<in> set before \<and> (s = SIGQUIT \<or> s = SIGTERM)"
proof -
  have "own_forks w" using assms(1-3) by (simp add: own_forks_def kills_follow_forks_def)
  then have "own_forks (snd (Run wrapper w))"
    by (rule keepsD [OF forked.keeps_Run _ prod.collapse [symmetric]])
  with assms(4) show ?thesis by (auto simp: own_forks_def kills_follow_forks_def)
qed

text \<open>The start with two workers, and the first pass of the main loop, which acts on the
  SIGTERM.\<close>

definition demo_run :: world where
  "demo_run = demo_world (ok_resp 0 # demo_before @ Sig SIGTERM (1, 0) # demo_after
     @ [fail_resp EINTR, ok_resp 0, ok_resp 0])"

lemma demo_run_kills:
  "filter is_kill (trace (snd (Run ''sub { }'' demo_run)))
     = [C_kill 11 SIGTERM, C_kill 12 SIGTERM, C_kill 13 SIGTERM]"
  by (simp add: Run_def startup_def run_defs signal_run_defs perl_run_defs spawn_run_defs boot_run_defs
      overseer_run_defs overseer_loop.simps demo_clock demo_run_def demo_before_def demo_after_def
      demo_world_def demo_app_def perl_resp_def ok_resp_def fail_resp_def)

theorem Run_never_broadcasts_witness:
  "\<exists>before behind. trace (snd (Run ''sub { }'' demo_run)) = before @ C_kill 13 SIGTERM # behind
     \<and> C_forked 13 \<in> set before"
proof -
  have "C_kill 13 SIGTERM \<in> set (filter is_kill (trace (snd (Run ''sub { }'' demo_run))))"
    by (simp add: demo_run_kills)
  then obtain before behind where
      t: "trace (snd (Run ''sub { }'' demo_run)) = before @ C_kill 13 SIGTERM # behind"
    by (auto simp: in_set_conv_decomp)
  have "C_forked 13 \<in> set before"
    using Run_never_broadcasts [OF _ _ _ t] by (simp add: demo_run_def demo_world_def demo_app_def)
  with t show ?thesis by blast
qed

section \<open>The self-pipe\<close>

text \<open>C34. Draining the self-pipe ends, and leaves it empty: however many wake-ups have been written
  and however often the read is interrupted, the loop reads on until the pipe has nothing more
  to give, and returns right then.\<close>

theorem DrainSelfPipe_ends:
  assumes "script w = map Resp rs @ Resp r # es"
    and "\<forall>q \<in> set rs. 0 < r_ret q \<or> r_ret q = -1 \<and> r_errno q = EINTR"
    and "r_ret r = -1" and "r_errno r = EAGAIN"
  shows "DrainSelfPipe w = (Ret (), w\<lparr>script := es,
     trace := trace w @ replicate (Suc (length rs)) (C_read (fst (overseer_self_pipe w)) 10)\<rparr>)"
  using assms(1,2)
proof (induction rs arbitrary: w)
  case Nil
  with assms(3,4) show ?case
    by (subst DrainSelfPipe.simps) (simp add: bind_def sys_def ret_def errno_defs)
next
  case (Cons q rs)
  let ?w1 = "w\<lparr>script := map Resp rs @ Resp r # es,
    trace := trace w @ [C_read (fst (overseer_self_pipe w)) 10]\<rparr>"
  have s: "sys (C_read (fst (overseer_self_pipe w)) 10) w = (Ret q, ?w1)"
    using Cons.prems(1) by (simp add: sys_def)
  have "DrainSelfPipe w = DrainSelfPipe ?w1"
    using Cons.prems(2) by (subst DrainSelfPipe.simps) (auto simp: bind_def s)
  also have "\<dots> = (Ret (), ?w1\<lparr>script := es,
      trace := trace ?w1 @ replicate (Suc (length rs)) (C_read (fst (overseer_self_pipe ?w1)) 10)\<rparr>)"
    using Cons.prems(2) by (intro Cons.IH) simp_all
  finally show ?case by (simp add: replicate_append_same)
qed

theorem DrainSelfPipe_ends_witness:
  "DrainSelfPipe (demo_overseer [ok_resp 10, fail_resp EINTR, ok_resp 3, fail_resp EAGAIN]) =
     (Ret (), (demo_overseer [])\<lparr>trace := replicate 4 (C_read 5 10)\<rparr>)"
proof -
  let ?r = "\<lambda>n e. \<lparr>r_ret = n, r_errno = e, r_outs = [], r_text = [], r_xs = []\<rparr>"
  let ?w = "demo_overseer [ok_resp 10, fail_resp EINTR, ok_resp 3, fail_resp EAGAIN]"
  have "script ?w = map Resp [?r 10 0, ?r (-1) EINTR, ?r 3 0] @ Resp (?r (-1) EAGAIN) # []"
    by (simp add: demo_overseer_def demo_world_def ok_resp_def fail_resp_def)
  from DrainSelfPipe_ends [OF this] show ?thesis
    by (simp add: demo_overseer_def demo_world_def numeral_eq_Suc)
qed

section \<open>Listening sockets\<close>

lemma sys_blocked_calls:
  assumes "sys c w = (Ret r, w')" and "sigmask w = UNIV" and "c \<noteq> C_fork"
  shows "trace w' = trace w @ [c] \<and> sigmask w' = UNIV"
  using sys_blocked [OF assms(1,2)] sys_static [OF assms(1)] assms(2,3) by (simp add: same_static_def)

text \<open>C33. What creating a listening socket does to the file system, with signals blocked as during
  start-up. If it succeeds the socket is bound to the path, cut to the 107 characters a socket
  address can hold, after at most one file of that name has been removed. A file that exists and
  is no socket is never removed: the program gives up with a message that names it.\<close>

theorem InitializeUNIXSocket_files:
  assumes "sigmask w = UNIV"
  shows "(InitializeUNIXSocket path n w = (Ret fd, w') \<longrightarrow>
      trace w' = trace w @ [C_socket, C_stat (take 107 path), C_bind fd (take 107 path), C_listen fd n]
      \<or> trace w' = trace w @ [C_socket, C_stat (take 107 path), C_unlink (take 107 path),
          C_bind fd (take 107 path), C_listen fd n])
    \<and> (script w = Resp s # Resp st # es \<and> r_ret s \<noteq> -1 \<and> r_ret st = 0 \<and> \<not> S_ISSOCK (out st 0) \<longrightarrow>
        InitializeUNIXSocket path n w =
          (Throw (RuntimeException_fmt (''file '' @ take 107 path @ '' already exists and is not a socket'')),
           w\<lparr>script := es, trace := trace w @ [C_socket, C_stat (take 107 path)]\<rparr>))"
proof (intro conjI impI)
  assume run: "InitializeUNIXSocket path n w = (Ret fd, w')"
  have p: "vsnprintf_buf sizeof_sun_path path = take 107 path"
    by (simp add: vsnprintf_buf_def sizeof_sun_path_def)
  show "trace w' = trace w @ [C_socket, C_stat (take 107 path), C_bind fd (take 107 path), C_listen fd n]
      \<or> trace w' = trace w @ [C_socket, C_stat (take 107 path), C_unlink (take 107 path),
          C_bind fd (take 107 path), C_listen fd n]"
    using run assms
    by (auto simp: InitializeUNIXSocket_def Let_def p andThen_def ret_def throw_def gets_def
        elim!: bind_eq_RetE dest!: sys_blocked_calls split: if_splits)
next
  assume "script w = Resp s # Resp st # es \<and> r_ret s \<noteq> -1 \<and> r_ret st = 0 \<and> \<not> S_ISSOCK (out st 0)"
  then show "InitializeUNIXSocket path n w =
          (Throw (RuntimeException_fmt (''file '' @ take 107 path @ '' already exists and is not a socket'')),
           w\<lparr>script := es, trace := trace w @ [C_socket, C_stat (take 107 path)]\<rparr>)"
    by (simp add: InitializeUNIXSocket_def Let_def sizeof_sun_path_def vsnprintf_buf_def andThen_def bind_def
        sys_def throw_def)
qed

definition demo_file :: world where
  "demo_file = (demo_world [ok_resp 5, perl_resp 0 [33188] []])\<lparr>sigmask := UNIV\<rparr>"

theorem InitializeUNIXSocket_files_witness:
  "InitializeUNIXSocket ''/etc/passwd'' 64 demo_file =
     (Throw (RuntimeException_fmt ''file /etc/passwd already exists and is not a socket''),
      demo_file\<lparr>script := [], trace := [C_socket, C_stat ''/etc/passwd'']\<rparr>)"
proof -
  let ?r = "\<lambda>n os. \<lparr>r_ret = n, r_errno = 0, r_outs = os, r_text = [], r_xs = []\<rparr>"
  have "sigmask demo_file = UNIV" "script demo_file = [Resp (?r 5 []), Resp (?r 0 [33188])]"
      "trace demo_file = []"
    by (simp_all add: demo_file_def demo_world_def ok_resp_def perl_resp_def)
  moreover have "\<not> S_ISSOCK (out (?r 0 [33188]) 0)"
    by (simp add: S_ISSOCK_def out_def)
  ultimately show ?thesis
    using InitializeUNIXSocket_files [where w = demo_file and path = "''/etc/passwd''" and n = 64
        and s = "?r 5 []" and st = "?r 0 [33188]" and es = "[]"] by simp
qed

end
