(* ===== verification/Bpsgi_Escapes.thy ===== *)
theory Bpsgi_Escapes
  imports Bpsgi_Children
begin

text \<open>
  Which exceptions leave which code. The program throws five kinds of exceptions;
  \<^verbatim>\<open>main\<close> has handlers for two of them, and some of the code below has handlers for the
  others. The locale \<open>known_exceptions\<close> carries a set of exceptions that contains failed
  system calls, runtime errors and logic errors through the code that throws only these;
  \<open>perl_exceptions\<close> adds the code that may also throw the errors of Perl code. The last section
  shows what can reach the handlers of \<^verbatim>\<open>main\<close>.
\<close>

section \<open>Calls and the shared segment\<close>

lemma throws_sys [simp]: "throws_only E (sys c)"
  by (simp add: throws_only_def)

lemma throws_emit [simp]: "throws_only E (emit c)"
  by (simp add: emit_def)

lemma throws_on_shmem: "throws_only E m \<Longrightarrow> throws_only E (on_shmem m)"
  unfolding throws_only_def by (auto simp: on_shmem_def split: option.splits prod.splits)

lemma throws_accesses [simp]:
  "throws_only E (load_int8 a)" "throws_only E (exchange_int8 a b)" "throws_only E (store_int8 a b)"
  "throws_only E (load_int64 a)" "throws_only E (store_int64 a v)" "throws_only E (fetch_add_int64 a v)"
  "throws_only E (memset_zero a n)"
  by (auto simp: throws_only_def access_defs split: if_splits)

lemma throws_flags [simp]:
  "throws_only E SetShouldExitImmediately" "throws_only E ShouldExitImmediately"
  "throws_only E IncreaseRequestCounter" "throws_only E (SetWorkerStatus n b)"
  unfolding SetShouldExitImmediately_def ShouldExitImmediately_def IncreaseRequestCounter_def
    SetWorkerStatus_def
  by (auto intro!: throws_only_intros)

lemma throws_GetAllWorkerStatuses [simp]: "throws_only E (GetAllWorkerStatuses n)"
proof -
  have "throws_only E (GetAllWorkerStatuses_loop a k)" for a k
    by (induction k arbitrary: a) (auto intro!: throws_only_intros)
  then show ?thesis by (simp add: GetAllWorkerStatuses_def)
qed

lemma throws_deliver [simp]: "throws_only E (deliver sig wr)"
  using deliver_not_Throw by (auto simp: throws_only_def)

lemma throws_deliver_all [simp]: "throws_only E (deliver_all ps)"
  by (induction ps rule: deliver_all.induct) (auto intro!: throws_only_intros)

lemma throws_KillProcessGroup [simp]: "throws_only E (KillProcessGroup sig)"
proof -
  have "throws_only E (emit_all cs)" for cs by (induction cs) (auto intro!: throws_only_intros)
  then show ?thesis unfolding KillProcessGroup_def by (auto intro!: throws_only_intros)
qed

lemma throws_the_ctx [simp]: "throws_only E the_ctx"
  unfolding the_ctx_def by (auto intro!: throws_only_intros split: option.split)

lemma throws_strerror [simp]: "throws_only E (SyscallException_strerror f e)"
  unfolding SyscallException_strerror_def by (auto intro!: throws_only_intros split: option.split)

lemma throws_app_SetShouldExitImmediately [simp]: "throws_only E app_SetShouldExitImmediately"
  unfolding app_SetShouldExitImmediately_def
  by (auto intro!: throws_only_intros throws_on_shmem split: option.split)

lemma throws_memcpy_args [simp]: "throws_only E (memcpy_args a s)"
  by (simp add: throws_only_def memcpy_args_def)

text \<open>Creating objects throws strings and failed system calls; the bridge turns both into
  error texts.\<close>

definition creation_exn :: "exn \<Rightarrow> bool" where
  "creation_exn e \<longleftrightarrow> (\<exists>m. e = StringExn m) \<or> (\<exists>x. e = SyscallExn x)"

lemma throws_creation:
  "throws_only creation_exn (NewSemaphore z i name v)" "throws_only (\<lambda>e. \<exists>m. e = StringExn m) (NewAtomicInt64 name v)"
proof -
  have "throws_only (\<lambda>e. \<exists>m. e = StringExn m) (AllocateUserShmem z)" for z
    by (auto simp: throws_only_def AllocateUserShmem_def Let_def split: if_splits)
  moreover from this have "throws_only creation_exn (AllocateUserShmem z)" for z
    unfolding throws_only_def creation_exn_def by blast
  ultimately show "throws_only creation_exn (NewSemaphore z i name v)"
      "throws_only (\<lambda>e. \<exists>m. e = StringExn m) (NewAtomicInt64 name v)"
    unfolding NewSemaphore_def NewAtomicInt64_def BPSGIAtomicInt64_new_def Let_def
    by (auto simp: creation_exn_def intro!: throws_only_intros)
qed

section \<open>Code without Perl\<close>

locale known_exceptions =
  fixes E :: "exn \<Rightarrow> bool"
  assumes syscall: "E (SyscallExn x)" and runtime: "E (RuntimeExn m)" and logic: "E (LogicError m)"
begin

lemma throws_Log: "throws_only E (Log s m)"
  unfolding Log_def by (auto intro!: throws_only_intros syscall logic)

lemma throws_SetSignalHandler: "throws_only E (SetSignalHandler s h)"
  unfolding SetSignalHandler_def by (auto intro!: throws_only_intros syscall)

lemma throws_signals: "throws_only E BlockSignals" "throws_only E UnblockSignals"
  unfolding BlockSignals_def UnblockSignals_def set_sigmask_def
  by (auto intro!: throws_only_intros syscall logic split: list.split)

lemma throws_SetProcessTitle: "throws_only E (SetProcessTitle t)"
  unfolding SetProcessTitle_def Let_def by (auto intro!: throws_only_intros syscall split: prod.split)

lemma throws_SubprocessInit: "throws_only E (SubprocessInit t fl)"
  unfolding SubprocessInit_def by (auto intro!: throws_only_intros throws_Log throws_SetProcessTitle)

lemma throws_semaphores:
  "throws_only E (Acquire is sem)" "throws_only E (TryAcquire is sem)" "throws_only E (Release sem)"
  "throws_only E (BPSGISemaphore_Read sem)"
proof -
  have w: "throws_only E (libc_sem_wait b p)" "throws_only E (libc_sem_trywait b p)"
      "throws_only E (libc_sem_post p)" "throws_only E (libc_sem_getvalue p)" for b p
    by (auto simp: throws_only_def libc_sem_defs split: option.splits if_splits)
  show "throws_only E (Acquire is sem)"
    by (induction "is" sem rule: Acquire.induct) (auto intro!: throws_only_intros w syscall)
  show "throws_only E (TryAcquire is sem)"
    by (induction "is" sem rule: TryAcquire.induct) (auto intro!: throws_only_intros w syscall)
  show "throws_only E (Release sem)" "throws_only E (BPSGISemaphore_Read sem)"
    unfolding Release_def BPSGISemaphore_Read_def by (auto intro!: throws_only_intros w syscall)
qed

lemma throws_sockets:
  "throws_only E InitializeSelfPipe" "throws_only E InitializeSharedMemory"
  "throws_only E (InitializeUNIXSocket p n)"
  unfolding InitializeSelfPipe_def set_non_blocking_def InitializeSharedMemory_def
    InitializeUNIXSocket_def Let_def RuntimeException_fmt_def
  by (auto intro!: throws_only_intros syscall runtime)

lemma throws_listening: "throws_only E InitializeMainFastCGISocket" "throws_only E InitializeStatsSocket"
  unfolding InitializeMainFastCGISocket_def InitializeStatsSocket_def
  by (auto intro!: throws_only_intros throws_sockets)

lemma throws_SetPID: "throws_only E (SetPID k p)"
  unfolding SetPID_def by (auto intro!: throws_only_intros logic)

lemma throws_statdata: "throws_only E (statdata t cs)"
proof -
  have "throws_only E (sem_lines xs)" "throws_only E (atomic_lines ys)" for xs ys
    by (induction xs) (auto intro!: throws_only_intros throws_semaphores,
        induction ys, auto simp: BPSGIAtomicInt64_Read_def intro!: throws_only_intros)
  then show ?thesis
    unfolding statdata_def ReadRequestCounter_def by (auto intro!: throws_only_intros)
qed

lemma throws_HandleClient: "throws_only E (HandleClient fd t cs)"
  unfolding HandleClient_def Let_def
  by (auto intro!: throws_only_intros throws_on_shmem throws_statdata syscall)

lemma throws_monitoring_iteration: "throws_only E (monitoring_iteration t)"
  unfolding monitoring_iteration_def RunnerDied_def
  by (auto intro!: throws_only_intros throws_on_shmem throws_Log throws_HandleClient syscall
      split: prod.split)

lemma throws_monitoring_loop: "throws_only E (monitoring_loop t)"
  by (rule throws_only_loop [OF monitoring_loop.simps throws_monitoring_iteration monitoring_iteration_shrinks])

lemma throws_monitoring_Run: "throws_only E monitoring_Run"
  unfolding monitoring_Run_def
  by (auto intro!: throws_only_intros throws_SubprocessInit throws_SetSignalHandler throws_signals
      throws_monitoring_loop)

lemma throws_RunMonitoringProcess: "throws_only E RunMonitoringProcess"
proof -
  have "throws_only E (catch monitoring_Run (\<lambda>e. case e of
          LogicError what \<Rightarrow>
            bind app_SetShouldExitImmediately (\<lambda>first.
            andThen (if first then Log LS_FATAL (''monitoring process crashed: '' @ what) else ret ())
            (andThen (KillProcessGroup SIGQUIT) (halt (Exited 1))))
        | _ \<Rightarrow> throw e))"
    by (rule throws_only_catch [OF throws_monitoring_Run])
      (auto intro!: throws_only_intros throws_Log split: exn.split)
  then show ?thesis unfolding RunMonitoringProcess_def by (auto intro!: throws_only_intros)
qed

lemma throws_SpawnMonitoringProcess: "throws_only E SpawnMonitoringProcess"
  unfolding SpawnMonitoringProcess_def Let_def
  by (auto intro!: throws_only_intros throws_RunMonitoringProcess syscall)

lemma throws_HandleChildProcessDeath: "throws_only E (HandleChildProcessDeath p s)"
  unfolding HandleChildProcessDeath_def HandleUnexpectedChildProcessDeath_def
  by (auto intro!: throws_only_intros throws_on_shmem throws_Log split: option.split prod.split)

lemma throws_wait_loop: "throws_only E wait_loop"
proof -
  have "wait_loop w = (Throw e, w') \<Longrightarrow> E e" for w e w'
  proof (induction w rule: wait_loop.induct)
    case (1 w)
    obtain q w1 where s: "sys C_waitpid w = (q, w1)" by fastforce
    have lg: "andThen (Log LS_LOG m) (halt (Exited 0)) w1 = (Throw e, w') \<Longrightarrow> E e" for m
      by (rule throws_onlyD [OF throws_only_andThen [OF throws_Log throws_only_pure(2)]])
    from "1.prems" s show ?case
      using "1.IH" lg throws_onlyD [OF throws_HandleChildProcessDeath, of _ _ w1] syscall
      by (subst (asm) wait_loop.simps)
        (auto simp: bind_def ret_def throw_def split: outcome.splits prod.splits if_splits)
  qed
  then show ?thesis by (auto simp: throws_only_def)
qed

lemma throws_DrainSelfPipe: "throws_only E DrainSelfPipe"
proof -
  have "DrainSelfPipe w = (Throw e, w') \<Longrightarrow> E e" for w e w'
  proof (induction w rule: DrainSelfPipe.induct)
    case (1 w)
    then show ?case
      using syscall by (subst (asm) DrainSelfPipe.simps)
        (auto simp: bind_def ret_def throw_def split: outcome.splits prod.splits if_splits)
  qed
  then show ?thesis by (auto simp: throws_only_def)
qed

lemma throws_overseer_iteration: "throws_only E overseer_iteration"
  unfolding overseer_iteration_def wait_select_def handle_shutdown_requests_def
  by (auto intro!: throws_only_intros throws_DrainSelfPipe throws_wait_loop throws_Log syscall)

lemma throws_overseer_loop: "throws_only E overseer_loop"
  by (rule throws_only_loop [OF overseer_loop.simps throws_overseer_iteration overseer_iteration_shrinks])

lemma throws_xs: "throws_only E (do_xs x)"
proof -
  have sem: "throws_only E (cb_new_semaphore name v i)" for name v i
    unfolding cb_new_semaphore_def
    by (auto intro!: throws_only_intros throws_only_catch [where F = creation_exn] throws_on_shmem
        throws_creation simp: creation_exn_def split: exn.split)
  have atm: "throws_only E (cb_new_atomic_int64 name v)" for name v
    unfolding cb_new_atomic_int64_def
    by (auto intro!: throws_only_intros throws_only_catch [where F = "\<lambda>e. \<exists>m. e = StringExn m"]
        throws_on_shmem throws_creation split: exn.split)
  show ?thesis
    by (cases x)
      (auto simp: cb_set_worker_status_def cb_request_auxiliary_process_def cb_sem_acquire_def
        cb_sem_tryacquire_def cb_sem_release_def cb_atomic_int64_fetch_add_def cb_atomic_int64_load_def
        cb_atomic_int64_store_def BPSGIWorker_SetWorkerStatus_def app_SetWorkerStatus_def
        cb_fastcgi_listen_sockfd_def cb_psgi_application_path_def cb_psgi_application_loader_def
        RequestAuxiliaryProcess_def
        intro!: throws_only_intros throws_on_shmem throws_semaphores sem atm split: option.split sum.split)
qed

lemma throws_perl: "throws_only E (perl c)"
proof -
  have "throws_only E (run_prog do_xs xs)" for xs
    by (induction xs) (auto intro!: throws_only_intros throws_xs)
  then show ?thesis unfolding perl_def by (auto intro!: throws_only_intros)
qed

lemma throws_Interpreter:
  "throws_only E (Interpreter_Destroy i)" "throws_only E (Interpreter_destructor i)"
  unfolding Interpreter_Destroy_def bladepsgi_perl_interpreter_destroy_def Interpreter_destructor_def Let_def
    andThen_def bind_assoc
  by (auto intro!: throws_only_intros)

lemma throws_unwinding: "throws_only E m \<Longrightarrow> throws_only E (unwinding i m)"
  unfolding unwinding_def
  by (rule throws_only_catch, assumption) (auto intro!: throws_only_intros throws_Interpreter split: exn.split)

end

section \<open>Code that runs Perl\<close>

locale perl_exceptions = known_exceptions +
  assumes perl_error: "E (PerlInterpreterExn m)"
begin

lemma throws_callbacks:
  "throws_only E (Callback_Call sv)" "throws_only E (LoadCallbackFromCString code)"
  "throws_only E (CallAndReceiveCallback sv)"
  unfolding Callback_Call_def bladepsgi_perl_callback_call_def LoadCallbackFromCString_def
    bladepsgi_perl_callback_init_def CallAndReceiveCallback_def
    bladepsgi_perl_callback_call_and_receive_callback_def PerlInterpreterException_fmt_def
  by (auto intro!: throws_only_intros throws_perl perl_error split: option.split sum.split)

lemma throws_InitializePerlInterpreter: "throws_only E InitializePerlInterpreter"
  unfolding InitializePerlInterpreter_def BPSGIPerlInterpreter_new_def PerlInterpreterException_fmt_def
    bladepsgi_perl_interpreter_init_def eval_or_fail_def eval_or_croak_def
  by (auto intro!: throws_only_intros throws_perl perl_error logic split: option.split)

lemma throws_worker_loop: "throws_only E (worker_loop n sv)"
proof (rule throws_only_loop [OF worker_loop.simps _ MainLoopIteration_shrinks])
  show "throws_only E (MainLoopIteration n sv)"
    unfolding MainLoopIteration_def app_ShouldExitImmediately_def BPSGIWorker_SetWorkerStatus_def
      app_SetWorkerStatus_def
    by (auto intro!: throws_only_intros throws_on_shmem throws_callbacks)
qed

end

section \<open>What reaches main\<close>

text \<open>The exceptions that leave \<^verbatim>\<open>Run\<close>, and those that leave calls of Perl code.\<close>

definition run_exn :: "exn \<Rightarrow> bool" where
  "run_exn e \<longleftrightarrow> (\<exists>x. e = SyscallExn x) \<or> (\<exists>m. e = RuntimeExn m) \<or> (\<exists>m. e = LogicError m)"

definition perl_exn :: "exn \<Rightarrow> bool" where
  "perl_exn e \<longleftrightarrow> run_exn e \<or> (\<exists>m. e = PerlInterpreterExn m)"

interpretation plain: known_exceptions run_exn
  by unfold_locales (simp_all add: run_exn_def)

interpretation perl: perl_exceptions perl_exn
  by unfold_locales (simp_all add: run_exn_def perl_exn_def)

lemma throws_worker_Run: "throws_only run_exn (worker_Run n sv)"
proof -
  have "throws_only run_exn (catch (worker_loop n sv) (\<lambda>e. case e of
      PerlInterpreterExn msg \<Rightarrow> andThen (Log LS_ERROR (''Perl exception: '' @ msg)) (halt (Exited 1))
    | _ \<Rightarrow> throw e))"
    by (rule throws_only_catch [OF perl.throws_worker_loop])
      (auto simp: perl_exn_def run_exn_def intro!: throws_only_intros plain.throws_Log split: exn.split)
  then show ?thesis
    unfolding worker_Run_def
    by (intro throws_only_andThen plain.throws_SubprocessInit plain.throws_SetSignalHandler plain.throws_signals)
qed

lemma throws_auxiliary_Run: "throws_only run_exn (auxiliary_Run k)"
proof -
  have "throws_only run_exn (catch (andThen (Callback_Call sv) (Log LS_ERROR text1)) (\<lambda>e. case e of
      PerlInterpreterExn msg \<Rightarrow> andThen (Log LS_ERROR (text2 @ msg)) (halt (Exited 1))
    | _ \<Rightarrow> throw e))" for sv text1 text2
    by (rule throws_only_catch [OF throws_only_andThen [OF perl.throws_callbacks(1) perl.throws_Log]])
      (auto simp: perl_exn_def run_exn_def intro!: throws_only_intros plain.throws_Log split: exn.split)
  then show ?thesis
    unfolding auxiliary_Run_def
    by (intro throws_only_bind throws_only_andThen throws_only_pure plain.throws_SubprocessInit
        plain.throws_SetSignalHandler plain.throws_signals)
qed

lemma throws_RunWorker: "throws_only run_exn (RunWorker n i sv)"
proof -
  have "throws_only run_exn (catch (worker_Run n sv) (\<lambda>e. case e of LogicError _ \<Rightarrow> halt Aborted | _ \<Rightarrow> throw e))"
    by (rule throws_only_catch [OF throws_worker_Run]) (auto split: exn.split)
  then show ?thesis
    unfolding RunWorker_def WorkerInitialize_def
    by (intro plain.throws_unwinding throws_only_andThen throws_only_bind throws_the_ctx) simp_all
qed

lemma throws_perl_or_exit: "throws_only perl_exn m \<Longrightarrow> throws_only run_exn (perl_or_exit what m)"
  unfolding perl_or_exit_def
  by (rule throws_only_catch, assumption)
    (auto simp: perl_exn_def run_exn_def intro!: throws_only_intros plain.throws_Log split: exn.split)

lemma throws_spawn_loops:
  "throws_only run_exn (spawn_auxiliary_loop ks)" "throws_only run_exn (spawn_workers_loop i sv ns)"
proof -
  have "throws_only run_exn (SpawnAuxiliaryProcess k)" for k
    unfolding SpawnAuxiliaryProcess_def Let_def
    by (auto intro!: throws_only_intros plain.throws_SetPID throws_auxiliary_Run plain.syscall)
  then show "throws_only run_exn (spawn_auxiliary_loop ks)"
    by (induction ks) (auto intro!: throws_only_andThen)
  have "throws_only run_exn (spawn_worker i sv n)" for n
    unfolding spawn_worker_def Let_def
    by (auto intro!: throws_only_intros throws_RunWorker plain.syscall)
  then show "throws_only run_exn (spawn_workers_loop i sv ns)"
    by (induction ns) (auto intro!: throws_only_andThen)
qed

lemma throws_LockAllocations: "throws_only run_exn LockAllocations"
  by (auto simp: throws_only_def LockAllocations_def run_exn_def split: if_splits)

lemma throws_SpawnWorkersAndAuxiliaryProcesses:
  "throws_only run_exn (SpawnWorkersAndAuxiliaryProcesses wrapper)"
  unfolding SpawnWorkersAndAuxiliaryProcesses_def
  by (intro throws_only_bind throws_only_andThen throws_perl_or_exit plain.throws_unwinding throws_on_shmem
      perl.throws_InitializePerlInterpreter perl.throws_callbacks throws_LockAllocations
      throws_only_pure throws_spawn_loops plain.throws_Interpreter)

lemma throws_Run: "throws_only run_exn (Run wrapper)"
  unfolding Run_def startup_def
  by (intro throws_only_andThen plain.throws_signals plain.throws_Log plain.throws_sockets
      plain.throws_listening throws_SpawnWorkersAndAuxiliaryProcesses plain.throws_SpawnMonitoringProcess
      plain.throws_SetSignalHandler plain.throws_SetProcessTitle plain.throws_overseer_loop)

end
