(* ===== verification/Bpsgi_CommandLine.thy ===== *)
theory Bpsgi_CommandLine
  imports Bpsgi_Escapes "HOL-Library.Multiset"
begin

text \<open>
  The command line and \<^verbatim>\<open>main\<close>: \<^verbatim>\<open>print_usage\<close>,
  \<^verbatim>\<open>main\<close> and the constructor of \<^verbatim>\<open>BPSGIMainApplication\<close> in
  \<^verbatim>\<open>src/bladepsgi.cpp\<close>, with the two functions of the C library that decide what
  is accepted, \<^verbatim>\<open>strtol\<close> and \<^verbatim>\<open>getopt_long\<close> (for the options of
  this program).
\<close>

section \<open>strtol\<close>

text \<open>Base 10: white space, a sign, digits; the value saturates at the limits of a 64-bit
  \<^verbatim>\<open>long\<close>. The second component is what \<^verbatim>\<open>endptr\<close> points to: the whole
  text if there is no digit.\<close>

definition isspace :: "char \<Rightarrow> bool" where
  "isspace c \<longleftrightarrow> c = CHR '' '' \<or> (9 \<le> (of_char c :: nat) \<and> (of_char c :: nat) \<le> 13)"

definition LONG_MAX :: int where
  "LONG_MAX = 9223372036854775807"

definition LONG_MIN :: int where
  "LONG_MIN = - 9223372036854775808"

definition strtol :: "string \<Rightarrow> int \<times> string" where
  "strtol nptr =
     (let s = dropWhile isspace nptr;
          neg = (s \<noteq> [] \<and> hd s = CHR ''-'');
          t = (if s \<noteq> [] \<and> (hd s = CHR ''-'' \<or> hd s = CHR ''+'') then tl s else s);
          ds = takeWhile is_digit t;
          v = int (nat_of_digits ds)
      in if ds = [] then (0, nptr)
         else (if neg then max LONG_MIN (- v) else min LONG_MAX v, dropWhile is_digit t))"

section \<open>getopt\_long\<close>

text \<open>
  What \<^verbatim>\<open>getopt_long\<close> returns, call by call, for the options of this program: the
  character and \<^verbatim>\<open>optarg\<close>. \<^verbatim>\<open>?\<close> stands for \<^verbatim>\<open>--help\<close> and
  for every error; the message getopt itself prints on standard error then is left out.
\<close>

type_synonym opt_event = "char \<times> string"

text \<open>The table \<^verbatim>\<open>long_options\<close>: name, whether an argument is required, and
  the value.\<close>

definition long_options :: "(string \<times> bool \<times> char) list" where
  "long_options = [(''help'', False, CHR ''?''), (''version'', False, CHR ''v''),
     (''loader'', True, CHR ''l''), (''proctitle-prefix'', True, CHR ''p'')]"

text \<open>A long option may be abbreviated as long as only one name fits; an exact name
  always does.\<close>

definition is_prefix :: "string \<Rightarrow> string \<Rightarrow> bool" where
  "is_prefix s t \<longleftrightarrow> take (length s) t = s"

definition find_long :: "string \<Rightarrow> (bool \<times> char) option" where
  "find_long name =
     (case map_of long_options name of
        Some x \<Rightarrow> Some x
      | None \<Rightarrow> (case filter (\<lambda>(n, x). is_prefix name n) long_options of
                   [(n, x)] \<Rightarrow> Some x
                 | _ \<Rightarrow> None))"

text \<open>One long option; \<open>rest\<close> are the following arguments. The result is the event and
  how many of them it takes.\<close>

definition long_option :: "string \<Rightarrow> string list \<Rightarrow> opt_event \<times> nat" where
  "long_option body rest =
     (let name = takeWhile (\<lambda>c. c \<noteq> CHR ''='') body;
          has_eq = (CHR ''='' \<in> set body);
          arg = drop (length name + 1) body
      in case find_long name of
           None \<Rightarrow> ((CHR ''?'', []), 0)
         | Some (False, c) \<Rightarrow> ((if has_eq then CHR ''?'' else c, []), 0)
         | Some (True, c) \<Rightarrow>
             if has_eq then ((c, arg), 0)
             else (case rest of [] \<Rightarrow> ((CHR ''?'', []), 0) | a # _ \<Rightarrow> ((c, a), 1)))"

text \<open>A cluster of short options.\<close>

fun short_options :: "string \<Rightarrow> string list \<Rightarrow> opt_event list \<times> nat" where
  "short_options [] rest = ([], 0)"
| "short_options (c # cs) rest =
     (if c = CHR ''l'' \<or> c = CHR ''p'' then
        (if cs \<noteq> [] then ([(c, cs)], 0)
         else case rest of [] \<Rightarrow> ([(CHR ''?'', [])], 0) | a # _ \<Rightarrow> ([(c, a)], 1))
      else
        (let (es, n) = short_options cs rest
         in ((if c = CHR ''h'' \<or> c = CHR ''v'' then c else CHR ''?'', []) # es, n)))"

text \<open>
  All calls: the events, and the arguments as \<^verbatim>\<open>getopt_long\<close> permutes them: first
  those that belong to options, then the others, both in their order. With
  \<open>posixly_correct\<close>, which stands for the environment variable \<^verbatim>\<open>POSIXLY_CORRECT\<close>
  being set, the options end at the first argument that is none. \<open>str\<close> gives the text of an
  argument.
\<close>

function getopt_scan ::
  "bool \<Rightarrow> ('a \<Rightarrow> string) \<Rightarrow> 'a list \<Rightarrow> opt_event list \<times> 'a list \<times> 'a list" where
  "getopt_scan posixly_correct str [] = ([], [], [])"
| "getopt_scan posixly_correct str (a # as) =
     (if str a = ''--'' then ([], [a], as)
      else if take 2 (str a) = ''--'' then
        (let (e, n) = long_option (drop 2 (str a)) (map str as);
             (es, os, ns) = getopt_scan posixly_correct str (drop n as)
         in (e # es, a # take n as @ os, ns))
      else if take 1 (str a) = ''-'' \<and> str a \<noteq> ''-'' then
        (let (e, n) = short_options (drop 1 (str a)) (map str as);
             (es, os, ns) = getopt_scan posixly_correct str (drop n as)
         in (e @ es, a # take n as @ os, ns))
      else if posixly_correct then ([], [], a # as)
      else
        (let (es, os, ns) = getopt_scan posixly_correct str as in (es, os, a # ns)))"
  by pat_completeness auto
termination
  by (relation "measure (\<lambda>(pc, str, as). length as)") auto

section \<open>The decision\<close>

text \<open>What the command line asks for: an early exit with what is printed to standard output
  and standard error, or a start.\<close>

record 'a config =
  c_loader :: "string option"
  c_prefix :: string
  c_path :: string
  c_nworkers :: int
  c_fastcgi :: string
  c_stats :: string
  c_argv :: "'a list"

datatype 'a decision = Leave int string string | Start "'a config"

definition line :: "string \<Rightarrow> string" where
  "line s = s @ [CHR 0x0A]"

definition usage_text :: "string \<Rightarrow> string" where
  "usage_text argv0 =
     line (argv0 @ '' exposes a PSGI application over FastCGI using a process-based architecture'')
     @ line ''''
     @ line ''Usage:''
     @ line (''  '' @ argv0 @ '' [OPTION]... APPLICATION_PATH NUM_WORKERS FASTCGI_SOCKET_PATH STATS_SOCKET_PATH'')
     @ line ''''
     @ line ''Arguments:''
     @ line ''  APPLICATION_PATH             filesystem path to the PSGI application''
     @ line ''  NUM_WORKERS                  the number of workers processes to spawn''
     @ line ''  FASTCGI_SOCKET_PATH          the file system path at which to create the FastCGI socket''
     @ line ''  STATS_SOCKET_PATH            the file system path at which to create the statistics socket''
     @ line ''''
     @ line ''Options''
     @ line ''  --loader=LOADER              uses the Perl module LOADER as a loader''
     @ line ''  --proctitle-prefix=PREFIX    sets the prefix used for process titles''
     @ line ''  --help                       displays this help and exits''
     @ line ''''"

text \<open>The \<^verbatim>\<open>while\<close> loop over the options.\<close>

fun option_loop ::
  "string \<Rightarrow> opt_event list \<Rightarrow> string option \<times> string \<Rightarrow> 'a decision + (string option \<times> string)" where
  "option_loop argv0 [] opts = Inr opts"
| "option_loop argv0 ((c, optarg) # es) (loader, pfx) =
     (if c = CHR ''?'' then Inl (Leave 0 (usage_text argv0) '''')
      else if c = CHR ''l'' then option_loop argv0 es (Some optarg, pfx)
      else if c = CHR ''p'' then option_loop argv0 es (loader, optarg)
      else Inl (Leave 1 '''' (line (''Try '' @ [CHR 0x22] @ argv0 @ '' --help'' @ [CHR 0x22]
                  @ '' for more information.''))))"

text \<open>What follows the loop: four arguments have to be left, the second one a number.\<close>

definition check_arguments ::
  "('a \<Rightarrow> string) \<Rightarrow> 'a \<Rightarrow> string option \<times> string \<Rightarrow> 'a list \<Rightarrow> 'a list \<Rightarrow> 'a decision" where
  "check_arguments str arg0 opts optargs nonopts =
     (if length nonopts \<noteq> 4 then Leave 1 '''' (usage_text (str arg0))
      else
        let nworkers_str = str (nonopts ! 1);
            (nworkers, endptr) = strtol nworkers_str
        in if endptr \<noteq> [] then
             Leave 1 '''' (line (line (''NUM_WORKERS value '' @ [CHR 0x22] @ nworkers_str
               @ [CHR 0x22] @ '' is not a valid integer'')) @ usage_text (str arg0))
           else if nworkers \<le> 0 \<or> 65536 < nworkers then
             Leave 1 '''' (line ''the number of workers must be between 1 and 65536'')
           else
             Start \<lparr>c_loader = fst opts, c_prefix = snd opts, c_path = str (nonopts ! 0),
               c_nworkers = nworkers, c_fastcgi = str (nonopts ! 2),
               c_stats = str (nonopts ! 3), c_argv = arg0 # optargs @ nonopts\<rparr>)"

definition command_line :: "bool \<Rightarrow> ('a \<Rightarrow> string) \<Rightarrow> 'a list \<Rightarrow> 'a decision" where
  "command_line posixly_correct str argvec =
     (let argv0 = str (hd argvec); args = tl argvec in
      if args \<noteq> [] \<and> str (hd args) \<in> {''--help'', ''-?'', ''-h''} then
        Leave 0 (usage_text argv0) ''''
      else if args \<noteq> [] \<and> str (hd args) \<in> {''-v'', ''--version''} then
        Leave 0 (line ''bladepsgi version 1.0'') ''''
      else
        let (events, optargs, nonopts) = getopt_scan posixly_correct str args in
        case option_loop argv0 events (None, ''Blade'') of
          Inl d \<Rightarrow> d
        | Inr opts \<Rightarrow> check_arguments str (hd argvec) opts optargs nonopts)"

section \<open>main\<close>

text \<open>The constructor.\<close>

definition BPSGIMainApplication_new :: "nat config \<Rightarrow> (world, unit) prog" where
  "BPSGIMainApplication_new c =
     bind (sys C_getpid) (\<lambda>r. modify (\<lambda>w. w\<lparr>app :=
       \<lparr>signal_mask_stack = [], argv = c_argv c, psgi_application_path = c_path c,
        nworkers = c_nworkers c, application_loader = c_loader c,
        fastcgi_socket_path = c_fastcgi c, stats_socket_path = c_stats c,
        process_title_prefix = c_prefix c, runner_pid = r_ret r, monitoring_process_pid = -1,
        worker_pids = [], auxiliary_pids = [], auxiliary_processes = [], shmem = None,
        fastcgi_sockfd = -1, stats_sockfd = -1\<rparr>\<rparr>))"

text \<open>Text to a stream is one write, if there is any.\<close>

definition print :: "int \<Rightarrow> string \<Rightarrow> (world, unit) prog" where
  "print fd s = (if s = [] then ret () else emit (C_write fd s))"

text \<open>The handlers of \<^verbatim>\<open>main\<close>. Other exceptions pass, and so does one that a handler
  throws. An exception that leaves \<^verbatim>\<open>main\<close> has no handler left: the C++ run-time calls
  \<^verbatim>\<open>std::terminate\<close>, which aborts the process.\<close>

definition main_handler :: "exn \<Rightarrow> (world, unit) prog" where
  "main_handler e =
     (case e of
        SyscallExn ex \<Rightarrow>
          bind app_SetShouldExitImmediately (\<lambda>first.
          if first then
            bind (gets libc_strerror) (\<lambda>strerror.
            bind (SyscallException_strerror strerror ex) (\<lambda>t.
            Log LS_FATAL (''system call '' @ syscall_name ex @ '' failed: '' @ t)))
          else ret ())
      | RuntimeExn error \<Rightarrow>
          bind app_SetShouldExitImmediately (\<lambda>first.
          if first then Log LS_FATAL error else ret ())
      | _ \<Rightarrow> throw e)"

definition run_application :: "string \<Rightarrow> (world, unit) prog" where
  "run_application wrapper =
     andThen (catch (bind (Run wrapper) (\<lambda>_. ret ())) main_handler)
     (andThen (KillProcessGroup SIGQUIT) (halt (Exited 1)))"

text \<open>\<open>args\<close> are the addresses of the arguments in the memory of the process.\<close>

definition main :: "bool \<Rightarrow> string \<Rightarrow> nat list \<Rightarrow> (world, unit) prog" where
  "main posixly_correct wrapper args =
     bind (gets args_mem) (\<lambda>m.
     case command_line posixly_correct (\<lambda>a. c_str (drop a m)) args of
       Leave code out_text err_text \<Rightarrow>
         andThen (print 1 out_text) (andThen (print 2 err_text) (halt (Exited code)))
     | Start c \<Rightarrow> andThen (BPSGIMainApplication_new c) (run_application wrapper))"

section \<open>What strtol accepts\<close>

lemma is_digit_not_special: "is_digit c \<Longrightarrow> \<not> isspace c \<and> c \<noteq> CHR ''-'' \<and> c \<noteq> CHR ''+''"
  by (auto simp: is_digit_def isspace_def)

lemma strtol_digits:
  assumes "list_all is_digit ds" and "ds \<noteq> []"
  shows "strtol ds = (min LONG_MAX (int (nat_of_digits ds)), [])"
    and "strtol (CHR ''-'' # ds) = (max LONG_MIN (- int (nat_of_digits ds)), [])"
proof -
  from assms obtain d es where d: "ds = d # es" "is_digit d" by (cases ds) auto
  have tw: "takeWhile is_digit ds = ds" "dropWhile is_digit ds = []"
    using assms(1) by (simp_all add: list_all_iff)
  show "strtol ds = (min LONG_MAX (int (nat_of_digits ds)), [])"
    using d is_digit_not_special [OF d(2)] tw by (simp add: strtol_def Let_def takeWhile_eq_all_conv [THEN iffD2])
  have "\<not> isspace CHR ''-''" by (simp add: isspace_def)
  then show "strtol (CHR ''-'' # ds) = (max LONG_MIN (- int (nat_of_digits ds)), [])"
    using d tw by (simp add: strtol_def Let_def takeWhile_eq_all_conv [THEN iffD2])
qed

lemma strtol_string_of_int:
  assumes "LONG_MIN \<le> i" and "i \<le> LONG_MAX"
  shows "strtol (string_of_int i) = (i, [])"
  using assms strtol_digits [OF string_of_nat_digits string_of_nat_nonempty]
  by (auto simp: string_of_int_def)

section \<open>What a start guarantees\<close>

lemma getopt_scan_permutes:
  "getopt_scan posix str as = (es, os, ns) \<Longrightarrow> mset (os @ ns) = mset as"
proof (induction posix str as arbitrary: es os ns rule: getopt_scan.induct)
  case (2 posix str a as)
  have td: "mset x + mset y = mset (drop n as) \<Longrightarrow> mset (take n as) + mset x + mset y = mset as" for x y n
    by (metis append_take_drop_id mset_append union_assoc)
  from 2 show ?case
    by (auto simp: Let_def intro!: td split: if_splits prod.splits)
qed simp

lemma option_loop_no_start: "option_loop argv0 es opts \<noteq> Inl (Start c)"
  by (induction argv0 es opts rule: option_loop.induct) auto

lemma command_line_started:
  assumes "command_line posix str argvec = Start c" and "argvec \<noteq> []"
  shows "1 \<le> c_nworkers c \<and> c_nworkers c \<le> 65536 \<and> c_nworkers c < 2 ^ 31
    \<and> mset (c_argv c) = mset argvec \<and> hd (c_argv c) = hd argvec
    \<and> (\<exists>opts path num fastcgi stats. c_argv c = hd argvec # opts @ [path, num, fastcgi, stats]
         \<and> strtol (str num) = (c_nworkers c, []) \<and> c_path c = str path
         \<and> c_fastcgi c = str fastcgi \<and> c_stats c = str stats)"
proof -
  obtain es os ns where scan: "getopt_scan posix str (tl argvec) = (es, os, ns)" by (metis prod_cases3)
  obtain opts where chk: "check_arguments str (hd argvec) opts os ns = Start c"
    using assms(1) scan
    by (auto simp: command_line_def Let_def option_loop_no_start split: if_splits sum.splits)
  then have four: "length ns = 4" and num: "strtol (str (ns ! 1)) = (c_nworkers c, [])"
      "0 < c_nworkers c" "c_nworkers c \<le> 65536"
    and c: "c_path c = str (ns ! 0)" "c_fastcgi c = str (ns ! 2)" "c_stats c = str (ns ! 3)"
      "c_argv c = hd argvec # os @ ns"
    by (auto simp: check_arguments_def Let_def split: if_splits prod.splits)
  obtain a b x y where ns: "ns = [a, b, x, y]"
    using four by (auto simp: numeral_eq_Suc length_Suc_conv)
  have "mset (hd argvec # os @ ns) = mset argvec"
    using getopt_scan_permutes [OF scan] assms(2) by (cases argvec) simp_all
  then show ?thesis using c num ns by auto
qed

text \<open>C23. What the program relies on when it starts: the number of workers is from 1 to 65536
  (so that it also fits the int it is stored in), it is exactly the value of the second of four
  arguments, and the arguments kept for process titles are those the program was started with,
  in another order but with the program's name still first. This holds whether or not
  POSIXLY_CORRECT is set.\<close>

theorem command_line_start:
  assumes "command_line posix str argvec = Start c" and "argvec \<noteq> []"
  shows "1 \<le> c_nworkers c \<and> c_nworkers c \<le> 65536 \<and> c_nworkers c < 2 ^ 31
    \<and> mset (c_argv c) = mset argvec \<and> hd (c_argv c) = hd argvec
    \<and> (\<exists>opts path num fastcgi stats. c_argv c = hd argvec # opts @ [path, num, fastcgi, stats]
         \<and> strtol (str num) = (c_nworkers c, []) \<and> c_path c = str path
         \<and> c_fastcgi c = str fastcgi \<and> c_stats c = str stats)"
  using assms by (rule command_line_started)

theorem command_line_start_witness:
  "command_line False id [''bladepsgi'', ''app.psgi'', ''-l'', ''L'', ''8'', ''f.sock'', ''s.sock''] =
     Start \<lparr>c_loader = Some ''L'', c_prefix = ''Blade'', c_path = ''app.psgi'', c_nworkers = 8,
       c_fastcgi = ''f.sock'', c_stats = ''s.sock'',
       c_argv = [''bladepsgi'', ''-l'', ''L'', ''app.psgi'', ''8'', ''f.sock'', ''s.sock'']\<rparr>
   \<and> strtol ''8'' = (8, [])"
proof -
  have run: "command_line False id [''bladepsgi'', ''app.psgi'', ''-l'', ''L'', ''8'', ''f.sock'', ''s.sock''] =
     Start \<lparr>c_loader = Some ''L'', c_prefix = ''Blade'', c_path = ''app.psgi'', c_nworkers = 8,
       c_fastcgi = ''f.sock'', c_stats = ''s.sock'',
       c_argv = [''bladepsgi'', ''-l'', ''L'', ''app.psgi'', ''8'', ''f.sock'', ''s.sock'']\<rparr>"
    by code_simp
  from command_line_start [OF this] run show ?thesis by auto
qed

section \<open>Command lines are read as they are written\<close>

text \<open>The ways to write an argument or an option on the command line.\<close>

datatype item =
    Positional string
  | LoaderEq string
  | LoaderWord string
  | LoaderShort string
  | PrefixEq string
  | PrefixWord string
  | PrefixShort string

fun words :: "item \<Rightarrow> string list" where
  "words (Positional s) = [s]"
| "words (LoaderEq s) = [''--loader='' @ s]"
| "words (LoaderWord s) = [''--loader'', s]"
| "words (LoaderShort s) = [''-l'', s]"
| "words (PrefixEq s) = [''--proctitle-prefix='' @ s]"
| "words (PrefixWord s) = [''--proctitle-prefix'', s]"
| "words (PrefixShort s) = [''-p'', s]"

text \<open>An argument must not look like an option.\<close>

fun item_ok :: "item \<Rightarrow> bool" where
  "item_ok (Positional s) \<longleftrightarrow> take 1 s \<noteq> ''-'' \<or> s = ''-''"
| "item_ok _ \<longleftrightarrow> True"

fun positional :: "item \<Rightarrow> string option" where
  "positional (Positional s) = Some s"
| "positional _ = None"

fun chosen_loader :: "item list \<Rightarrow> string option \<Rightarrow> string option" where
  "chosen_loader [] d = d"
| "chosen_loader (LoaderEq s # is) d = chosen_loader is (Some s)"
| "chosen_loader (LoaderWord s # is) d = chosen_loader is (Some s)"
| "chosen_loader (LoaderShort s # is) d = chosen_loader is (Some s)"
| "chosen_loader (_ # is) d = chosen_loader is d"

fun chosen_prefix :: "item list \<Rightarrow> string \<Rightarrow> string" where
  "chosen_prefix [] d = d"
| "chosen_prefix (PrefixEq s # is) d = chosen_prefix is s"
| "chosen_prefix (PrefixWord s # is) d = chosen_prefix is s"
| "chosen_prefix (PrefixShort s # is) d = chosen_prefix is s"
| "chosen_prefix (_ # is) d = chosen_prefix is d"

lemmas long_option_defs = long_option_def find_long_def long_options_def Let_def

lemma scan_positional:
  "item_ok (Positional s) \<Longrightarrow> getopt_scan False (\<lambda>s. s) (s # as) =
     (case getopt_scan False (\<lambda>s. s) as of (es, os, ns) \<Rightarrow> (es, os, s # ns))"
  by (cases s) (auto simp: Let_def)

lemma scan_words:
  assumes "list_all item_ok is"
  shows "\<exists>es os. getopt_scan False (\<lambda>s. s) (concat (map words is)) = (es, os, List.map_filter positional is)
    \<and> (\<forall>l p. option_loop argv0 es (l, p) =
          (Inr (chosen_loader is l, chosen_prefix is p) :: string decision + _))"
  using assms
proof (induction "is")
  case Nil
  then show ?case by (simp add: List.map_filter_def)
next
  case (Cons i "is")
  then have "list_all item_ok is" by simp
  from Cons.IH [OF this] obtain es os where
      "getopt_scan False (\<lambda>s. s) (concat (map words is)) = (es, os, List.map_filter positional is)"
      "\<forall>l p. option_loop argv0 es (l, p) =
         (Inr (chosen_loader is l, chosen_prefix is p) :: string decision + _)"
    by blast
  note ih = this
  show ?case
  proof (cases "positional i")
    case None
    with ih Cons.prems show ?thesis
      by (cases i) (auto simp: long_option_defs List.map_filter_simps)
  next
    case (Some s)
    with ih Cons.prems show ?thesis
      by (cases i) (simp_all add: scan_positional List.map_filter_simps del: getopt_scan.simps)
  qed
qed

lemma first_word:
  assumes "list_all item_ok is" and "args = concat (map words is)" and "args \<noteq> []"
  shows "hd args \<notin> {''--help'', ''-?'', ''-h''} \<and> hd args \<notin> {''-v'', ''--version''}"
proof (cases "is")
  case (Cons i is')
  with assms show ?thesis by (cases i) auto
qed (use assms in simp)

lemma command_line_options:
  fixes str :: "'a \<Rightarrow> string"
  assumes "getopt_scan posix str args = (es, os, ns)"
    and "option_loop (str a) es (None, ''Blade'') = (Inr opts :: 'a decision + _)"
    and "args \<noteq> [] \<Longrightarrow> str (hd args) \<notin> {''--help'', ''-?'', ''-h''}
      \<and> str (hd args) \<notin> {''-v'', ''--version''}"
  shows "command_line posix str (a # args) = check_arguments str a opts os ns"
  using assms by (auto simp: command_line_def Let_def)

text \<open>C22. A command line is understood as it is written. Write the four arguments, the number
  of workers in decimal, and any number of loader and prefix options, each in any of the forms
  getopt offers, in any order and anywhere between the arguments: the program starts with
  exactly these values, the last loader and the last prefix if there are several, no loader and
  the prefix Blade if there is none. Arguments must not begin with a hyphen, and POSIXLY_CORRECT
  must not be set, which forbids options behind the first argument.\<close>

theorem command_line_roundtrip:
  assumes "list_all item_ok is"
    and "List.map_filter positional is = [path, string_of_int n, fastcgi, stats]"
    and "1 \<le> n" and "n \<le> 65536"
  shows "\<exists>os. command_line False (\<lambda>s. s) (argv0 # concat (map words is)) = Start
    \<lparr>c_loader = chosen_loader is None, c_prefix = chosen_prefix is ''Blade'', c_path = path,
     c_nworkers = n, c_fastcgi = fastcgi, c_stats = stats,
     c_argv = argv0 # os @ [path, string_of_int n, fastcgi, stats]\<rparr>"
proof -
  obtain es os where scan: "getopt_scan False (\<lambda>s. s) (concat (map words is)) = (es, os, List.map_filter positional is)"
      "option_loop argv0 es (None, ''Blade'') =
         (Inr (chosen_loader is None, chosen_prefix is ''Blade'') :: string decision + _)"
    using scan_words [OF assms(1)] by blast
  have "strtol (string_of_int n) = (n, [])"
    using assms(3,4) by (intro strtol_string_of_int) (simp_all add: LONG_MAX_def LONG_MIN_def)
  then have "check_arguments (\<lambda>s. s) argv0 (chosen_loader is None, chosen_prefix is ''Blade'') os
      (List.map_filter positional is) = Start
    \<lparr>c_loader = chosen_loader is None, c_prefix = chosen_prefix is ''Blade'', c_path = path,
     c_nworkers = n, c_fastcgi = fastcgi, c_stats = stats,
     c_argv = argv0 # os @ [path, string_of_int n, fastcgi, stats]\<rparr>"
    using assms(2-4) by (simp add: check_arguments_def)
  moreover have "command_line False (\<lambda>s. s) (argv0 # concat (map words is)) =
      check_arguments (\<lambda>s. s) argv0 (chosen_loader is None, chosen_prefix is ''Blade'') os
        (List.map_filter positional is)"
    using first_word [OF assms(1) refl] scan by (intro command_line_options) simp_all
  ultimately show ?thesis by auto
qed

theorem command_line_roundtrip_witness:
  "\<exists>os. command_line False (\<lambda>s. s) (''b'' # concat (map words
       [PrefixEq ''A'', Positional ''app'', LoaderShort ''-x'', Positional (string_of_int 16),
        Positional ''f'', PrefixWord ''B'', Positional ''s''])) = Start
    \<lparr>c_loader = Some ''-x'', c_prefix = ''B'', c_path = ''app'', c_nworkers = 16,
     c_fastcgi = ''f'', c_stats = ''s'', c_argv = ''b'' # os @ [''app'', string_of_int 16, ''f'', ''s'']\<rparr>"
proof -
  let ?is = "[PrefixEq ''A'', Positional ''app'', LoaderShort ''-x'', Positional (string_of_int 16),
        Positional ''f'', PrefixWord ''B'', Positional ''s'']"
  have "list_all item_ok ?is" by code_simp
  moreover have "List.map_filter positional ?is = [''app'', string_of_int 16, ''f'', ''s'']"
    by (simp add: List.map_filter_simps)
  ultimately show ?thesis
    using command_line_roundtrip [of ?is "''app''" 16 "''f''" "''s''" "''b''"] by simp
qed

section \<open>The end of main\<close>

text \<open>What can leave \<^verbatim>\<open>main\<close>: a logic error, and the failure of the clock a handler
  needs for its line in the log.\<close>

definition unhandled :: "exn \<Rightarrow> bool" where
  "unhandled e \<longleftrightarrow> (\<exists>m. e = LogicError m) \<or> (\<exists>n. e = SyscallExn (SyscallException_errno ''gettimeofday'' n))"

lemma throws_main_handler: "run_exn e \<Longrightarrow> throws_only unhandled (main_handler e)"
proof -
  have "throws_only unhandled (Log s m)" for s m
    unfolding Log_def by (auto simp: unhandled_def intro!: throws_only_intros)
  moreover assume "run_exn e"
  ultimately show ?thesis
    by (auto simp: run_exn_def main_handler_def unhandled_def intro!: throws_only_intros split: exn.split)
qed

lemma throws_run_application: "throws_only unhandled (run_application wrapper)"
proof -
  have "throws_only run_exn (bind (Run wrapper) (\<lambda>_. ret ()))"
    by (intro throws_only_bind throws_Run throws_only_pure)
  then show ?thesis
    unfolding run_application_def
    by (intro throws_only_andThen throws_only_catch [OF _ throws_main_handler] throws_KillProcessGroup
        throws_only_pure)
qed

lemma throws_main: "throws_only unhandled (main posix wrapper args)"
  unfolding main_def BPSGIMainApplication_new_def print_def
  by (auto intro!: throws_only_intros throws_run_application split: decision.split)

lemma never_main: "never_returns (main posix wrapper args)"
proof -
  have "never_returns (run_application wrapper)"
    unfolding run_application_def by (intro never_returns_andThen never_returns_pure)
  then show ?thesis
    unfolding main_def
    by (auto intro!: never_returns_bind never_returns_andThen split: decision.split)
qed

lemma run_application_exit0:
  "run_application wrapper w = (Halt (Exited 0), w') \<longleftrightarrow> Run wrapper w = (Halt (Exited 0), w')"
proof
  assume "Run wrapper w = (Halt (Exited 0), w')"
  then show "run_application wrapper w = (Halt (Exited 0), w')"
    by (simp add: run_application_def andThen_def bind_def catch_def)
next
  assume run: "run_application wrapper w = (Halt (Exited 0), w')"
  have "no_exit0 app_SetShouldExitImmediately"
    unfolding app_SetShouldExitImmediately_def by (auto intro!: no_exit0_intros split: option.split)
  moreover have "no_exit0 (SyscallException_strerror f ex :: (world, string) prog)" for f ex
    unfolding SyscallException_strerror_def by (auto intro!: no_exit0_intros split: option.split)
  ultimately have handler: "main_handler e s \<noteq> (Halt (Exited 0), t)" for e s t
    unfolding main_handler_def
    by (intro no_exit0_def [THEN iffD1, rule_format]) (auto intro!: no_exit0_intros split: exn.split)
  have "no_exit0 (andThen (KillProcessGroup SIGQUIT) (halt (Exited 1)))"
    by (intro no_exit0_andThen no_exit0_KillProcessGroup no_exit0_pure) simp
  then have "catch (bind (Run wrapper) (\<lambda>_. ret ())) main_handler w = (Halt (Exited 0), w')"
    using run unfolding run_application_def andThen_def [of "catch _ _"]
    by (auto simp: no_exit0_def elim!: bind_eq_HaltE)
  with handler have "bind (Run wrapper) (\<lambda>_. ret ()) w = (Halt (Exited 0), w')"
    by (auto simp: catch_def split: prod.splits outcome.splits)
  then show "Run wrapper w = (Halt (Exited 0), w')"
    by (auto simp: ret_def elim!: bind_eq_HaltE)
qed

text \<open>C20. How main ends. Whatever the arguments, the answers of the system and the exceptions on
  the way, it never returns to its caller. The only exceptions that leave it (and make
  std::terminate abort the process) are logic errors, for which it has no handler, and the failure
  of the clock while a handler logs the reason of the exit: every failed system call, runtime
  error and Perl error on the way is handled, and no other exception gets there. And once main
  has started the application, the process reports success exactly if Run itself has: a run that
  ends in main, by a handler or otherwise, never exits with code 0.\<close>

theorem main_never_returns:
  "(case fst (main posix wrapper args w) of
      Ret u \<Rightarrow> False
    | Throw e \<Rightarrow> (\<exists>m. e = LogicError m)
        \<or> (\<exists>n. e = SyscallExn (SyscallException_errno ''gettimeofday'' n))
    | Halt h \<Rightarrow> True
    | Pending \<Rightarrow> True)
   \<and> (run_application wrapper v = (Halt (Exited 0), v') \<longleftrightarrow> Run wrapper v = (Halt (Exited 0), v'))"
proof -
  obtain q w' where run: "main posix wrapper args w = (q, w')" by fastforce
  have "q \<noteq> Ret u" for u using never_main run by (auto simp: never_returns_def)
  moreover have "q = Throw e \<Longrightarrow> unhandled e" for e
    using throws_onlyD [OF throws_main] run by blast
  ultimately show ?thesis
    unfolding run by (cases q) (auto simp: unhandled_def run_application_exit0)
qed

text \<open>The message \<^verbatim>\<open>main\<close> logs for an exception, if it handles it.\<close>

fun fatal_text :: "(int \<Rightarrow> string) \<Rightarrow> exn \<Rightarrow> string option" where
  "fatal_text strerr (SyscallExn ex) =
     (if (strerror_text ex = None) = (s_errno ex = -1) then None
      else Some (''system call '' @ syscall_name ex @ '' failed: ''
        @ (case strerror_text ex of Some t \<Rightarrow> t | None \<Rightarrow> strerr (s_errno ex))))"
| "fatal_text strerr (RuntimeExn msg) = Some msg"
| "fatal_text strerr _ = None"

definition exit_announced :: "world \<Rightarrow> bool" where
  "exit_announced w = (case shmem (app w) of None \<Rightarrow> False | Some s \<Rightarrow> segment s 0 \<noteq> 0)"

definition announce_exit :: "world \<Rightarrow> world" where
  "announce_exit w = w\<lparr>app := (app w)\<lparr>shmem :=
     map_option (\<lambda>s. s\<lparr>segment := (segment s)(0 := 1)\<rparr>) (shmem (app w))\<rparr>\<rparr>"

lemma app_SetShouldExitImmediately_run:
  assumes "pred_option (\<lambda>s. 0 < shmem_size s) (shmem (app w))"
  shows "app_SetShouldExitImmediately w = (Ret (\<not> exit_announced w), announce_exit w)"
  using assms
  by (cases "shmem (app w)")
    (simp_all add: app_SetShouldExitImmediately_def on_shmem_def SetShouldExitImmediately_def bind_def
      gets_def exchange_int8_def ret_def layout_defs exit_announced_def announce_exit_def)

lemma fatal_text_Syscall:
  assumes "fatal_text strerr (SyscallExn ex) = Some msg"
  obtains t where "\<And>w :: world. SyscallException_strerror strerr ex w = (Ret t, w)"
    "msg = ''system call '' @ syscall_name ex @ '' failed: '' @ t"
  using assms that
  by (cases "strerror_text ex")
    (simp_all add: SyscallException_strerror_def andThen_def bind_def Assert_def ret_def split: if_splits)

lemma main_handler_run:
  assumes "fatal_text (libc_strerror w) e = Some msg"
    and "pred_option (\<lambda>s. 0 < shmem_size s) (shmem (app w))"
    and "script w = Resp g # es" and "clock_ok g"
  shows "main_handler e w = (Ret (),
    if exit_announced w then announce_exit w
    else (announce_exit w)\<lparr>script := es, trace := trace w @ log_calls g LS_FATAL msg\<rparr>)"
proof -
  note set = app_SetShouldExitImmediately_run [OF assms(2)]
  have lg: "Log LS_FATAL m (announce_exit w) =
      (Ret (), (announce_exit w)\<lparr>script := es, trace := trace w @ log_calls g LS_FATAL m\<rparr>)" for m
    using Log_ok [of "announce_exit w" g es] assms(3,4) by (simp add: announce_exit_def)
  have str: "libc_strerror (announce_exit w) = libc_strerror w" by (simp add: announce_exit_def)
  show ?thesis
  proof (cases e)
    case (SyscallExn ex)
    obtain t where t: "\<And>w1 :: world. SyscallException_strerror (libc_strerror w) ex w1 = (Ret t, w1)"
        "msg = ''system call '' @ syscall_name ex @ '' failed: '' @ t"
      using fatal_text_Syscall [OF assms(1) [unfolded SyscallExn]] by metis
    show ?thesis
      unfolding SyscallExn main_handler_def exn.case t(2)
      by (cases "exit_announced w")
        (simp_all add: bind_def gets_def set t(1) str lg ret_def)
  next
    case (RuntimeExn m)
    with assms(1) lg set show ?thesis
      by (simp add: main_handler_def bind_def ret_def)
  qed (use assms(1) in simp_all)
qed

text \<open>C21. An exception that reaches main stops everything. For a failed system call and for a
  runtime error the reason is logged as FATAL, unless another process has already announced the
  exit; the shared exit flag is raised, if there is shared memory already; every worker and the
  monitoring process get SIGQUIT; the process exits with code 1.\<close>

theorem fatal_errors_stop_everything:
  assumes "Run wrapper w = (Throw e, w1)" and "fatal_text (libc_strerror w1) e = Some msg"
    and "pred_option (\<lambda>s. 0 < shmem_size s) (shmem (app w1))"
    and "script w1 = Resp g # es" and "clock_ok g"
  shows "\<exists>w2. run_application wrapper w = (Halt (Exited 1), w2)
    \<and> trace w2 = trace w1 @ (if exit_announced w1 then [] else log_calls g LS_FATAL msg)
        @ group_kills SIGQUIT (app w1)
    \<and> map_option (\<lambda>s. segment s 0) (shmem (app w2)) = map_option (\<lambda>s. 1) (shmem (app w1))"
proof -
  have gk: "group_kills SIGQUIT (app (announce_exit w1)) = group_kills SIGQUIT (app w1)"
    by (simp add: group_kills_def announce_exit_def)
  have "trace (announce_exit w1) = trace w1"
      "map_option (\<lambda>s. segment s 0) (shmem (app (announce_exit w1))) = map_option (\<lambda>s. 1) (shmem (app w1))"
    by (simp_all add: announce_exit_def option.map_comp comp_def)
  with assms(1) main_handler_run [OF assms(2-5)] gk show ?thesis
    by (simp add: run_application_def catch_def andThen_def bind_def KillProcessGroup_eq halt_def)
qed

definition demo_time :: resp where
  "demo_time = \<lparr>r_ret = 0, r_errno = 0, r_outs = [], r_text = [], r_xs = []\<rparr>"

lemma demo_time_ok: "clock_ok demo_time"
  by (simp add: clock_ok_def demo_time_def demo_clock)

definition demo_no_pipe :: world where
  "demo_no_pipe = demo_world [ok_resp 0, ok_resp 0, fail_resp 24, ok_resp 0]"

lemma demo_no_pipe_run:
  "Run wrapper demo_no_pipe = (Throw (SyscallExn (SyscallException_errno ''pipe'' 24)),
     demo_no_pipe\<lparr>sigmask := UNIV, app := demo_app\<lparr>signal_mask_stack := [{}]\<rparr>, script := [ok_resp 0],
       trace := C_sigprocmask UNIV # log_calls demo_time LS_LOG ''BladePSGI starting up'' @ [C_pipe]\<rparr>)"
proof -
  let ?w1 = "demo_no_pipe\<lparr>sigmask := UNIV, app := demo_app\<lparr>signal_mask_stack := [{}]\<rparr>,
    script := [ok_resp 0, fail_resp 24, ok_resp 0], trace := [C_sigprocmask UNIV]\<rparr>"
  let ?w2 = "?w1\<lparr>script := [fail_resp 24, ok_resp 0],
    trace := C_sigprocmask UNIV # log_calls demo_time LS_LOG ''BladePSGI starting up''\<rparr>"
  have 1: "BlockSignals demo_no_pipe = (Ret (), ?w1)"
    by (simp add: BlockSignals_def bind_def sys_def modify_def demo_no_pipe_def demo_world_def demo_app_def
        ok_resp_def)
  have 2: "Log LS_LOG ''BladePSGI starting up'' ?w1 = (Ret (), ?w2)"
    using Log_ok [of ?w1 demo_time "[fail_resp 24, ok_resp 0]"] demo_time_ok
    by (simp add: ok_resp_def demo_time_def)
  have 3: "InitializeSelfPipe ?w2 = (Throw (SyscallExn (SyscallException_errno ''pipe'' 24)),
      ?w2\<lparr>script := [ok_resp 0], trace := trace ?w2 @ [C_pipe]\<rparr>)"
    by (simp add: InitializeSelfPipe_def bind_def sys_def throw_def fail_resp_def)
  show ?thesis
    unfolding Run_def startup_def andThen_def bind_assoc
    by (subst bind_Ret, rule 1, subst bind_Ret, rule 2, subst bind_Throw, rule 3) simp
qed

theorem fatal_errors_stop_everything_witness:
  "\<exists>w2. run_application ''sub { }'' demo_no_pipe = (Halt (Exited 1), w2)
    \<and> trace w2 = C_sigprocmask UNIV # log_calls demo_time LS_LOG ''BladePSGI starting up'' @ [C_pipe]
        @ log_calls demo_time LS_FATAL ''system call pipe failed: error''"
  using fatal_errors_stop_everything [OF demo_no_pipe_run, of "''system call pipe failed: error''"
      demo_time "[]" "''sub { }''"] demo_time_ok
  by (simp add: SyscallException_errno_def exit_announced_def demo_no_pipe_def demo_world_def demo_app_def
      ok_resp_def demo_time_def group_kills_def) blast

section \<open>A well-formed application\<close>

text \<open>What the other components expect of the application when \<^verbatim>\<open>Run\<close> starts:
  nothing has been forked or allocated, the arguments are strings of the argument block (the
  precondition of writing process titles), the number of workers is positive and bounded.\<close>

definition fresh_app :: "world \<Rightarrow> bool" where
  "fresh_app w \<longleftrightarrow> worker_pids (app w) = [] \<and> auxiliary_pids (app w) = []
     \<and> auxiliary_processes (app w) = [] \<and> monitoring_process_pid (app w) = -1 \<and> shmem (app w) = None
     \<and> signal_mask_stack (app w) = [] \<and> args_ok w \<and> 1 \<le> nworkers (app w) \<and> nworkers (app w) \<le> 65536"

text \<open>C24. The application object main constructs is well-formed: for every argument vector
  the kernel passes (addresses of NUL-terminated strings, the program's name first) from which
  the program starts at all, whatever signals arrive meanwhile.\<close>

theorem constructed_app_fresh:
  assumes "command_line posix (\<lambda>a. c_str (drop a (args_mem w))) args = Start c" and "args \<noteq> []"
    and "\<forall>a \<in> set args. a + strlen (args_mem w) a < length (args_mem w)" and "length (args_mem w) < 2 ^ 63"
    and "BPSGIMainApplication_new c w = (Ret u, w')"
  shows "fresh_app w'"
proof -
  have num: "1 \<le> c_nworkers c" "c_nworkers c \<le> 65536" and "mset (c_argv c) = mset args"
    using command_line_started [OF assms(1,2)] by blast+
  then have "set (c_argv c) = set args" by (metis set_mset_mset)
  moreover obtain r w1 where s: "sys C_getpid w = (Ret r, w1)"
    and w': "w' = snd (modify (\<lambda>w. w\<lparr>app :=
       \<lparr>signal_mask_stack = [], argv = c_argv c, psgi_application_path = c_path c,
        nworkers = c_nworkers c, application_loader = c_loader c,
        fastcgi_socket_path = c_fastcgi c, stats_socket_path = c_stats c,
        process_title_prefix = c_prefix c, runner_pid = r_ret r, monitoring_process_pid = -1,
        worker_pids = [], auxiliary_pids = [], auxiliary_processes = [], shmem = None,
        fastcgi_sockfd = -1, stats_sockfd = -1\<rparr>\<rparr>) w1)"
    using assms(5) by (auto simp: BPSGIMainApplication_new_def elim!: bind_eq_RetE)
  moreover have "args_mem w1 = args_mem w"
    using sys_static [OF s] by (simp add: same_static_def)
  ultimately show ?thesis
    using assms(2-4) num by (auto simp: fresh_app_def args_ok_def modify_def)
qed

definition demo_start :: world where
  "demo_start = (demo_world [ok_resp 100])\<lparr>args_mem :=
     ''b'' @ [CHR 0x00] @ ''a'' @ [CHR 0x00] @ ''8'' @ [CHR 0x00] @ ''f'' @ [CHR 0x00] @ ''s'' @ [CHR 0x00]\<rparr>"

theorem constructed_app_fresh_witness:
  "fresh_app (snd (BPSGIMainApplication_new \<lparr>c_loader = None, c_prefix = ''Blade'', c_path = ''a'',
     c_nworkers = 8, c_fastcgi = ''f'', c_stats = ''s'', c_argv = [0, 2, 4, 6, 8]\<rparr> demo_start))"
proof -
  let ?c = "\<lparr>c_loader = None, c_prefix = ''Blade'', c_path = ''a'', c_nworkers = 8,
    c_fastcgi = ''f'', c_stats = ''s'', c_argv = [0, 2, 4, 6, 8]\<rparr>"
  have "command_line False (\<lambda>a. c_str (drop a (args_mem demo_start))) [0, 2, 4, 6, 8] = Start ?c"
    by code_simp
  moreover have "\<forall>a \<in> set [0, 2, 4, 6, 8]. a + strlen (args_mem demo_start) a < length (args_mem demo_start)"
    by code_simp
  moreover have "length (args_mem demo_start) < 2 ^ 63"
    by (simp add: demo_start_def)
  moreover have "fst (BPSGIMainApplication_new ?c demo_start) = Ret ()"
    by (simp add: demo_start_def BPSGIMainApplication_new_def bind_def sys_def modify_def ok_resp_def
        demo_world_def)
  ultimately show ?thesis
    by (intro constructed_app_fresh [of False demo_start "[0, 2, 4, 6, 8]"]) (auto simp: prod_eq_iff)
qed

end
