(* ===== verification/Bpsgi_FastCGI.thy ===== *)
theory Bpsgi_FastCGI
  imports Bpsgi_Prelude
begin

text \<open>
  The Perl code every worker runs: the wrapper loader of
  \<^verbatim>\<open>src/perl/fastcgi_wrapper_loader.cpp\<close>. The first part finds the application, through
  a loader module or by \<^verbatim>\<open>Plack::Util::load_psgi\<close>; the second part is the subroutine
  the worker calls for each request.

  Perl strings are strings, the arrays of response headers live in a store (\<open>arrays\<close>), as
  the code changes them in place. A \<^verbatim>\<open>die\<close> is the left value of a sum, with its text.
  What Perl and the modules FCGI, Plack and HTTP::Status do is given by arguments.
\<close>

abbreviation CR :: char where "CR \<equiv> CHR 0x0D"
abbreviation LF :: char where "LF \<equiv> CHR 0x0A"

section \<open>Finding the application\<close>

text \<open>Scalars, as far as the wrapper looks at them: \<^verbatim>\<open>ref\<close> is all it asks.\<close>

datatype ('h, 'c) scalar =
    Undef
  | Plain string
  | HashRef 'h
  | CodeRef 'c
  | OtherRef string

fun perl_ref :: "('h, 'c) scalar \<Rightarrow> string" where
  "perl_ref (HashRef h) = ''HASH''"
| "perl_ref (CodeRef c) = ''CODE''"
| "perl_ref (OtherRef t) = t"
| "perl_ref _ = ''''"

text \<open>\<^verbatim>\<open>s/::/\//g\<close> and \<^verbatim>\<open>s/$/.pm/\<close>; \<^verbatim>\<open>$\<close> also
  matches in front of a newline at the end.\<close>

fun colons_to_slashes :: "string \<Rightarrow> string" where
  "colons_to_slashes [] = []"
| "colons_to_slashes [c] = [c]"
| "colons_to_slashes (c # d # s) =
     (if c = CHR '':'' \<and> d = CHR '':'' then CHR ''/'' # colons_to_slashes s
      else c # colons_to_slashes (d # s))"

definition append_pm :: "string \<Rightarrow> string" where
  "append_pm s = (if s \<noteq> [] \<and> last s = LF then butlast s @ ''.pm'' @ [LF] else s @ ''.pm'')"

definition module_path :: "string \<Rightarrow> string" where
  "module_path s = append_pm (colons_to_slashes s)"

text \<open>
  What Perl does for the loader: \<open>p_require\<close> gives the text of the error, if any,
  \<open>p_INC\<close> is \<^verbatim>\<open>%INC\<close> afterwards, \<open>p_do\<close> the value of the file with
  \<^verbatim>\<open>$@\<close> and \<^verbatim>\<open>$!\<close>; \<open>p_call\<close> calls a loader, \<open>p_load_psgi\<close> is
  Plack's function; the last two may die. \<open>p_at\<close> is what \<^verbatim>\<open>die\<close> adds to a text
  without a newline, for a line of the wrapper.
\<close>

record ('h, 'c) perl_host =
  p_require :: "string \<Rightarrow> string option"
  p_INC :: "string \<Rightarrow> string option"
  p_do :: "string \<Rightarrow> ('h, 'c) scalar \<times> string \<times> string"
  p_call :: "'c \<Rightarrow> string + ('h, 'c) scalar \<times> ('h, 'c) scalar"
  p_load_psgi :: "string \<Rightarrow> string + ('h, 'c) scalar"
  p_empty_hash :: 'h
  p_at :: "nat \<Rightarrow> string"

definition load_with_loader ::
  "('h, 'c) perl_host \<Rightarrow> string \<Rightarrow> string + ('h, 'c) scalar \<times> ('h, 'c) scalar" where
  "load_with_loader P loader =
     (let m = module_path loader in
      case p_require P m of Some e \<Rightarrow> Inl e | None \<Rightarrow>
      case p_INC P m of
        None \<Rightarrow> Inl (''internal error: required module '' @ m @ '' not present in %INC'' @ p_at P 25)
      | Some path \<Rightarrow>
          let (app_loader, eval_error, os_error) = p_do P path in
          case app_loader of
            Undef \<Rightarrow> Inl (''could not load PSGI application loader '' @ path @ '': ''
                        @ (if eval_error = [] then os_error else eval_error) @ [LF])
          | CodeRef f \<Rightarrow>
              (case p_call P f of
                 Inl e \<Rightarrow> Inl e
               | Inr (psgi_env, psgi_app) \<Rightarrow>
                   if perl_ref psgi_env \<noteq> ''HASH'' then
                     Inl (''the first returned value from PSGI application loader must be a HASH reference; got ''
                       @ perl_ref psgi_env @ [LF])
                   else if perl_ref psgi_app \<noteq> ''CODE'' then
                     Inl (''the second returned value from PSGI application loader must be a CODE reference; got ''
                       @ perl_ref psgi_app @ [LF])
                   else Inr (psgi_env, psgi_app))
          | v \<Rightarrow> Inl (''PSGI application loader '' @ path @ '' must return a subroutine; got ''
                     @ perl_ref v @ [LF]))"

definition load_application ::
  "('h, 'c) perl_host \<Rightarrow> string option \<Rightarrow> string \<Rightarrow> string + ('h, 'c) scalar \<times> ('h, 'c) scalar" where
  "load_application P loader psgi_application_path =
     (case loader of
        Some l \<Rightarrow> load_with_loader P l
      | None \<Rightarrow> (case p_load_psgi P psgi_application_path of
                   Inl e \<Rightarrow> Inl e
                 | Inr psgi_app \<Rightarrow> Inr (HashRef (p_empty_hash P), psgi_app)))"

section \<open>The environment of a request\<close>

datatype pvalue =
    PStr string
  | PVersion nat nat
  | PStdin
  | PStderr
  | PBool bool
  | PObject nat

type_synonym penv = "string \<rightharpoonup> pvalue"

text \<open>\<^verbatim>\<open>($env{HTTPS}||'off') =~ /^(?:on|1)$/i\<close>.\<close>

definition lower :: "char \<Rightarrow> char" where
  "lower c = (if 65 \<le> (of_char c :: nat) \<and> (of_char c :: nat) \<le> 90 then char_of (of_char c + 32 :: nat) else c)"

definition perl_true :: "string \<Rightarrow> bool" where
  "perl_true s \<longleftrightarrow> s \<noteq> [] \<and> s \<noteq> ''0''"

definition https_match :: "string \<Rightarrow> bool" where
  "https_match s \<longleftrightarrow> map lower s \<in> {''on'', ''1'', ''on'' @ [LF], ''1'' @ [LF]}"

definition url_scheme :: "(string \<rightharpoonup> string) \<Rightarrow> string" where
  "url_scheme env =
     (let v = (case env ''HTTPS'' of Some s \<Rightarrow> if perl_true s then s else ''off'' | None \<Rightarrow> ''off'')
      in if https_match v then ''https'' else ''http'')"

definition fixed_env :: "(string \<rightharpoonup> string) \<Rightarrow> (string \<times> pvalue) list" where
  "fixed_env env =
     [(''psgi.version'', PVersion 1 1), (''psgi.url_scheme'', PStr (url_scheme env)),
      (''psgi.input'', PStdin), (''psgi.errors'', PStderr), (''psgi.multithread'', PBool False),
      (''psgi.multiprocess'', PBool True), (''psgi.run_once'', PBool False),
      (''psgi.streaming'', PBool True), (''psgi.nonblocking'', PBool False),
      (''psgix.harakiri'', PBool False)]"

text \<open>The hash: later pairs replace earlier ones with the same key.\<close>

definition request_env :: "penv \<Rightarrow> (string \<rightharpoonup> string) \<Rightarrow> penv" where
  "request_env psgi_env env = ((map_option PStr \<circ> env) ++ psgi_env) ++ map_of (fixed_env env)"

section \<open>Responses\<close>

text \<open>The calls on the request object and its output handle, and the state: the hash
  \<^verbatim>\<open>%env\<close>, the arrays, the calls so far.\<close>

datatype fcgi_call = Accept | Autoflush | Binmode | Print string | Finish

record fcgi =
  fcgi_env :: "string \<rightharpoonup> string"
  arrays :: "nat \<Rightarrow> string list"
  fcgi_calls :: "fcgi_call list"

text \<open>A response refers to its array of headers; a body that is there is given by the
  pieces \<^verbatim>\<open>Plack::Util::foreach\<close> makes of it, and the error it dies with after them if
  reading the body fails, as it may for a handle or an object.\<close>

record response =
  res_status :: string
  res_headers :: nat
  res_body :: "string list option"
  res_dies :: "string option"

definition call :: "fcgi_call \<Rightarrow> fcgi \<Rightarrow> fcgi" where
  "call c s = s\<lparr>fcgi_calls := fcgi_calls s @ [c]\<rparr>"

definition print_all :: "string list \<Rightarrow> fcgi \<Rightarrow> fcgi" where
  "print_all ts s = s\<lparr>fcgi_calls := fcgi_calls s @ map Print ts\<rparr>"

text \<open>The loop that takes two elements at a time off the array: the text it appends and
  what is left of the array. A key without a value gets the empty one.\<close>

fun splice_headers :: "string list \<Rightarrow> string \<times> string list" where
  "splice_headers [] = ('''', [])"
| "splice_headers [k] = (k @ '': '' @ [CR, LF], [])"
| "splice_headers (k # v # hs) = (case splice_headers hs of (t, r) \<Rightarrow> (k @ '': '' @ v @ [CR, LF] @ t, r))"

text \<open>The result says whether the caller gets an object to write to; it is the error if the body
  dies. \<open>status_message\<close> gives nothing for a code it does not know.\<close>

definition handle_response ::
  "(string \<Rightarrow> string option) \<Rightarrow> response \<Rightarrow> fcgi \<Rightarrow> (string + bool) \<times> fcgi" where
  "handle_response status_message res s =
     (let s1 = call Binmode (call Autoflush s);
          message = (case status_message (res_status res) of Some t \<Rightarrow> t | None \<Rightarrow> '''');
          (lines, rest) = splice_headers (arrays s1 (res_headers res));
          hdrs = ''Status: '' @ res_status res @ '' '' @ message @ [CR, LF] @ lines @ [CR, LF];
          s2 = print_all [hdrs] (s1\<lparr>arrays := (arrays s1)(res_headers res := rest)\<rparr>)
      in case res_body res of
           Some body \<Rightarrow>
             (case res_dies res of None \<Rightarrow> Inr False | Some t \<Rightarrow> Inl t, print_all body s2)
         | None \<Rightarrow> (Inr True, s2))"

text \<open>A streaming application responds when it likes to, and writes the given pieces if it
  is handed an object to write to; it may die at any point. The flag says whether it catches an
  error of the responder.\<close>

datatype stream_step = Respond response "string list" bool | App_dies string

fun run_stream ::
  "(string \<Rightarrow> string option) \<Rightarrow> stream_step list \<Rightarrow> fcgi \<Rightarrow> string option \<times> fcgi" where
  "run_stream status_message [] s = (None, s)"
| "run_stream status_message (App_dies t # ss) s = (Some t, s)"
| "run_stream status_message (Respond res pieces caught # ss) s =
     (case handle_response status_message res s of
        (Inl t, s1) \<Rightarrow> if caught then run_stream status_message ss s1 else (Some t, s1)
      | (Inr writer, s1) \<Rightarrow>
          run_stream status_message ss (if writer then print_all pieces s1 else s1))"

section \<open>One request\<close>

datatype reply = ArrayReply response | CodeReply "stream_step list" | BadReply string

text \<open>What comes with a request: the result of \<^verbatim>\<open>Accept\<close>, the parameters, and
  what \<^verbatim>\<open>Plack::Util::run_app\<close> returns for the application and the environment: the
  application's reply or, if the application dies, the reply with status 500 that
  \<^verbatim>\<open>run_app\<close> is documented to make of it. The application may change its arrays.\<close>

record request =
  req_accept :: int
  req_params :: "string \<rightharpoonup> string"
  req_app :: "penv \<Rightarrow> (nat \<Rightarrow> string list) \<Rightarrow> reply \<times> (nat \<Rightarrow> string list)"

definition handle_request ::
  "(string \<Rightarrow> string option) \<Rightarrow> (nat \<Rightarrow> string) \<Rightarrow> penv \<Rightarrow> request \<Rightarrow> fcgi \<Rightarrow> (string + int) \<times> fcgi" where
  "handle_request status_message die_at psgi_env r s =
     (let s1 = call Accept s in
      if req_accept r < 0 then (Inr (-1), s1)
      else
        let s2 = s1\<lparr>fcgi_env := req_params r\<rparr>;
            (res, as) = req_app r (request_env psgi_env (fcgi_env s2)) (arrays s2);
            s3 = s2\<lparr>arrays := as\<rparr>
        in case res of
             ArrayReply a \<Rightarrow>
               (case handle_response status_message a s3 of
                  (Inl t, s4) \<Rightarrow> (Inl t, s4)
                | (Inr _, s4) \<Rightarrow> (Inr 1, call Finish s4))
           | CodeReply ss \<Rightarrow>
               (case run_stream status_message ss s3 of
                  (Some t, s4) \<Rightarrow> (Inl t, s4)
                | (None, s4) \<Rightarrow> (Inr 1, call Finish s4))
           | BadReply ref \<Rightarrow> (Inl (''Bad response '' @ ref @ die_at 127), s3))"

section \<open>Names of modules\<close>

fun join :: "string \<Rightarrow> string list \<Rightarrow> string" where
  "join sep [] = ''''"
| "join sep [s] = s"
| "join sep (s # t # ss) = s @ sep @ join sep (t # ss)"

lemma colons_to_slashes_plain:
  "CHR '':'' \<notin> set s \<Longrightarrow> colons_to_slashes (s @ t) = s @ colons_to_slashes t"
proof (induction s)
  case (Cons c s)
  then show ?case by (cases "s @ t") auto
qed simp

lemma colons_to_slashes_join:
  "list_all (\<lambda>s. CHR '':'' \<notin> set s) ss \<Longrightarrow> colons_to_slashes (join ''::'' ss) = join ''/'' ss"
proof (induction "''::''" ss rule: join.induct)
  case (2 s)
  then show ?case using colons_to_slashes_plain [of s "[]"] by simp
qed (simp_all add: colons_to_slashes_plain)

lemma set_join: "LF \<notin> set sep \<Longrightarrow> list_all (\<lambda>s. LF \<notin> set s) ss \<Longrightarrow> LF \<notin> set (join sep ss)"
  by (induction sep ss rule: join.induct) auto

text \<open>C30. The file required for a loader module is the one Perl itself would look for: for
  the name A::B::C the path A/B/C.pm, for any number of parts without colons and newlines.\<close>

theorem module_path_join:
  assumes "list_all (\<lambda>s. CHR '':'' \<notin> set s \<and> LF \<notin> set s) parts"
  shows "module_path (join ''::'' parts) = join ''/'' parts @ ''.pm''"
proof -
  have "LF \<notin> set (join ''/'' parts)"
    using assms by (intro set_join) (auto simp: list_all_iff)
  moreover have "colons_to_slashes (join ''::'' parts) = join ''/'' parts"
    using assms by (intro colons_to_slashes_join) (auto simp: list_all_iff)
  ultimately show ?thesis
    by (auto simp: module_path_def append_pm_def dest: last_in_set)
qed

theorem module_path_join_witness: "module_path ''My::App::Loader'' = ''My/App/Loader.pm''"
  using module_path_join [of "[''My'', ''App'', ''Loader'']"] by simp

text \<open>C29. A loader is accepted exactly if its module can be required and is listed in %INC, the
  file evaluates to a subroutine, and calling that returns a hash reference and a code
  reference; in every other case the worker is never started and the program dies with one of
  the messages.\<close>

theorem load_with_loader_accepts:
  "load_with_loader P loader = Inr (psgi_env, psgi_app) \<longleftrightarrow>
     p_require P (module_path loader) = None
     \<and> (\<exists>path f e1 e2. p_INC P (module_path loader) = Some path \<and> p_do P path = (CodeRef f, e1, e2)
          \<and> p_call P f = Inr (psgi_env, psgi_app))
     \<and> perl_ref psgi_env = ''HASH'' \<and> perl_ref psgi_app = ''CODE''"
  by (auto simp: load_with_loader_def Let_def split: option.splits prod.splits scalar.splits sum.splits
      if_splits)

section \<open>The environment\<close>

lemma of_char_lower: "(of_char (lower c) :: nat) =
    (if 65 \<le> (of_char c :: nat) \<and> (of_char c :: nat) \<le> 90 then of_char c + 32 else of_char c)"
  by (simp add: lower_def)

lemma lower_eq: "lower c = d \<longleftrightarrow> (of_char (lower c) :: nat) = of_char d"
  by simp

lemma char_eq: "c = d \<longleftrightarrow> (of_char c :: nat) = of_char d"
  by simp

lemma lower_letters:
  "lower c = CHR ''o'' \<longleftrightarrow> c = CHR ''o'' \<or> c = CHR ''O''"
  "lower c = CHR ''n'' \<longleftrightarrow> c = CHR ''n'' \<or> c = CHR ''N''"
  "lower c = CHR ''1'' \<longleftrightarrow> c = CHR ''1''"
  "lower c = LF \<longleftrightarrow> c = LF"
  by (simp_all only: lower_eq of_char_lower char_eq [of c]) auto

lemma https_match_iff:
  "https_match s \<longleftrightarrow> s \<in> {''1'', ''on'', ''On'', ''oN'', ''ON''} \<or>
     s \<in> {''1'' @ [LF], ''on'' @ [LF], ''On'' @ [LF], ''oN'' @ [LF], ''ON'' @ [LF]}"
proof -
  consider "s = []" | a where "s = [a]" | a b where "s = [a, b]" | a b c where "s = [a, b, c]"
    | a b c d ds where "s = a # b # c # d # ds"
    by (metis neq_Nil_conv)
  then show ?thesis
    by cases (simp_all add: https_match_def lower_letters, argo+)
qed

definition protected_keys :: "string set" where
  "protected_keys = {''psgi.version'', ''psgi.url_scheme'', ''psgi.input'', ''psgi.errors'',
     ''psgi.multithread'', ''psgi.multiprocess'', ''psgi.run_once'', ''psgi.streaming'',
     ''psgi.nonblocking'', ''psgix.harakiri''}"

lemma protected_keys_fixed: "protected_keys = set (map fst (fixed_env env))"
  by (simp add: protected_keys_def fixed_env_def)

lemma request_env_fixed: "request_env psgi_env env k =
   (case map_of (fixed_env env) k of Some v \<Rightarrow> Some v | None \<Rightarrow>
      (case psgi_env k of Some v \<Rightarrow> Some v | None \<Rightarrow> map_option PStr (env k)))"
  by (auto simp: request_env_def map_add_def split: option.split)

lemma request_env_scheme: "request_env psgi_env env ''psgi.url_scheme'' = Some (PStr (url_scheme env))"
  by (simp add: request_env_fixed fixed_env_def)

lemma request_env_fixed_keys:
  "request_env psgi_env env ''psgi.version'' = Some (PVersion 1 1)"
  "request_env psgi_env env ''psgi.input'' = Some PStdin"
  "request_env psgi_env env ''psgi.errors'' = Some PStderr"
  "request_env psgi_env env ''psgi.multithread'' = Some (PBool False)"
  "request_env psgi_env env ''psgi.multiprocess'' = Some (PBool True)"
  "request_env psgi_env env ''psgi.run_once'' = Some (PBool False)"
  "request_env psgi_env env ''psgi.streaming'' = Some (PBool True)"
  "request_env psgi_env env ''psgi.nonblocking'' = Some (PBool False)"
  "request_env psgi_env env ''psgix.harakiri'' = Some (PBool False)"
  by (simp_all add: request_env_fixed fixed_env_def)

lemma url_scheme_http: "url_scheme env \<noteq> ''https'' \<Longrightarrow> url_scheme env = ''http''"
  by (auto simp: url_scheme_def Let_def)

lemma url_scheme_https:
  "url_scheme env = ''https'' \<longleftrightarrow> (\<exists>s. env ''HTTPS'' = Some s \<and> https_match s)"
proof -
  have "\<not> https_match ''off''" by (simp add: https_match_iff)
  moreover have "https_match s \<Longrightarrow> perl_true s" for s by (auto simp: https_match_iff perl_true_def)
  ultimately show ?thesis by (auto simp: url_scheme_def Let_def split: option.splits)
qed

definition https_words :: "string set" where
  "https_words = {''1'', ''on'', ''On'', ''oN'', ''ON''}"

lemma https_match_words: "https_match s \<longleftrightarrow> s \<in> https_words \<or> s \<in> (\<lambda>t. t @ [LF]) ` https_words"
  by (simp add: https_match_iff https_words_def)

text \<open>C26. What an application sees. The ten keys of the PSGI interface cannot be forged: whatever
  a client's parameters and the environment the loader supplied contain, the version is 1.1, input
  is the request's stream, errors is standard error, the application is told that it runs in one
  of several processes without threads, repeatedly, blocking, may stream, and that harakiri is not
  supported; the scheme is https if the parameter HTTPS is 1 or on, in upper or lower case,
  possibly with a newline at its end, and http otherwise. Among all other keys the loader's
  environment wins over the client's parameters, which come through as they are.\<close>

theorem request_env_priority:
  "request_env psgi_env env ''psgi.version'' = Some (PVersion 1 1)
   \<and> request_env psgi_env env ''psgi.url_scheme'' = Some (PStr
       (if (\<exists>s. env ''HTTPS'' = Some s \<and> (s \<in> https_words \<or> s \<in> (\<lambda>t. t @ [LF]) ` https_words))
        then ''https'' else ''http''))
   \<and> request_env psgi_env env ''psgi.input'' = Some PStdin
   \<and> request_env psgi_env env ''psgi.errors'' = Some PStderr
   \<and> request_env psgi_env env ''psgi.multithread'' = Some (PBool False)
   \<and> request_env psgi_env env ''psgi.multiprocess'' = Some (PBool True)
   \<and> request_env psgi_env env ''psgi.run_once'' = Some (PBool False)
   \<and> request_env psgi_env env ''psgi.streaming'' = Some (PBool True)
   \<and> request_env psgi_env env ''psgi.nonblocking'' = Some (PBool False)
   \<and> request_env psgi_env env ''psgix.harakiri'' = Some (PBool False)
   \<and> (\<forall>k. k \<notin> protected_keys \<longrightarrow> request_env psgi_env env k =
         (case psgi_env k of Some v \<Rightarrow> Some v | None \<Rightarrow> map_option PStr (env k)))"
proof -
  have "url_scheme env =
      (if (\<exists>s. env ''HTTPS'' = Some s \<and> (s \<in> https_words \<or> s \<in> (\<lambda>t. t @ [LF]) ` https_words))
       then ''https'' else ''http'')"
    using url_scheme_https [of env] url_scheme_http [of env] unfolding https_match_words by argo
  moreover have "request_env psgi_env env k =
      (case psgi_env k of Some v \<Rightarrow> Some v | None \<Rightarrow> map_option PStr (env k))"
    if "k \<notin> protected_keys" for k
  proof -
    have "map_of (fixed_env env) k = None"
      using that by (simp add: protected_keys_fixed [of env] map_of_eq_None_iff)
    then show ?thesis by (simp add: request_env_fixed)
  qed
  ultimately show ?thesis
    by (simp only: request_env_scheme request_env_fixed_keys) blast
qed

theorem request_env_priority_witness:
  "request_env [''psgi.url_scheme'' \<mapsto> PStr ''http'', ''X'' \<mapsto> PStr ''loader'']
      [''HTTPS'' \<mapsto> ''ON'', ''X'' \<mapsto> ''client'', ''psgi.input'' \<mapsto> ''forged''] ''psgi.url_scheme''
      = Some (PStr ''https'')
   \<and> request_env [''psgi.url_scheme'' \<mapsto> PStr ''http'', ''X'' \<mapsto> PStr ''loader'']
      [''HTTPS'' \<mapsto> ''ON'', ''X'' \<mapsto> ''client'', ''psgi.input'' \<mapsto> ''forged''] ''psgi.input'' = Some PStdin
   \<and> request_env [''psgi.url_scheme'' \<mapsto> PStr ''http'', ''X'' \<mapsto> PStr ''loader'']
      [''HTTPS'' \<mapsto> ''ON'', ''X'' \<mapsto> ''client'', ''psgi.input'' \<mapsto> ''forged''] ''X'' = Some (PStr ''loader'')"
proof -
  let ?p = "[''psgi.url_scheme'' \<mapsto> PStr ''http'', ''X'' \<mapsto> PStr ''loader'']"
  let ?e = "[''HTTPS'' \<mapsto> ''ON'', ''X'' \<mapsto> ''client'', ''psgi.input'' \<mapsto> ''forged'']"
  have https: "\<exists>s. ?e ''HTTPS'' = Some s \<and> (s \<in> https_words \<or> s \<in> (\<lambda>t. t @ [LF]) ` https_words)"
    by (simp add: https_words_def)
  note p = request_env_priority [of ?p ?e]
  have "request_env ?p ?e ''psgi.url_scheme'' = Some (PStr ''https'')"
    using p [THEN conjunct2, THEN conjunct1] unfolding if_P [OF https] .
  moreover have "request_env ?p ?e ''psgi.input'' = Some PStdin"
    using p [THEN conjunct2, THEN conjunct2, THEN conjunct1] .
  moreover have "request_env ?p ?e ''X'' = Some (PStr ''loader'')"
    using p by (elim conjE) (simp add: protected_keys_def)
  ultimately show ?thesis by (intro conjI)
qed

section \<open>Responses can be read back\<close>

text \<open>What a web server does with the output: lines up to an empty one, each with a name in
  front of the first colon and a value behind the blank.\<close>

fun split_crlf :: "string \<Rightarrow> (string \<times> string) option" where
  "split_crlf [] = None"
| "split_crlf [c] = None"
| "split_crlf (c # d # s) = (if c = CR \<and> d = LF then Some ([], s) else map_option (apfst (Cons c)) (split_crlf (d # s)))"

definition parse_field :: "string \<Rightarrow> string \<times> string" where
  "parse_field l = (let k = takeWhile (\<lambda>c. c \<noteq> CHR '':'') l in (k, drop (length k + 2) l))"

lemma split_crlf_shorter: "split_crlf s = Some (l, r) \<Longrightarrow> length r < length s"
  by (induction s arbitrary: l r rule: split_crlf.induct) (fastforce split: if_splits)+

function parse_head :: "string \<Rightarrow> ((string \<times> string) list \<times> string) option" where
  "parse_head s =
     (case split_crlf s of
        None \<Rightarrow> None
      | Some (l, r) \<Rightarrow> if l = [] then Some ([], r)
                      else map_option (apfst (Cons (parse_field l))) (parse_head r))"
  by pat_completeness auto
termination
  by (relation "measure length") (auto dest: split_crlf_shorter)

declare parse_head.simps [simp del]

lemma split_crlf_line: "CR \<notin> set l \<Longrightarrow> split_crlf (l @ CR # LF # r) = Some (l, r)"
proof (induction l)
  case (Cons c l)
  then show ?case by (cases l) auto
qed simp

definition field_line :: "string \<times> string \<Rightarrow> string" where
  "field_line kv = fst kv @ '': '' @ snd kv @ [CR, LF]"

definition field_ok :: "string \<times> string \<Rightarrow> bool" where
  "field_ok kv \<longleftrightarrow> CHR '':'' \<notin> set (fst kv) \<and> CR \<notin> set (fst kv) \<and> CR \<notin> set (snd kv)"

lemma parse_head_fields:
  "list_all field_ok kvs \<Longrightarrow> parse_head (concat (map field_line kvs) @ CR # LF # r) = Some (kvs, r)"
proof (induction kvs)
  case Nil
  then show ?case by (simp add: parse_head.simps)
next
  case (Cons kv kvs)
  have "split_crlf (fst kv @ '': '' @ snd kv @ CR # LF # t) = Some (fst kv @ '': '' @ snd kv, t)" for t
    using Cons.prems split_crlf_line [of "fst kv @ '': '' @ snd kv"] by (simp add: field_ok_def)
  moreover have tw: "takeWhile (\<lambda>c. c \<noteq> CHR '':'') (fst kv @ '': '' @ snd kv) = fst kv"
    using Cons.prems by (subst takeWhile_append2) (auto simp: field_ok_def)
  then have "parse_field (fst kv @ '': '' @ snd kv) = kv"
    using Cons.prems tw by (simp add: parse_field_def Let_def)
  ultimately show ?case
    using Cons by (subst parse_head.simps) (simp add: field_line_def [of kv])
qed

lemma splice_headers_pairs:
  "splice_headers (concat (map (\<lambda>(k, v). [k, v]) kvs)) = (concat (map field_line kvs), [])"
  by (induction kvs) (auto simp: field_line_def)

lemma splice_headers_empties: "snd (splice_headers hs) = []"
  by (induction hs rule: splice_headers.induct) (auto split: prod.split)

text \<open>The text of the status.\<close>

definition status_text :: "(string \<Rightarrow> string option) \<Rightarrow> response \<Rightarrow> string" where
  "status_text status_message res = res_status res @ '' ''
     @ (case status_message (res_status res) of Some t \<Rightarrow> t | None \<Rightarrow> '''')"

text \<open>The error a response dies with.\<close>

definition body_death :: "response \<Rightarrow> string option" where
  "body_death res = (if res_body res = None then None else res_dies res)"

lemma handle_response_run:
  "handle_response status_message res s =
    (case body_death res of Some t \<Rightarrow> Inl t | None \<Rightarrow> Inr (res_body res = None),
     s\<lparr>arrays := (arrays s)(res_headers res := []),
       fcgi_calls := fcgi_calls s @ [Autoflush, Binmode,
         Print (field_line (''Status'', status_text status_message res)
           @ fst (splice_headers (arrays s (res_headers res))) @ [CR, LF])]
         @ map Print (case res_body res of Some body \<Rightarrow> body | None \<Rightarrow> [])\<rparr>)"
  using splice_headers_empties [of "arrays s (res_headers res)"]
  by (cases "res_body res"; cases "splice_headers (arrays s (res_headers res))")
    (simp_all add: handle_response_def Let_def call_def print_all_def field_line_def status_text_def
      body_death_def split: option.split)

fun printed :: "fcgi_call list \<Rightarrow> string" where
  "printed [] = ''''"
| "printed (Print t # cs) = t @ printed cs"
| "printed (_ # cs) = printed cs"

lemma printed_Prints: "printed (map Print ts) = concat ts"
  by (induction ts) auto

text \<open>C27. A response can be read back. From what the worker prints for a response a web server
  gets the status with its message, the headers in their order, duplicates included, and behind
  the empty line exactly the body, as long as no header name contains a colon and no name, value
  or status message a carriage return.\<close>

theorem response_roundtrip:
  assumes "arrays s (res_headers res) = concat (map (\<lambda>(k, v). [k, v]) kvs)"
    and "list_all field_ok ((''Status'', status_text status_message res) # kvs)"
    and "res_body res = Some body"
  shows "\<exists>cs. fcgi_calls (snd (handle_response status_message res s)) = fcgi_calls s @ cs
    \<and> parse_head (printed cs) = Some ((''Status'', status_text status_message res) # kvs, concat body)"
proof -
  let ?kvs = "(''Status'', status_text status_message res) # kvs"
  let ?cs = "[Autoflush, Binmode, Print (concat (map field_line ?kvs) @ [CR, LF])] @ map Print body"
  have "fcgi_calls (snd (handle_response status_message res s)) = fcgi_calls s @ ?cs"
    by (simp add: handle_response_run assms(1,3) splice_headers_pairs del: append.simps)
  moreover have "parse_head (printed ?cs) = Some (?kvs, concat body)"
    using parse_head_fields [OF assms(2), of "concat body"] by (simp add: printed_Prints)
  ultimately show ?thesis by blast
qed

definition demo_fcgi :: fcgi where
  "demo_fcgi = \<lparr>fcgi_env = Map.empty, arrays = (\<lambda>_. [''A'', ''x: y'', ''A'', ''z'']), fcgi_calls = []\<rparr>"

definition demo_response :: response where
  "demo_response = \<lparr>res_status = ''200'', res_headers = 0, res_body = Some [''Hel'', ''lo''],
     res_dies = None\<rparr>"

theorem response_roundtrip_witness:
  "\<exists>cs. fcgi_calls (snd (handle_response (\<lambda>_. Some ''OK'') demo_response demo_fcgi)) = cs
    \<and> parse_head (printed cs) =
        Some ([(''Status'', ''200 OK''), (''A'', ''x: y''), (''A'', ''z'')], ''Hello'')"
proof -
  have 1: "arrays demo_fcgi (res_headers demo_response) =
      concat (map (\<lambda>(k, v). [k, v]) [(''A'', ''x: y''), (''A'', ''z'')])"
    and 2: "fcgi_calls demo_fcgi = []" "res_body demo_response = Some [''Hel'', ''lo'']"
    by (simp_all add: demo_fcgi_def demo_response_def)
  have 3: "status_text (\<lambda>_. Some ''OK'') demo_response = ''200 OK''" by code_simp
  have "list_all field_ok ((''Status'', ''200 OK'') # [(''A'', ''x: y''), (''A'', ''z'')])" by code_simp
  with response_roundtrip [OF 1 _ 2(2), of "\<lambda>_. Some ''OK''"] 2(1) 3 show ?thesis by simp
qed

text \<open>C28. The headers of a response can be sent once. The loop that writes them takes them out of
  the application's array, so an application that answers with the same array again, as a
  constant response does, has that response sent without any header.\<close>

theorem second_response_has_no_headers:
  assumes "handle_response status_message res s = (w, s1)" and "res_headers res' = res_headers res"
    and "handle_response status_message res' s1 = (w', s2)"
  shows "fcgi_calls s2 = fcgi_calls s1 @ [Autoflush, Binmode,
      Print (field_line (''Status'', status_text status_message res') @ [CR, LF])]
      @ map Print (case res_body res' of Some body \<Rightarrow> body | None \<Rightarrow> [])"
proof -
  have "arrays s1 (res_headers res') = []"
    using assms(1,2) by (auto simp: handle_response_run)
  then show ?thesis
    using assms(3) by (auto simp: handle_response_run)
qed

definition demo_sent :: fcgi where
  "demo_sent = snd (handle_response (\<lambda>_. Some ''OK'') demo_response demo_fcgi)"

theorem second_response_has_no_headers_witness:
  "fcgi_calls (snd (handle_response (\<lambda>_. Some ''OK'') demo_response demo_sent)) = fcgi_calls demo_sent
    @ [Autoflush, Binmode, Print (field_line (''Status'', ''200 OK'') @ [CR, LF]), Print ''Hel'', Print ''lo'']"
proof -
  let ?h = "handle_response (\<lambda>_. Some ''OK'') demo_response"
  have 1: "?h demo_fcgi = (fst (?h demo_fcgi), demo_sent)" by (simp add: demo_sent_def)
  have 2: "?h demo_sent = (fst (?h demo_sent), snd (?h demo_sent))" by simp
  have 3: "status_text (\<lambda>_. Some ''OK'') demo_response = ''200 OK''" by code_simp
  from second_response_has_no_headers [OF 1 refl 2] show ?thesis
    unfolding 3 by (simp add: demo_response_def)
qed

section \<open>Accepting and finishing\<close>

lemma Accept_Finish_not_printed [simp]: "Accept \<notin> Print ` A" "Finish \<notin> Print ` A"
  by auto

text \<open>The error a streaming application, and a reply, die with.\<close>

fun stream_death :: "stream_step list \<Rightarrow> string option" where
  "stream_death [] = None"
| "stream_death (App_dies t # ss) = Some t"
| "stream_death (Respond res pieces caught # ss) =
     (if body_death res \<noteq> None \<and> \<not> caught then body_death res else stream_death ss)"

fun reply_death :: "(nat \<Rightarrow> string) \<Rightarrow> reply \<Rightarrow> string option" where
  "reply_death die_at (ArrayReply res) = body_death res"
| "reply_death die_at (CodeReply ss) = stream_death ss"
| "reply_death die_at (BadReply ref) = Some (''Bad response '' @ ref @ die_at 127)"

text \<open>Calls that neither accept nor finish.\<close>

definition quiet :: "fcgi_call list \<Rightarrow> bool" where
  "quiet cs \<longleftrightarrow> Accept \<notin> set cs \<and> Finish \<notin> set cs"

lemma quiet_simps [simp]: "quiet []" "quiet (cs @ ds) = (quiet cs \<and> quiet ds)" "quiet (map Print ts)"
  by (auto simp: quiet_def)

lemma handle_response_calls:
  "\<exists>cs. fcgi_calls (snd (handle_response status_message res s)) = fcgi_calls s @ cs \<and> quiet cs"
  by (auto simp: handle_response_run quiet_def)

lemma run_stream_calls:
  "fst (run_stream status_message ss s) = stream_death ss
   \<and> (\<exists>cs. fcgi_calls (snd (run_stream status_message ss s)) = fcgi_calls s @ cs \<and> quiet cs)"
proof (induction ss arbitrary: s)
  case (Cons a ss)
  show ?case
  proof (cases a)
    case (Respond res pieces caught)
    obtain q s1 where h: "handle_response status_message res s = (q, s1)" by fastforce
    obtain cs where cs: "fcgi_calls s1 = fcgi_calls s @ cs" "quiet cs"
      using handle_response_calls [of status_message res s] h by auto
    have q: "q = (case body_death res of Some t \<Rightarrow> Inl t | None \<Rightarrow> Inr (res_body res = None))"
      using h by (simp add: handle_response_run)
    let ?s2 = "if q = Inr True then print_all pieces s1 else s1"
    obtain ds where ds: "fcgi_calls ?s2 = fcgi_calls s1 @ ds" "quiet ds"
      by (cases "q = Inr True") (auto simp: print_all_def)
    obtain es where es: "fcgi_calls (snd (run_stream status_message ss ?s2)) = fcgi_calls ?s2 @ es" "quiet es"
      using Cons.IH by blast
    have "run_stream status_message (a # ss) s =
        (if body_death res \<noteq> None \<and> \<not> caught then (body_death res, s1) else run_stream status_message ss ?s2)"
      using h q Respond by (auto split: option.splits)
    with Respond Cons.IH [of ?s2] cs ds es show ?thesis
      by (auto intro!: exI [of _ "cs @ ds @ es"])
  qed (simp add: exI [of _ "[]"])
qed simp

text \<open>C25. The protocol with the FastCGI library, and what a dying application does to it. Each
  call of the worker's subroutine accepts once. If that fails, nothing else happens and the result
  is -1. Otherwise it depends on the reply. If nothing dies, everything is printed between the
  acceptance and the one call of Finish, which is the last one, and the result is 1. If reading
  the body of a response fails, a streaming application dies (or does not catch an error of the
  responder), or the reply is neither an array nor code, the subroutine dies with that error and
  the request is not finished.\<close>

theorem request_protocol:
  assumes "handle_request status_message die_at psgi_env r s = (result, s')"
    and "reply = fst (req_app r (request_env psgi_env (req_params r)) (arrays s))"
  shows "(req_accept r < 0 \<longrightarrow> result = Inr (-1) \<and> s' = s\<lparr>fcgi_calls := fcgi_calls s @ [Accept]\<rparr>)
    \<and> (0 \<le> req_accept r \<longrightarrow> (\<exists>cs. Accept \<notin> set cs \<and> Finish \<notin> set cs
         \<and> (case reply_death die_at reply of
              None \<Rightarrow> result = Inr 1 \<and> fcgi_calls s' = fcgi_calls s @ [Accept] @ cs @ [Finish]
            | Some t \<Rightarrow> result = Inl t \<and> fcgi_calls s' = fcgi_calls s @ [Accept] @ cs)))"
proof (cases "req_accept r < 0")
  case True
  with assms(1) show ?thesis by (auto simp: handle_request_def call_def)
next
  case False
  obtain as where app: "req_app r (request_env psgi_env (req_params r)) (arrays s) = (reply, as)"
    using assms(2) by (metis prod.collapse)
  let ?s3 = "(call Accept s)\<lparr>fcgi_env := req_params r, arrays := as\<rparr>"
  have s3: "fcgi_calls ?s3 = fcgi_calls s @ [Accept]" by (simp add: call_def)
  have "\<exists>cs. quiet cs \<and> (case reply_death die_at reply of
      None \<Rightarrow> result = Inr 1 \<and> fcgi_calls s' = fcgi_calls ?s3 @ cs @ [Finish]
    | Some t \<Rightarrow> result = Inl t \<and> fcgi_calls s' = fcgi_calls ?s3 @ cs)"
  proof (cases reply)
    case (ArrayReply a)
    obtain q s4 where h: "handle_response status_message a ?s3 = (q, s4)" by fastforce
    then have "q = (case body_death a of Some t \<Rightarrow> Inl t | None \<Rightarrow> Inr (res_body a = None))"
      by (simp add: handle_response_run)
    moreover obtain cs where "fcgi_calls s4 = fcgi_calls ?s3 @ cs" "quiet cs"
      using handle_response_calls [of status_message a ?s3] h by auto
    ultimately show ?thesis
      using assms(1) False app ArrayReply h
      by (intro exI [of _ cs]) (auto simp: handle_request_def call_def Let_def split: option.splits)
  next
    case (CodeReply ss)
    obtain q s4 where h: "run_stream status_message ss ?s3 = (q, s4)" by fastforce
    then have "q = stream_death ss" using run_stream_calls [of status_message ss ?s3] by simp
    moreover obtain cs where "fcgi_calls s4 = fcgi_calls ?s3 @ cs" "quiet cs"
      using run_stream_calls [of status_message ss ?s3] h by auto
    ultimately show ?thesis
      using assms(1) False app CodeReply h
      by (intro exI [of _ cs]) (auto simp: handle_request_def call_def Let_def split: option.splits)
  next
    case (BadReply t)
    with assms(1) False app show ?thesis
      by (intro exI [of _ "[]"]) (auto simp: handle_request_def call_def Let_def)
  qed
  then obtain cs where "quiet cs" "case reply_death die_at reply of
      None \<Rightarrow> result = Inr 1 \<and> fcgi_calls s' = fcgi_calls s @ [Accept] @ cs @ [Finish]
    | Some t \<Rightarrow> result = Inl t \<and> fcgi_calls s' = fcgi_calls s @ [Accept] @ cs"
    unfolding s3 append.assoc by blast
  with False show ?thesis unfolding quiet_def by blast
qed

text \<open>Two requests: the body of the second response cannot be read to its end.\<close>

definition demo_request :: "string option \<Rightarrow> request" where
  "demo_request error = \<lparr>req_accept = 0, req_params = Map.empty,
     req_app = (\<lambda>_ as. (ArrayReply (demo_response\<lparr>res_dies := error\<rparr>), as))\<rparr>"

theorem request_protocol_witness:
  "(\<exists>cs s'. handle_request (\<lambda>_. Some ''OK'') (\<lambda>_. '''') Map.empty (demo_request None) demo_fcgi = (Inr 1, s')
      \<and> fcgi_calls s' = Accept # cs @ [Finish] \<and> Finish \<notin> set cs)
   \<and> (\<exists>s'. handle_request (\<lambda>_. Some ''OK'') (\<lambda>_. '''') Map.empty (demo_request (Some ''lost'')) demo_fcgi
        = (Inl ''lost'', s') \<and> Finish \<notin> set (fcgi_calls s'))"
proof -
  have d: "reply_death die_at (fst (req_app (demo_request e) env as)) = e" "req_accept (demo_request e) = 0"
    for e die_at env as
    by (simp_all add: demo_request_def body_death_def demo_response_def)
  have "fcgi_calls demo_fcgi = []" by (simp add: demo_fcgi_def)
  then show ?thesis
    using request_protocol [OF prod.collapse [symmetric] refl, where r = "demo_request None" and s = demo_fcgi
        and status_message = "\<lambda>_. Some ''OK''" and die_at = "\<lambda>_. ''''" and psgi_env = Map.empty]
      request_protocol [OF prod.collapse [symmetric] refl, where r = "demo_request (Some ''lost'')"
        and s = demo_fcgi and status_message = "\<lambda>_. Some ''OK''" and die_at = "\<lambda>_. ''''" and psgi_env = Map.empty]
    unfolding d by (auto simp: prod_eq_iff)
qed

end
