(* ===== verification/Bpsgi_XS.thy ===== *)
theory Bpsgi_XS
  imports Bpsgi_Shutdown
begin

text \<open>
  What Perl code gets from the objects BladePSGI gives it (\<^verbatim>\<open>src/perl/XS.xs\<close> over
  \<^verbatim>\<open>src/perl_interpreter_sea_bridge.cpp\<close>, modelled in \<open>Bpsgi_Perl\<close>): the width of
  the arguments of atomic integers, and who may set the status of a worker.
\<close>

section \<open>Arguments of atomic integers\<close>

lemma int_arg_signed: "sint (int_arg i) = signed_take_bit 31 i"
  by (simp add: int_arg_def signed_scast_eq sint_sbintrunc' signed_take_bit_signed_take_bit)

lemma signed_take_bit_31:
  "signed_take_bit 31 i = i \<longleftrightarrow> - 2147483648 \<le> i \<and> i < (2147483648 :: int)"
proof
  assume "signed_take_bit 31 i = i"
  then show "- 2147483648 \<le> i \<and> i < 2147483648"
    using signed_take_bit_int_greater_eq_minus_exp [of 31 i] signed_take_bit_int_less_exp [of 31 i] by simp
qed (simp add: signed_take_bit_int_eq_self)

text \<open>C36. An atomic integer holds what a Perl program stores only if the value fits 32 bits: the
  XS methods pass it through a C int. For every value, a load after a store gives the low 32
  bits of the value with their sign, and that is the value exactly if it lies between -2^31 and
  2^31 - 1, although the integer in shared memory has 64 bits.\<close>

theorem atomic_store_truncates:
  assumes "shmem (app w) = Some s" and "a + 8 \<le> shmem_size s"
  shows "\<exists>w1 v. do_xs (XS_atomic_int64_store a i) w = (Ret XsUndef, w1)
     \<and> do_xs (XS_atomic_int64_load a) w1 = (Ret (XsInt v), w1) \<and> sint v = signed_take_bit 31 i
     \<and> (sint v = i \<longleftrightarrow> - (2 ^ 31) \<le> i \<and> i < 2 ^ 31)"
proof -
  let ?s1 = "s\<lparr>segment := store64 (segment s) a (int_arg i)\<rparr>"
  let ?w1 = "w\<lparr>app := (app w)\<lparr>shmem := Some ?s1\<rparr>\<rparr>"
  have "do_xs (XS_atomic_int64_store a i) w = (Ret XsUndef, ?w1)"
    using assms by (simp add: cb_atomic_int64_store_def on_shmem_def store_int64_def andThen_def
        bind_def ret_def)
  moreover have "do_xs (XS_atomic_int64_load a) ?w1 = (Ret (XsInt (int_arg i)), ?w1)"
    using assms by (simp add: cb_atomic_int64_load_def on_shmem_def load_int64_def bind_def ret_def)
  ultimately show ?thesis
    using int_arg_signed [of i] signed_take_bit_31 [of i] by auto
qed

definition demo_shared :: world where
  "demo_shared = (demo_world [])\<lparr>app := demo_app\<lparr>shmem := Some (BPSGISharedMemory_new 4096)\<rparr>\<rparr>"

lemma demo_shared_state:
  "shmem (app demo_shared) = Some (BPSGISharedMemory_new 4096)"
  "shmem_size (BPSGISharedMemory_new 4096) = 4096"
  by (simp_all add: demo_shared_def BPSGISharedMemory_new_def)

theorem atomic_store_truncates_witness:
  "\<exists>w1 v. do_xs (XS_atomic_int64_store 16 4294967299) demo_shared = (Ret XsUndef, w1)
     \<and> do_xs (XS_atomic_int64_load 16) w1 = (Ret (XsInt v), w1) \<and> sint v = 3"
proof -
  have "signed_take_bit 31 4294967299 = (3 :: int)" by (simp add: signed_take_bit_int_eq_self_iff)
  with atomic_store_truncates [OF demo_shared_state(1), of 16 4294967299] demo_shared_state(2)
  show ?thesis by auto
qed

section \<open>The status of a worker\<close>

text \<open>C35. A worker's status is what its Perl code says, and nobody else can set it. In the process
  of worker n the first character of the text (the NUL of an empty one) becomes the status that
  is read for worker n, and no other worker's status changes; in a process whose context
  belongs to no worker the call croaks and nothing changes.\<close>

theorem worker_status_from_perl:
  assumes "shmem (app w) = Some s" and "shmem_size s = 4096"
    and "perl_ctx w = Some ctx" and "ctx_worker ctx = Some n" and "n < 2048"
  shows "(\<exists>w1 s1. do_xs (XS_set_worker_status chr) w = (Ret XsUndef, w1) \<and> shmem (app w1) = Some s1
       \<and> GetWorkerStatus n s1 = (Ret (char_byte (first_char chr)), s1)
       \<and> (\<forall>m. m < 2048 \<and> m \<noteq> n \<longrightarrow> fst (GetWorkerStatus m s1) = fst (GetWorkerStatus m s)))
     \<and> do_xs (XS_set_worker_status chr) (w\<lparr>perl_ctx := Some (ctx\<lparr>ctx_worker := None\<rparr>)\<rparr>) =
         (Ret (XsCroak (''worker status change attempted from a non-worker BladePSGI context'' @ [CHR 0x0A])),
          w\<lparr>perl_ctx := Some (ctx\<lparr>ctx_worker := None\<rparr>)\<rparr>)"
proof -
  let ?s1 = "s\<lparr>segment := (segment s)(WorkerArraySegment + n := char_byte (first_char chr))\<rparr>"
  let ?w1 = "w\<lparr>app := (app w)\<lparr>shmem := Some ?s1\<rparr>\<rparr>"
  have a: "WorkerArraySegment + m < 4096" if "m < 2048" for m
    using that by (simp add: WorkerArraySegment_def layout_defs)
  have "do_xs (XS_set_worker_status chr) w = (Ret XsUndef, ?w1)"
    using assms a [OF assms(5)]
    by (simp add: the_ctx_def cb_set_worker_status_def BPSGIWorker_SetWorkerStatus_def
        app_SetWorkerStatus_def on_shmem_def SetWorkerStatus_def store_int8_def andThen_def bind_def
        gets_def ret_def Assert_def)
  moreover have "GetWorkerStatus n ?s1 = (Ret (char_byte (first_char chr)), ?s1)"
    "m < 2048 \<Longrightarrow> m \<noteq> n \<Longrightarrow> fst (GetWorkerStatus m ?s1) = fst (GetWorkerStatus m s)" for m
    using a a [OF assms(5)] assms(2) by (auto simp: GetWorkerStatus_def load_int8_def)
  moreover have "do_xs (XS_set_worker_status chr) (w\<lparr>perl_ctx := Some (ctx\<lparr>ctx_worker := None\<rparr>)\<rparr>) =
         (Ret (XsCroak (''worker status change attempted from a non-worker BladePSGI context'' @ [CHR 0x0A])),
          w\<lparr>perl_ctx := Some (ctx\<lparr>ctx_worker := None\<rparr>)\<rparr>)"
    by (simp add: the_ctx_def bind_def gets_def ret_def)
  ultimately show ?thesis by auto
qed

theorem worker_status_from_perl_witness:
  "\<exists>w1 s1. do_xs (XS_set_worker_status ''RX'') (demo_shared\<lparr>perl_ctx := Some \<lparr>ctx_worker = Some 5\<rparr>\<rparr>) = (Ret XsUndef, w1)
     \<and> shmem (app w1) = Some s1 \<and> GetWorkerStatus 5 s1 = (Ret 82, s1)
     \<and> fst (GetWorkerStatus 6 s1) = Ret 0"
proof -
  let ?w = "demo_shared\<lparr>perl_ctx := Some \<lparr>ctx_worker = Some 5\<rparr>\<rparr>"
  have "shmem (app ?w) = Some (BPSGISharedMemory_new 4096)" "perl_ctx ?w = Some \<lparr>ctx_worker = Some 5\<rparr>"
    by (simp_all add: demo_shared_state)
  moreover have "char_byte (first_char ''RX'') = 82" by (simp add: char_byte_def first_char_def)
  moreover have "fst (GetWorkerStatus 6 (BPSGISharedMemory_new 4096)) = Ret 0"
    by (simp add: GetWorkerStatus_def load_int8_def BPSGISharedMemory_new_def WorkerArraySegment_def layout_defs)
  ultimately show ?thesis
    using worker_status_from_perl [of ?w _ _ 5 "''RX''"] demo_shared_state(2) by fastforce
qed

end
