(* ===== verification/Spec2Isabelle.thy ===== *)
theory Spec2Isabelle
  imports Bpsgi_Service Bpsgi_Startup Bpsgi_CommandLine Bpsgi_FastCGI Bpsgi_XS
begin

text \<open>
  A verification library for BladePSGI, a server that runs a PSGI (Perl) web application in a
  fixed number of worker processes behind a FastCGI socket. Paths are relative to the
  repository's \<^verbatim>\<open>src/src\<close>.

  \<^bold>\<open>The program.\<close> \<^verbatim>\<open>main\<close> reads the command line, constructs
  \<^verbatim>\<open>BPSGIMainApplication\<close> and calls \<^verbatim>\<open>Run\<close>. The process that runs it
  is the overseer. With all signals blocked it creates a self-pipe, a shared segment of 4096 bytes
  and two listening UNIX sockets, starts the embedded Perl interpreter, loads the application
  through a piece of Perl code kept in a C++ string, and forks: the auxiliary processes the
  application has asked for, the workers, and a monitoring process. Then it installs its signal
  handlers, unblocks the signals and sleeps in \<^verbatim>\<open>select\<close> on the self-pipe. A
  signal handler only notes a shutdown request and writes to the pipe; the main loop acts on
  requests by signalling the workers and the monitoring process, and reaps children. A child that
  dies without a request makes it stop everything. A worker calls back into Perl once per request,
  counts requests and publishes a status character in the shared segment; the monitoring process
  watches the overseer and writes statistics to clients of its socket. Perl code can create
  semaphores and atomic integers in the segment as long as nothing has been forked.

  \<^bold>\<open>How code is modelled.\<close> Code is a function from a state to an outcome and a state
  (\<open>prog\<close> in \<open>Bpsgi_Prelude\<close>): a value, a C++ exception, the end of the process, or
  waiting for an answer that has not come. The state of a process is the record \<open>world\<close>
  (\<open>Bpsgi_Process\<close>): the fields of the application object, the static variables, what the
  kernel keeps for the process (mask, pending signals, dispositions), and the \<open>script\<close> of
  everything the outside is going to do: answers to calls, signals that arrive between them, and
  what other processes do to the shared segment meanwhile. The theorems hold for all scripts, so for
  every failing call and every arrival of a signal. The calls made are listed in \<open>trace\<close>, each
  fork followed by its answer. SIGKILL and SIGSTOP take effect whatever mask the program has asked
  for. An exception that leaves \<^verbatim>\<open>main\<close> is an outcome of its own; the C++ run-time then
  aborts the process.
  Loops that depend on the outside take an answer in every pass; their termination is proved with
  the length of the script as the measure, and no fuel is needed anywhere. Signals are delivered at
  calls. Machine integers are words where their width matters (\<^verbatim>\<open>size_t\<close>,
  \<^verbatim>\<open>int64_t\<close>, the bytes of the segment), C buffers keep what
  \<^verbatim>\<open>vsnprintf\<close> keeps.

  \<^bold>\<open>The theories.\<close>
  \<^item> \<open>Bpsgi_Prelude\<close>: outcomes, sequencing, exceptions; invariants of programs
    (\<open>keeps\<close>, \<open>keeps_ret\<close>, \<open>never_returns\<close>, \<open>throws_only\<close>); byte-addressed memory (locale
    \<open>memory_cells\<close>, for cells of 1 and 8 bytes); refinement of a specification by code (locale
    \<open>simulation\<close>); decimal text and C strings.
  \<^item> \<open>Bpsgi_Exceptions\<close> (\<^verbatim>\<open>exceptions.cpp\<close> and
    PerlInterpreterException): which texts handlers get to see.
  \<^item> \<open>Bpsgi_Shmem\<close> (\<^verbatim>\<open>shmem.cpp\<close>) on bytes: objects never overlap and stay
    aligned. \<open>Bpsgi_Shmem_Spec\<close>: an address-free specification that every interleaving
    refines; the exit is announced by exactly one process; requests are counted; permits of
    semaphores are bounded; the capacities of the segment; locked allocations.
  \<^item> \<open>Bpsgi_Process\<close>: the state, calls, signal handlers
    (\<^verbatim>\<open>HandleParentSignal\<close>, \<^verbatim>\<open>KillProcessGroup\<close> and those of the
    children), masks. \<open>Bpsgi_Log\<close>: \<^verbatim>\<open>Log\<close>,
    \<^verbatim>\<open>SetProcessTitle\<close>, which stays inside the memory of the arguments,
    \<^verbatim>\<open>SubprocessInit\<close>.
  \<^item> \<open>Bpsgi_Perl\<close> (\<^verbatim>\<open>perl_interpreter.cpp\<close>,
    \<^verbatim>\<open>perl_interpreter_sea_bridge.cpp\<close>,
    \<^verbatim>\<open>perl/bladepsgi_perl.c\<close>, \<^verbatim>\<open>perl/XS.xs\<close>) and
    \<open>Bpsgi_XS\<close>: calls in both directions; who can set a worker's status; the width of the
    arguments of atomic integers.
  \<^item> \<open>Bpsgi_Sockets\<close>, \<open>Bpsgi_Spawn\<close>, \<open>Bpsgi_Worker\<close>,
    \<open>Bpsgi_Auxiliary\<close>, \<open>Bpsgi_Monitoring\<close>, \<open>Bpsgi_Overseer\<close>: the
    functions of \<^verbatim>\<open>bladepsgi.cpp\<close>, \<^verbatim>\<open>worker.cpp\<close>,
    \<^verbatim>\<open>auxiliary.cpp\<close> and \<^verbatim>\<open>monitoring.cpp\<close> under their names;
    \<open>startup\<close>, \<open>overseer_iteration\<close> and their parts are consecutive pieces of
    \<^verbatim>\<open>BPSGIMainApplication::Run\<close>.
  \<^item> \<open>Bpsgi_Invariants\<close>: locales that carry a predicate through all code of a layer,
    each extending the one before; instances in \<open>Bpsgi_Pids\<close> (signals go to the program's own
    processes only, to processes forked before, SIGTERM at most once to each) and \<open>Bpsgi_Shutdown\<close> (a noted request is not
    slept over; what the overseer does about requests and deaths; the script is used up from its
    front, so that exit code 0 comes only after the answer that there is no child).
  \<^item> \<open>Bpsgi_Children\<close>: forked processes do not return into the overseer's code; the
    overseer knows its children. \<open>Bpsgi_Startup\<close>: no request is lost while signals are blocked
    (locale \<open>return_invariant\<close>); in a whole run every signal goes to a process forked before;
    the self-pipe is drained; files in the way of a socket.
    \<open>Bpsgi_Service\<close>: workers leave between requests and finish what they do; the monitoring
    process notices a dead overseer; its statistics can be read back and reach the client.
  \<^item> \<open>Bpsgi_Escapes\<close>: which exceptions leave which code (locales
    \<open>known_exceptions\<close> and \<open>perl_exceptions\<close>), up to \<^verbatim>\<open>Run\<close>.
  \<^item> \<open>Bpsgi_CommandLine\<close>: \<^verbatim>\<open>main\<close>, the options and their round trip, the
    application object it constructs, and what it does about exceptions.
  \<^item> \<open>Bpsgi_FastCGI\<close>: the Perl code of
    \<^verbatim>\<open>perl/fastcgi_wrapper_loader.cpp\<close>: finding the application, the environment of
    a request, the protocol with the FastCGI library and what dies when, responses that can be
    read back. It is
    connected with the rest through Perl only: \<open>Bpsgi_Spawn\<close> hands the text to the interpreter,
    whose answers the script gives.

  \<^bold>\<open>Assumptions on the outside.\<close> The C library's semaphores, \<^verbatim>\<open>strtol\<close>,
  \<^verbatim>\<open>getopt_long\<close> (with and without \<^verbatim>\<open>POSIXLY_CORRECT\<close>) and the printf
  family behave as documented. Operations on the
  segment are atomic and sequentially consistent. The size of \<^verbatim>\<open>sem_t\<close>, the texts of
  \<^verbatim>\<open>strerror\<close>, and what Perl, FCGI, Plack and HTTP::Status do are arguments or answers. Where the C code has
  undefined behaviour on an answer (a pointer of a Perl scalar that is none) the model faults.
  A forked child in the model keeps the signals pending for its parent, which the kernel does not;
  it has only more behaviours that way.

  \<^bold>\<open>Not modelled.\<close> \<^verbatim>\<open>make_unique.hpp\<close> (a library shim); destructors that
  only free memory; \<^verbatim>\<open>PERL_SYS_INIT3\<close> and the registration of the XS boot functions,
  which have no result the program looks at; memory exhaustion; the error message
  \<^verbatim>\<open>getopt_long\<close> prints itself; signals between two calls (they are seen at the next
  one); build files and declarations.
\<close>

end
